theory Spec2Isabelle
  imports Main "HOL-Library.AList" "HOL-Library.Sublist"
begin

section \<open>Values thrown by the JavaScript code\<close>

text \<open>
  The storage layer signals every failure by throwing. Three kinds of thrown value
  occur: \<open>new Error(msg)\<close>, an exception of the platform with a \<open>name\<close> of its own
  (\<open>TypeError\<close>, and the \<open>DOMException\<close> whose name \<open>LocalStorage.storeEncryptedData\<close>
  tests against \<open>'QuotaExceededError'\<close>), and the
  error object of a Supabase response (its \<open>code\<close> is what \<open>storeInProfilesTable\<close>
  tests against \<open>'PGRST116'\<close>; the second field is the text the object renders to in a
  template literal).
\<close>

datatype js_error =
    Error string
  | NamedError string string
  | PostgrestError string string

text \<open>\<open>`${error}`\<close>: the rendering of a thrown value inside a template literal.\<close>

fun error_toString :: "js_error \<Rightarrow> string" where
  "error_toString (Error m) = (if m = [] then ''Error'' else ''Error: '' @ m)"
| "error_toString (NamedError n m) =
     (if n = [] then m else if m = [] then n else n @ '': '' @ m)"
| "error_toString (PostgrestError c txt) = txt"

fun error_name :: "js_error \<Rightarrow> string" where
  "error_name (Error m) = ''Error''"
| "error_name (NamedError n m) = n"
| "error_name (PostgrestError c txt) = ''PostgrestError''"

fun error_code :: "js_error \<Rightarrow> string option" where
  "error_code (PostgrestError c txt) = Some c"
| "error_code e = None"

text \<open>\<open>Array.prototype.join\<close>.\<close>

fun join :: "string \<Rightarrow> string list \<Rightarrow> string" where
  "join sep [] = []"
| "join sep [x] = x"
| "join sep (x # y # ys) = x @ sep @ join sep (y # ys)"

text \<open>The decimal rendering of a number, as \<open>`${Date.now()}`\<close> produces it.\<close>

fun show_nat :: "nat \<Rightarrow> string" where
  "show_nat n =
     (if n < 10 then [char_of (48 + n)]
      else show_nat (n div 10) @ [char_of (48 + n mod 10)])"

declare show_nat.simps [simp del]

section \<open>The environment of the code\<close>

subsection \<open>Libraries and browser facilities\<close>

text \<open>
  \<open>EncryptionService\<close> is a thin wrapper around \<open>JSON.stringify\<close>, \<open>JSON.parse\<close> and
  CryptoJS's passphrase-based AES. These library functions are parameters of the model:
  \<^item> \<open>json_stringify\<close> is \<open>None\<close> where \<open>JSON.stringify\<close> throws or yields no string;
  \<^item> \<open>json_parse\<close> is \<open>None\<close> where \<open>JSON.parse\<close> throws;
  \<^item> \<open>json_is_null v\<close> is the test \<open>v === null\<close>;
  \<^item> \<open>aes_encrypt salt text key\<close> is \<open>CryptoJS.AES.encrypt(text, key).toString()\<close>,
    with the random salt the library draws made explicit;
  \<^item> \<open>aes_decrypt_utf8 c key\<close> is
    \<open>CryptoJS.AES.decrypt(c, key).toString(CryptoJS.enc.Utf8)\<close>, \<open>None\<close> where it throws;
  \<^item> \<open>randomUUID\<close> maps a draw of the random source to \<open>crypto.randomUUID()\<close>;
  \<^item> \<open>quota_ok\<close> is the browser's verdict on a content of \<open>localStorage\<close>:
    \<open>setItem\<close> throws \<open>QuotaExceededError\<close> when the content it would produce is refused;
  \<^item> \<open>storage_supported\<close> is \<open>typeof Storage !== 'undefined'\<close>.
\<close>

record storage_item =
  item_id :: string
  item_userId :: string
  item_dataType :: string
  item_encryptedContent :: string
  item_storageLocation :: string
  item_createdAt :: nat
  item_updatedAt :: nat

record index_entry =
  entry_id :: string
  entry_dataType :: string
  entry_createdAt :: nat

text \<open>
  \<open>localStorage\<close> is a flat map from key strings to strings. The code only stores
  \<open>JSON.stringify\<close> of a storage item or of the index array; the model keeps the
  value before serialisation. Timestamps are milliseconds, the number an ISO date
  string denotes.
\<close>

datatype ls_value = LItem storage_item | LIndex "index_entry list"

type_synonym local_store = "(string \<times> ls_value) list"

record 'v env =
  json_stringify :: "'v \<Rightarrow> string option"
  json_parse :: "string \<Rightarrow> 'v option"
  json_is_null :: "'v \<Rightarrow> bool"
  aes_encrypt :: "nat \<Rightarrow> string \<Rightarrow> string \<Rightarrow> string"
  aes_decrypt_utf8 :: "string \<Rightarrow> string \<Rightarrow> string option"
  randomUUID :: "nat \<Rightarrow> string"
  quota_ok :: "local_store \<Rightarrow> bool"
  storage_supported :: bool

subsection \<open>The remote services\<close>

record sb_row =
  row_id :: string
  row_user_id :: string
  row_data_type :: string
  row_encrypted_content :: string
  row_storage_location :: string
  row_created_at :: nat
  row_updated_at :: nat

record profile_entry =
  pe_data_type :: string
  pe_encrypted_content :: string
  pe_created_at :: nat

text \<open>
  The hosted store, as far as \<open>SupabaseStorage\<close> talks to it:
  \<^item> \<open>sb_outage\<close>: when \<open>Some e\<close>, every table request and remote procedure call
    answers \<open>{ data: null, error: e }\<close>;
  \<^item> \<open>sb_session\<close>: the user \<open>supabase.auth.getUser()\<close> reports;
  \<^item> \<open>sb_table\<close>: whether the table \<open>encrypted_data\<close> exists; a request against a
    missing table answers with the error \<open>sb_no_table\<close>;
  \<^item> \<open>sb_schema_error\<close>: the error of a request against
    \<open>information_schema.tables\<close>, if the service refuses such requests;
  \<^item> \<open>sb_rpc_error\<close>: the error of \<open>rpc('create_encrypted_data_table')\<close>, if any; a call
    answered without error has created the table;
  \<^item> \<open>sb_rows\<close>: the rows of \<open>encrypted_data\<close>;
  \<^item> \<open>sb_profiles\<close>: the rows of \<open>profiles\<close>, as pairs of the row's \<open>id\<close> and its
    \<open>encrypted_data\<close> document (\<open>None\<close> for a null column).
  A filtered \<open>update\<close> or \<open>delete\<close> that matches no row is not an error of the service.
\<close>

record supabase_remote =
  sb_outage :: "js_error option"
  sb_session :: "string option"
  sb_table :: bool
  sb_schema_error :: "js_error option"
  sb_rpc_error :: "js_error option"
  sb_rows :: "sb_row list"
  sb_profiles :: "(string \<times> (string \<times> profile_entry) list option) list"

definition sb_no_table :: js_error where
  "sb_no_table = PostgrestError ''42P01'' ''[object Object]''"

definition sb_no_rows :: js_error where
  "sb_no_rows = PostgrestError ''PGRST116'' ''[object Object]''"

text \<open>
  What the code reads as the \<open>id\<close> of a parsed response: a string, or \<open>undefined\<close> when
  the response has no such member.
\<close>

datatype js_id = Undefined | Id string

record drive_file =
  file_id :: string
  file_name :: string
  file_parent :: js_id
  file_content :: string

text \<open>
  The file store, as far as \<open>GoogleDriveStorage\<close> talks to it:
  \<^item> \<open>drive_online\<close>: when false, \<open>fetch\<close> rejects;
  \<^item> \<open>drive_error\<close>: when \<open>Some body\<close>, the service answers every request with an error
    response (an expired token, an exhausted quota) whose body is the text \<open>body\<close>, a
    JSON object with the single member \<open>error\<close>. \<open>fetch\<close> resolves all the same and the
    code never looks at the status of a response: the parsed body has no \<open>id\<close> and no
    \<open>files\<close>, and nothing is created or uploaded;
  \<^item> \<open>drive_search_hit\<close>: the first folder the search request of \<open>getOrCreateFolder\<close>
    reports, if any. The code names the folder by \<open>this.FOLDER_NAME\<close>, a static member
    read through the instance, which is \<open>undefined\<close> when the code runs: the search
    asks for a folder of the name \<open>undefined\<close> and \<open>createEncryptedFolder\<close> sends no
    name. So what the search reports is a state of the remote that creating the folder
    does not change;
  \<^item> \<open>drive_folders\<close>: the identifiers of the folders created;
  \<^item> \<open>drive_files\<close>: the files uploaded.
  A request the service does not answer with an error is served: an upload answers with
  the new file's \<open>id\<close>, and a listing answers with the files whose parent is the folder
  asked for.
\<close>

record drive_remote =
  drive_online :: bool
  drive_error :: "string option"
  drive_search_hit :: "string option"
  drive_folders :: "string list"
  drive_files :: "drive_file list"

subsection \<open>The world\<close>

text \<open>
  Everything the code can change or read: the browser's \<open>localStorage\<close> (the
  namespaced entries in \<open>ls\<close>, the cached Drive token apart), the clock, the state of the
  random source (each draw advances it), and the two remotes.
\<close>

record world =
  ls :: local_store
  google_drive_token :: "string option"
  clock :: nat
  rng :: nat
  sb :: supabase_remote
  drive :: drive_remote

section \<open>EncryptionService\<close>

definition encryptData :: "'v env \<Rightarrow> nat \<Rightarrow> 'v \<Rightarrow> string \<Rightarrow> js_error + string" where
  "encryptData E salt data encryptionKey =
     (case json_stringify E data of
        None \<Rightarrow> Inl (Error ''Failed to encrypt data'')
      | Some jsonString \<Rightarrow> Inr (aes_encrypt E salt jsonString encryptionKey))"

definition decryptData :: "'v env \<Rightarrow> string \<Rightarrow> string \<Rightarrow> js_error + 'v" where
  "decryptData E encryptedData encryptionKey =
     (case aes_decrypt_utf8 E encryptedData encryptionKey of
        None \<Rightarrow> Inl (Error ''Failed to decrypt data'')
      | Some jsonString \<Rightarrow>
          if jsonString = [] then Inl (Error ''Failed to decrypt data'')
          else (case json_parse E jsonString of
                  None \<Rightarrow> Inl (Error ''Failed to decrypt data'')
                | Some v \<Rightarrow> Inr v))"

text \<open>Mapping a function that may throw over an array: the first throw ends the loop.\<close>

fun traverse :: "('a \<Rightarrow> js_error + 'b) \<Rightarrow> 'a list \<Rightarrow> js_error + 'b list" where
  "traverse f [] = Inr []"
| "traverse f (x # xs) =
     (case f x of
        Inl e \<Rightarrow> Inl e
      | Inr y \<Rightarrow> (case traverse f xs of Inl e \<Rightarrow> Inl e | Inr ys \<Rightarrow> Inr (y # ys)))"

section \<open>LocalStorage\<close>

text \<open>
  The sources hold the class twice. The version modelled is the one whose
  \<open>storeEncryptedData\<close> checks that \<open>localStorage\<close> is supported and retries once, after
  \<open>clearOldData\<close>, a write the quota refused; the other version lacks the check and the
  retry and is the same otherwise. The quota estimate at the start of
  \<open>storeEncryptedData\<close> only logs a warning, later, and is left out.
\<close>

definition PREFIX :: string where
  "PREFIX = ''pharmacare_encrypted_''"

definition storageKey :: "string \<Rightarrow> string \<Rightarrow> string \<Rightarrow> string" where
  "storageKey userId dataType ident = PREFIX @ userId @ ''_'' @ dataType @ ''_'' @ ident"

definition indexKey :: "string \<Rightarrow> string" where
  "indexKey userId = PREFIX @ ''index_'' @ userId"

definition getItem :: "local_store \<Rightarrow> string \<Rightarrow> ls_value option" where
  "getItem s k = map_of s k"

definition removeItem :: "local_store \<Rightarrow> string \<Rightarrow> local_store" where
  "removeItem s k = AList.delete k s"

definition QuotaExceededError :: js_error where
  "QuotaExceededError = NamedError ''QuotaExceededError'' ''The quota has been exceeded.''"

definition setItem :: "'v env \<Rightarrow> local_store \<Rightarrow> string \<Rightarrow> ls_value \<Rightarrow> js_error + local_store" where
  "setItem E s k v =
     (let s' = AList.update k v s
      in if quota_ok E s' then Inr s' else Inl QuotaExceededError)"

text \<open>
  \<open>getIndex\<close>: the parsed index, or the empty array when the key is absent. Every caller
  applies an array method to the result at once, so a key that holds something else
  than an array is modelled as the \<open>TypeError\<close> that method call throws.
\<close>

definition getIndex :: "local_store \<Rightarrow> string \<Rightarrow> js_error + index_entry list" where
  "getIndex s userId =
     (case getItem s (indexKey userId) of
        None \<Rightarrow> Inr []
      | Some (LIndex index) \<Rightarrow> Inr index
      | Some (LItem x) \<Rightarrow> Inl (NamedError ''TypeError'' ''index is not an array''))"

definition updateIndex ::
  "'v env \<Rightarrow> string \<Rightarrow> string \<Rightarrow> string \<Rightarrow> world \<Rightarrow> (js_error + unit) \<times> world" where
  "updateIndex E userId ident dataType w =
     (case getIndex (ls w) userId of
        Inl e \<Rightarrow> (Inl e, w)
      | Inr index \<Rightarrow>
          (case setItem E (ls w) (indexKey userId)
                  (LIndex (index @ [\<lparr>entry_id = ident, entry_dataType = dataType,
                                      entry_createdAt = clock w\<rparr>])) of
             Inl e \<Rightarrow> (Inl e, w)
           | Inr s \<Rightarrow> (Inr (), w\<lparr>ls := s\<rparr>)))"

definition removeFromIndex ::
  "'v env \<Rightarrow> string \<Rightarrow> string \<Rightarrow> world \<Rightarrow> (js_error + unit) \<times> world" where
  "removeFromIndex E userId ident w =
     (case getIndex (ls w) userId of
        Inl e \<Rightarrow> (Inl e, w)
      | Inr index \<Rightarrow>
          (case setItem E (ls w) (indexKey userId)
                  (LIndex (filter (\<lambda>item. entry_id item \<noteq> ident) index)) of
             Inl e \<Rightarrow> (Inl e, w)
           | Inr s \<Rightarrow> (Inr (), w\<lparr>ls := s\<rparr>)))"

text \<open>
  \<open>clearOldData\<close>: \<open>Math.ceil(index.length * 0.1)\<close> is written as \<open>(n + 9) div 10\<close>
  (the two agree for every length below a million); \<open>Array.prototype.sort\<close> is stable
  and sorts in place, so \<open>index.slice\<close> afterwards slices the sorted array. Every
  exception inside is caught and only logged; the removals done before it stay.
\<close>

definition clearOldData :: "'v env \<Rightarrow> string \<Rightarrow> world \<Rightarrow> world" where
  "clearOldData E userId w =
     (case getIndex (ls w) userId of
        Inl e \<Rightarrow> w
      | Inr index \<Rightarrow>
          (let itemsToRemove = (length index + 9) div 10;
               sortedItems = sort_key entry_createdAt index;
               s1 = fold (\<lambda>item s. removeItem s
                            (storageKey userId (entry_dataType item) (entry_id item)))
                      (take itemsToRemove sortedItems) (ls w);
               updatedIndex = drop itemsToRemove sortedItems
           in (case setItem E s1 (indexKey userId) (LIndex updatedIndex) of
                 Inl e \<Rightarrow> w\<lparr>ls := s1\<rparr>
               | Inr s2 \<Rightarrow> w\<lparr>ls := s2\<rparr>)))"

definition local_store_failed :: "js_error \<Rightarrow> js_error" where
  "local_store_failed e = Error (''Failed to store data locally: '' @ error_toString e)"

definition local_storeEncryptedData ::
  "'v env \<Rightarrow> string \<Rightarrow> 'v \<Rightarrow> string \<Rightarrow> string \<Rightarrow> world \<Rightarrow> (js_error + string) \<times> world" where
  "local_storeEncryptedData E userId data dataType encryptionKey w =
     (if \<not> storage_supported E
      then (Inl (local_store_failed (Error ''localStorage is not supported in this browser'')), w)
      else
        (case encryptData E (rng w) data encryptionKey of
           Inl e \<Rightarrow> (Inl (local_store_failed e), w)
         | Inr encryptedContent \<Rightarrow>
             (let ident = randomUUID E (Suc (rng w));
                  w1 = w\<lparr>rng := Suc (Suc (rng w))\<rparr>;
                  key = storageKey userId dataType ident;
                  storageItem = \<lparr>item_id = ident, item_userId = userId,
                                 item_dataType = dataType,
                                 item_encryptedContent = encryptedContent,
                                 item_storageLocation = ''local'',
                                 item_createdAt = clock w, item_updatedAt = clock w\<rparr>;
                  written =
                    (case setItem E (ls w1) key (LItem storageItem) of
                       Inr s \<Rightarrow> (Inr (), w1\<lparr>ls := s\<rparr>)
                     | Inl storageError \<Rightarrow>
                         if error_name storageError = ''QuotaExceededError''
                         then (let w2 = clearOldData E userId w1
                               in (case setItem E (ls w2) key (LItem storageItem) of
                                     Inr s \<Rightarrow> (Inr (), w2\<lparr>ls := s\<rparr>)
                                   | Inl e \<Rightarrow> (Inl e, w2)))
                         else (Inl storageError, w1))
              in (case written of
                    (Inl e, w3) \<Rightarrow> (Inl (local_store_failed e), w3)
                  | (Inr u, w3) \<Rightarrow>
                      (case updateIndex E userId ident dataType w3 of
                         (Inl e, w4) \<Rightarrow> (Inl (local_store_failed e), w4)
                       | (Inr u', w4) \<Rightarrow> (Inr ident, w4))))))"

text \<open>
  \<open>retrieveEncryptedData\<close>: the callback of \<open>map\<close> yields \<open>null\<close> for an index entry
  whose record is absent; the final \<open>filter\<close> drops every \<open>null\<close>, also a decrypted one.
\<close>

definition local_retrieve_item ::
  "'v env \<Rightarrow> local_store \<Rightarrow> string \<Rightarrow> string \<Rightarrow> string \<Rightarrow> index_entry
     \<Rightarrow> js_error + 'v option" where
  "local_retrieve_item E s userId dataType encryptionKey item =
     (case getItem s (storageKey userId dataType (entry_id item)) of
        None \<Rightarrow> Inr None
      | Some (LItem parsedItem) \<Rightarrow>
          (case decryptData E (item_encryptedContent parsedItem) encryptionKey of
             Inl e \<Rightarrow> Inl e
           | Inr v \<Rightarrow> Inr (Some v))
      | Some (LIndex x) \<Rightarrow> Inl (Error ''Failed to decrypt data''))"

fun not_null :: "'v env \<Rightarrow> 'v option \<Rightarrow> bool" where
  "not_null E None = False"
| "not_null E (Some v) = (\<not> json_is_null E v)"

definition local_retrieveEncryptedData ::
  "'v env \<Rightarrow> string \<Rightarrow> string \<Rightarrow> string \<Rightarrow> world \<Rightarrow> js_error + 'v list" where
  "local_retrieveEncryptedData E userId dataType encryptionKey w =
     (case getIndex (ls w) userId of
        Inl e \<Rightarrow>
          Inl (Error (''Failed to retrieve data from localStorage: '' @ error_toString e))
      | Inr index \<Rightarrow>
          (case traverse (local_retrieve_item E (ls w) userId dataType encryptionKey)
                  (filter (\<lambda>item. entry_dataType item = dataType) index) of
             Inl e \<Rightarrow>
               Inl (Error (''Failed to retrieve data from localStorage: '' @ error_toString e))
           | Inr items \<Rightarrow> Inr (map the (filter (not_null E) items))))"

definition local_update_failed :: "js_error \<Rightarrow> js_error" where
  "local_update_failed e =
     Error (''Failed to update data in localStorage: '' @ error_toString e)"

definition local_updateEncryptedData ::
  "'v env \<Rightarrow> string \<Rightarrow> string \<Rightarrow> string \<Rightarrow> 'v \<Rightarrow> string \<Rightarrow> world
     \<Rightarrow> (js_error + unit) \<times> world" where
  "local_updateEncryptedData E userId ident dataType data encryptionKey w =
     (case encryptData E (rng w) data encryptionKey of
        Inl e \<Rightarrow> (Inl (local_update_failed e), w)
      | Inr encryptedContent \<Rightarrow>
          (let w1 = w\<lparr>rng := Suc (rng w)\<rparr>;
               key = storageKey userId dataType ident
           in (case getItem (ls w1) key of
                 None \<Rightarrow> (Inl (local_update_failed (Error ''Item not found'')), w1)
               | Some (LIndex x) \<Rightarrow>
                   (case setItem E (ls w1) key (LIndex x) of
                      Inl e \<Rightarrow> (Inl (local_update_failed e), w1)
                    | Inr s \<Rightarrow> (Inr (), w1\<lparr>ls := s\<rparr>))
               | Some (LItem parsedItem) \<Rightarrow>
                   (case setItem E (ls w1) key
                           (LItem (parsedItem\<lparr>item_encryptedContent := encryptedContent,
                                              item_updatedAt := clock w1\<rparr>)) of
                      Inl e \<Rightarrow> (Inl (local_update_failed e), w1)
                    | Inr s \<Rightarrow> (Inr (), w1\<lparr>ls := s\<rparr>)))))"

definition local_deleteEncryptedData ::
  "'v env \<Rightarrow> string \<Rightarrow> string \<Rightarrow> string \<Rightarrow> world \<Rightarrow> (js_error + unit) \<times> world" where
  "local_deleteEncryptedData E userId ident dataType w =
     (let w1 = w\<lparr>ls := removeItem (ls w) (storageKey userId dataType ident)\<rparr>
      in (case removeFromIndex E userId ident w1 of
            (Inl e, w2) \<Rightarrow>
              (Inl (Error (''Failed to delete data from localStorage: '' @ error_toString e)), w2)
          | (Inr u, w2) \<Rightarrow> (Inr (), w2)))"

section \<open>SupabaseStorage\<close>

text \<open>The answer of the service to a request against the table \<open>encrypted_data\<close>.\<close>

definition sb_table_error :: "supabase_remote \<Rightarrow> js_error option" where
  "sb_table_error r =
     (case sb_outage r of
        Some e \<Rightarrow> Some e
      | None \<Rightarrow> if sb_table r then None else Some sb_no_table)"

definition storeInProfilesTable ::
  "'v env \<Rightarrow> string \<Rightarrow> 'v \<Rightarrow> string \<Rightarrow> string \<Rightarrow> world \<Rightarrow> (js_error + string) \<times> world" where
  "storeInProfilesTable E userId data dataType encryptedContent w =
     (let fetched =
            (case sb_outage (sb w) of
               Some e \<Rightarrow> (None, Some e)
             | None \<Rightarrow>
                 (case map_of (sb_profiles (sb w)) userId of
                    None \<Rightarrow> (None, Some sb_no_rows)
                  | Some doc \<Rightarrow> (Some doc, None)));
          profile = fst fetched;
          fetchError = snd fetched
      in (case (case fetchError of
                  Some e \<Rightarrow> if error_code e \<noteq> Some ''PGRST116'' then Some e else None
                | None \<Rightarrow> None) of
            Some e \<Rightarrow> (Inl e, w)
          | None \<Rightarrow>
              (let existingData = (case profile of Some (Some d) \<Rightarrow> d | _ \<Rightarrow> []);
                   dataId = randomUUID E (rng w);
                   w1 = w\<lparr>rng := Suc (rng w)\<rparr>;
                   existingData' =
                     AList.update dataId
                       \<lparr>pe_data_type = dataType, pe_encrypted_content = encryptedContent,
                        pe_created_at = clock w\<rparr> existingData
               in (case sb_outage (sb w1) of
                     Some updateError \<Rightarrow> (Inl updateError, w1)
                   | None \<Rightarrow>
                       (Inr dataId,
                        w1\<lparr>sb := (sb w1)\<lparr>sb_profiles :=
                               map (\<lambda>(i, doc). if i = userId then (i, Some existingData')
                                                else (i, doc))
                                 (sb_profiles (sb w1))\<rparr>\<rparr>)))))"

definition supabase_store_failed :: "js_error \<Rightarrow> js_error" where
  "supabase_store_failed e =
     Error (''Failed to store data in Supabase: '' @ error_toString e)"

definition supabase_fallback ::
  "'v env \<Rightarrow> string \<Rightarrow> 'v \<Rightarrow> string \<Rightarrow> string \<Rightarrow> world \<Rightarrow> (js_error + string) \<times> world" where
  "supabase_fallback E userId data dataType encryptedContent w =
     (case storeInProfilesTable E userId data dataType encryptedContent w of
        (Inl e, w') \<Rightarrow> (Inl (supabase_store_failed e), w')
      | (Inr dataId, w') \<Rightarrow> (Inr dataId, w'))"

definition supabase_insert ::
  "'v env \<Rightarrow> string \<Rightarrow> 'v \<Rightarrow> string \<Rightarrow> string \<Rightarrow> world \<Rightarrow> (js_error + string) \<times> world" where
  "supabase_insert E userId data dataType encryptedContent w =
     (case sb_table_error (sb w) of
        Some e \<Rightarrow> supabase_fallback E userId data dataType encryptedContent w
      | None \<Rightarrow>
          (let ident = randomUUID E (rng w);
               w1 = w\<lparr>rng := Suc (rng w)\<rparr>;
               result = \<lparr>row_id = ident, row_user_id = userId, row_data_type = dataType,
                         row_encrypted_content = encryptedContent,
                         row_storage_location = ''supabase'',
                         row_created_at = clock w, row_updated_at = clock w\<rparr>
           in (Inr (row_id result),
               w1\<lparr>sb := (sb w1)\<lparr>sb_rows := sb_rows (sb w1) @ [result]\<rparr>\<rparr>)))"

definition supabase_storeEncryptedData ::
  "'v env \<Rightarrow> string \<Rightarrow> 'v \<Rightarrow> string \<Rightarrow> string \<Rightarrow> world \<Rightarrow> (js_error + string) \<times> world" where
  "supabase_storeEncryptedData E userId data dataType encryptionKey w =
     (case sb_session (sb w) of
        None \<Rightarrow> (Inl (supabase_store_failed (Error ''User not authenticated'')), w)
      | Some user \<Rightarrow>
          (case encryptData E (rng w) data encryptionKey of
             Inl e \<Rightarrow> (Inl (supabase_store_failed e), w)
           | Inr encryptedContent \<Rightarrow>
               (let w1 = w\<lparr>rng := Suc (rng w)\<rparr>;
                    tablesError =
                      (case sb_outage (sb w1) of
                         Some e \<Rightarrow> Some e
                       | None \<Rightarrow> sb_schema_error (sb w1));
                    tables = (if sb_table (sb w1) then [''encrypted_data''] else [])
                in if tablesError \<noteq> None \<or> length tables = 0
                   then
                     (case (case sb_outage (sb w1) of
                              Some e \<Rightarrow> Some e
                            | None \<Rightarrow> sb_rpc_error (sb w1)) of
                        Some createError \<Rightarrow>
                          supabase_fallback E userId data dataType encryptedContent w1
                      | None \<Rightarrow>
                          supabase_insert E userId data dataType encryptedContent
                            (w1\<lparr>sb := (sb w1)\<lparr>sb_table := True\<rparr>\<rparr>))
                   else supabase_insert E userId data dataType encryptedContent w1)))"

definition supabase_retrieveEncryptedData ::
  "'v env \<Rightarrow> string \<Rightarrow> string \<Rightarrow> string \<Rightarrow> world \<Rightarrow> js_error + 'v list" where
  "supabase_retrieveEncryptedData E userId dataType encryptionKey w =
     (case sb_table_error (sb w) of
        Some e \<Rightarrow> Inl (Error (''Failed to retrieve data from Supabase: '' @ error_toString e))
      | None \<Rightarrow>
          (case traverse (\<lambda>item. decryptData E (row_encrypted_content item) encryptionKey)
                  (filter (\<lambda>item. row_user_id item = userId \<and> row_data_type item = dataType
                                    \<and> row_storage_location item = ''supabase'')
                     (sb_rows (sb w))) of
             Inl e \<Rightarrow>
               Inl (Error (''Failed to retrieve data from Supabase: '' @ error_toString e))
           | Inr decryptedData \<Rightarrow> Inr decryptedData))"

definition supabase_update_failed :: "js_error \<Rightarrow> js_error" where
  "supabase_update_failed e =
     Error (''Failed to update data in Supabase: '' @ error_toString e)"

definition supabase_updateEncryptedData ::
  "'v env \<Rightarrow> string \<Rightarrow> 'v \<Rightarrow> string \<Rightarrow> world \<Rightarrow> (js_error + unit) \<times> world" where
  "supabase_updateEncryptedData E ident data encryptionKey w =
     (case encryptData E (rng w) data encryptionKey of
        Inl e \<Rightarrow> (Inl (supabase_update_failed e), w)
      | Inr encryptedContent \<Rightarrow>
          (let w1 = w\<lparr>rng := Suc (rng w)\<rparr>
           in (case sb_table_error (sb w1) of
                 Some e \<Rightarrow> (Inl (supabase_update_failed e), w1)
               | None \<Rightarrow>
                   (Inr (),
                    w1\<lparr>sb := (sb w1)\<lparr>sb_rows :=
                           map (\<lambda>r. if row_id r = ident
                                     then r\<lparr>row_encrypted_content := encryptedContent,
                                            row_updated_at := clock w1\<rparr>
                                     else r)
                             (sb_rows (sb w1))\<rparr>\<rparr>))))"

definition supabase_deleteEncryptedData ::
  "string \<Rightarrow> world \<Rightarrow> (js_error + unit) \<times> world" where
  "supabase_deleteEncryptedData ident w =
     (case sb_table_error (sb w) of
        Some e \<Rightarrow> (Inl (Error (''Failed to delete data from Supabase: '' @ error_toString e)), w)
      | None \<Rightarrow>
          (Inr (),
           w\<lparr>sb := (sb w)\<lparr>sb_rows := filter (\<lambda>r. row_id r \<noteq> ident) (sb_rows (sb w))\<rparr>\<rparr>))"

section \<open>GoogleDriveStorage\<close>

text \<open>
  An instance caches the access token it read from \<open>localStorage\<close> when it was
  constructed; \<open>!this.accessToken\<close> holds for \<open>null\<close> and for the empty string.
\<close>

definition not_authenticated :: "string option \<Rightarrow> bool" where
  "not_authenticated accessToken = (case accessToken of None \<Rightarrow> True | Some t \<Rightarrow> t = [])"

definition fetch_failed :: js_error where
  "fetch_failed = NamedError ''TypeError'' ''Failed to fetch''"

text \<open>
  \<open>createEncryptedFolder\<close> returns \<open>folder.id\<close> of whatever the service answered, and
  \<open>getOrCreateFolder\<close> creates the folder whenever the answer to the search has no
  non-empty \<open>files\<close>, which is also the case of an error response.
\<close>

definition createEncryptedFolder ::
  "'v env \<Rightarrow> string option \<Rightarrow> world \<Rightarrow> (js_error + js_id) \<times> world" where
  "createEncryptedFolder E accessToken w =
     (if not_authenticated accessToken
      then (Inl (Error ''Not authenticated with Google Drive''), w)
      else if \<not> drive_online (drive w) then (Inl fetch_failed, w)
      else (case drive_error (drive w) of
              Some body \<Rightarrow> (Inr Undefined, w)
            | None \<Rightarrow>
                (let folderId = randomUUID E (rng w);
                     w1 = w\<lparr>rng := Suc (rng w)\<rparr>
                 in (Inr (Id folderId),
                     w1\<lparr>drive := (drive w1)\<lparr>drive_folders :=
                            drive_folders (drive w1) @ [folderId]\<rparr>\<rparr>))))"

definition getOrCreateFolder ::
  "'v env \<Rightarrow> string option \<Rightarrow> world \<Rightarrow> (js_error + js_id) \<times> world" where
  "getOrCreateFolder E accessToken w =
     (if \<not> drive_online (drive w) then (Inl fetch_failed, w)
      else (case drive_error (drive w) of
              Some body \<Rightarrow> createEncryptedFolder E accessToken w
            | None \<Rightarrow>
                (case drive_search_hit (drive w) of
                   Some folderId \<Rightarrow> (Inr (Id folderId), w)
                 | None \<Rightarrow> createEncryptedFolder E accessToken w)))"

text \<open>
  \<open>storeEncryptedData\<close> returns \<open>file.id\<close> of whatever the service answered to the
  upload: the identifier of the new file, or \<open>undefined\<close> after an error response, which
  the code does not tell from a success.
\<close>

definition drive_storeEncryptedData ::
  "'v env \<Rightarrow> string option \<Rightarrow> 'v \<Rightarrow> string \<Rightarrow> string \<Rightarrow> world
     \<Rightarrow> (js_error + js_id) \<times> world" where
  "drive_storeEncryptedData E accessToken data dataType encryptionKey w =
     (if not_authenticated accessToken
      then (Inl (Error ''Not authenticated with Google Drive''), w)
      else
        (case encryptData E (rng w) data encryptionKey of
           Inl e \<Rightarrow> (Inl e, w)
         | Inr encryptedData \<Rightarrow>
             (let w1 = w\<lparr>rng := Suc (rng w)\<rparr>;
                  fileName = dataType @ ''_'' @ show_nat (clock w1) @ ''.encrypted''
              in (case getOrCreateFolder E accessToken w1 of
                    (Inl e, w2) \<Rightarrow> (Inl e, w2)
                  | (Inr folderId, w2) \<Rightarrow>
                      if \<not> drive_online (drive w2) then (Inl fetch_failed, w2)
                      else (case drive_error (drive w2) of
                              Some body \<Rightarrow> (Inr Undefined, w2)
                            | None \<Rightarrow>
                                (let fileId = randomUUID E (rng w2);
                                     w3 = w2\<lparr>rng := Suc (rng w2)\<rparr>;
                                     file = \<lparr>file_id = fileId, file_name = fileName,
                                             file_parent = folderId,
                                             file_content = encryptedData\<rparr>
                                 in (Inr (Id fileId),
                                     w3\<lparr>drive := (drive w3)\<lparr>drive_files :=
                                            drive_files (drive w3) @ [file]\<rparr>\<rparr>)))))))"

text \<open>
  \<open>retrieveEncryptedData\<close> decrypts the body of the response, whatever it is: the body
  of an error response, or for an identifier the remote does not know the text of that
  error. \<open>listEncryptedFiles\<close> returns \<open>result.files || []\<close>.
\<close>

definition drive_retrieveEncryptedData ::
  "'v env \<Rightarrow> string option \<Rightarrow> string \<Rightarrow> string \<Rightarrow> world \<Rightarrow> js_error + 'v" where
  "drive_retrieveEncryptedData E accessToken fileId encryptionKey w =
     (if not_authenticated accessToken
      then Inl (Error ''Not authenticated with Google Drive'')
      else if \<not> drive_online (drive w) then Inl fetch_failed
      else (case drive_error (drive w) of
              Some body \<Rightarrow> decryptData E body encryptionKey
            | None \<Rightarrow>
                (case find (\<lambda>f. file_id f = fileId) (drive_files (drive w)) of
                   None \<Rightarrow> decryptData E ''Not Found'' encryptionKey
                 | Some f \<Rightarrow> decryptData E (file_content f) encryptionKey)))"

definition listEncryptedFiles ::
  "'v env \<Rightarrow> string option \<Rightarrow> world \<Rightarrow> (js_error + drive_file list) \<times> world" where
  "listEncryptedFiles E accessToken w =
     (if not_authenticated accessToken
      then (Inl (Error ''Not authenticated with Google Drive''), w)
      else (case getOrCreateFolder E accessToken w of
              (Inl e, w1) \<Rightarrow> (Inl e, w1)
            | (Inr folderId, w1) \<Rightarrow>
                if \<not> drive_online (drive w1) then (Inl fetch_failed, w1)
                else (case drive_error (drive w1) of
                        Some body \<Rightarrow> (Inr [], w1)
                      | None \<Rightarrow>
                          (Inr (filter (\<lambda>f. file_parent f = folderId)
                                  (drive_files (drive w1))), w1))))"

section \<open>StorageManager\<close>

datatype storage_option = GoogleDrive | Supabase | Local

fun storage_name :: "storage_option \<Rightarrow> string" where
  "storage_name GoogleDrive = ''google-drive''"
| "storage_name Supabase = ''supabase''"
| "storage_name Local = ''local''"

record storage_config =
  userId :: string
  encryptionKey :: string
  enabledStorages :: "storage_option list"

text \<open>
  A manager holds its configuration and a \<open>GoogleDriveStorage\<close> instance, whose only
  state is the access token read from \<open>localStorage\<close> by the constructor.
\<close>

record storage_manager =
  config :: storage_config
  accessToken :: "string option"

definition new_StorageManager :: "storage_config \<Rightarrow> world \<Rightarrow> storage_manager" where
  "new_StorageManager cfg w = \<lparr>config = cfg, accessToken = google_drive_token w\<rparr>"

text \<open>
  The \<open>switch\<close> of \<open>storeData\<close>; \<open>storeDataInSpecificStorage\<close> makes the same three
  calls for each item. What the hosted and the local store return is a string, the
  identifier they drew; what the Drive returns may be \<open>undefined\<close>.
\<close>

fun returned :: "(js_error + string) \<times> world \<Rightarrow> (js_error + js_id) \<times> world" where
  "returned (Inl e, w) = (Inl e, w)"
| "returned (Inr ident, w) = (Inr (Id ident), w)"

fun store_in ::
  "'v env \<Rightarrow> storage_manager \<Rightarrow> storage_option \<Rightarrow> 'v \<Rightarrow> string \<Rightarrow> world
     \<Rightarrow> (js_error + js_id) \<times> world" where
  "store_in E M GoogleDrive data dataType w =
     drive_storeEncryptedData E (accessToken M) data dataType (encryptionKey (config M)) w"
| "store_in E M Supabase data dataType w =
     returned (supabase_storeEncryptedData E (userId (config M)) data dataType
       (encryptionKey (config M)) w)"
| "store_in E M Local data dataType w =
     returned (local_storeEncryptedData E (userId (config M)) data dataType
       (encryptionKey (config M)) w)"

text \<open>\<open>`${storage}: ${error}`\<close>, the line pushed on \<open>errors\<close> for a backend that threw.\<close>

definition error_line :: "storage_option \<Rightarrow> js_error \<Rightarrow> string" where
  "error_line storage e = storage_name storage @ '': '' @ error_toString e"

definition all_failed :: "string list \<Rightarrow> js_error" where
  "all_failed errors = Error (''All storage options failed: '' @ join '', '' errors)"

text \<open>The loop of \<open>storeData\<close>, over the local variables \<open>results\<close> and \<open>errors\<close>.\<close>

fun storeData_loop ::
  "'v env \<Rightarrow> storage_manager \<Rightarrow> 'v \<Rightarrow> string \<Rightarrow> storage_option list
     \<Rightarrow> (storage_option \<rightharpoonup> js_id) \<Rightarrow> string list \<Rightarrow> world
     \<Rightarrow> (storage_option \<rightharpoonup> js_id) \<times> string list \<times> world" where
  "storeData_loop E M data dataType [] results errors w = (results, errors, w)"
| "storeData_loop E M data dataType (storage # rest) results errors w =
     (case store_in E M storage data dataType w of
        (Inr ident, w') \<Rightarrow>
          storeData_loop E M data dataType rest (results(storage \<mapsto> ident)) errors w'
      | (Inl e, w') \<Rightarrow>
          storeData_loop E M data dataType rest results
            (errors @ [error_line storage e]) w')"

definition storeData ::
  "'v env \<Rightarrow> storage_manager \<Rightarrow> 'v \<Rightarrow> string \<Rightarrow> world
     \<Rightarrow> (js_error + (storage_option \<rightharpoonup> js_id)) \<times> world" where
  "storeData E M data dataType w =
     (case storeData_loop E M data dataType (enabledStorages (config M)) Map.empty [] w of
        (results, errors, w') \<Rightarrow>
          if length errors = length (enabledStorages (config M))
          then (Inl (all_failed errors), w')
          else (Inr results, w'))"

text \<open>
  The \<open>switch\<close> of \<open>retrieveData\<close>. Reading the Drive lists the folder first, which may
  create it, so the world is returned as well.
\<close>

fun retrieve_from ::
  "'v env \<Rightarrow> storage_manager \<Rightarrow> storage_option \<Rightarrow> string \<Rightarrow> world
     \<Rightarrow> (js_error + 'v list) \<times> world" where
  "retrieve_from E M Supabase dataType w =
     (supabase_retrieveEncryptedData E (userId (config M)) dataType
        (encryptionKey (config M)) w, w)"
| "retrieve_from E M GoogleDrive dataType w =
     (case listEncryptedFiles E (accessToken M) w of
        (Inl e, w1) \<Rightarrow> (Inl e, w1)
      | (Inr files, w1) \<Rightarrow>
          (let dataFiles = filter (\<lambda>file. prefix dataType (file_name file)) files
           in if length dataFiles = 0 then (Inr [], w1)
              else (traverse (\<lambda>file. drive_retrieveEncryptedData E (accessToken M)
                                        (file_id file) (encryptionKey (config M)) w1)
                      dataFiles, w1)))"
| "retrieve_from E M Local dataType w =
     (local_retrieveEncryptedData E (userId (config M)) dataType
        (encryptionKey (config M)) w, w)"

text \<open>
  The loop of \<open>retrieveData\<close>, over the local variable \<open>errors\<close>. The list \<open>tried\<close> is not
  a variable of the source: it records the iterations the loop has entered, that is,
  the backends whose retrieve has been called.
\<close>

fun retrieveData_loop ::
  "'v env \<Rightarrow> storage_manager \<Rightarrow> string \<Rightarrow> storage_option list \<Rightarrow> string list
     \<Rightarrow> storage_option list \<Rightarrow> world
     \<Rightarrow> (js_error + 'v list) \<times> storage_option list \<times> world" where
  "retrieveData_loop E M dataType [] errors tried w = (Inl (all_failed errors), tried, w)"
| "retrieveData_loop E M dataType (storage # rest) errors tried w =
     (case retrieve_from E M storage dataType w of
        (Inr data, w') \<Rightarrow> (Inr data, tried @ [storage], w')
      | (Inl e, w') \<Rightarrow>
          retrieveData_loop E M dataType rest (errors @ [error_line storage e])
            (tried @ [storage]) w')"

definition retrieveData ::
  "'v env \<Rightarrow> storage_manager \<Rightarrow> string \<Rightarrow> world
     \<Rightarrow> (js_error + 'v list) \<times> storage_option list \<times> world" where
  "retrieveData E M dataType w =
     retrieveData_loop E M dataType (enabledStorages (config M)) [] [] w"

fun storeDataInSpecificStorage ::
  "'v env \<Rightarrow> storage_manager \<Rightarrow> 'v list \<Rightarrow> string \<Rightarrow> storage_option \<Rightarrow> world
     \<Rightarrow> (js_error + unit) \<times> world" where
  "storeDataInSpecificStorage E M [] dataType storage w = (Inr (), w)"
| "storeDataInSpecificStorage E M (item # items) dataType storage w =
     (case store_in E M storage item dataType w of
        (Inl e, w') \<Rightarrow> (Inl e, w')
      | (Inr ident, w') \<Rightarrow> storeDataInSpecificStorage E M items dataType storage w')"

fun syncData_loop ::
  "'v env \<Rightarrow> storage_manager \<Rightarrow> 'v list \<Rightarrow> string \<Rightarrow> storage_option list \<Rightarrow> world
     \<Rightarrow> (js_error + unit) \<times> world" where
  "syncData_loop E M primaryData dataType [] w = (Inr (), w)"
| "syncData_loop E M primaryData dataType (storage # rest) w =
     (case storeDataInSpecificStorage E M primaryData dataType storage w of
        (Inl e, w') \<Rightarrow> (Inl e, w')
      | (Inr u, w') \<Rightarrow> syncData_loop E M primaryData dataType rest w')"

text \<open>
  \<open>syncData\<close>: \<open>enabledStorages[0]\<close> is \<open>undefined\<close> for an empty array, and the \<open>switch\<close>
  on the primary storage has the two cases \<open>'supabase'\<close> and \<open>'local'\<close>; for any other
  value \<open>primaryData\<close> keeps its initial value \<open>[]\<close>.
\<close>

definition sync_failed :: "js_error \<Rightarrow> js_error" where
  "sync_failed e = Error (''Sync failed: '' @ error_toString e)"

definition syncData ::
  "'v env \<Rightarrow> storage_manager \<Rightarrow> string \<Rightarrow> world \<Rightarrow> (js_error + unit) \<times> world" where
  "syncData E M dataType w =
     (let primaryStorage =
            (case enabledStorages (config M) of [] \<Rightarrow> None | s # rest \<Rightarrow> Some s);
          primaryData =
            (case primaryStorage of
               Some Supabase \<Rightarrow>
                 supabase_retrieveEncryptedData E (userId (config M)) dataType
                   (encryptionKey (config M)) w
             | Some Local \<Rightarrow>
                 local_retrieveEncryptedData E (userId (config M)) dataType
                   (encryptionKey (config M)) w
             | _ \<Rightarrow> Inr [])
      in (case primaryData of
            Inl e \<Rightarrow> (Inl (sync_failed e), w)
          | Inr items \<Rightarrow>
              (case syncData_loop E M items dataType (drop 1 (enabledStorages (config M))) w of
                 (Inl e, w') \<Rightarrow> (Inl (sync_failed e), w')
               | (Inr u, w') \<Rightarrow> (Inr (), w'))))"

section \<open>A concrete environment\<close>

text \<open>
  The examples below run the code in a small environment: values are strings, the
  serialiser prefixes a letter, the cipher prepends the key to the reversed text (and
  rejects a text that does not start with the key), nothing is ever refused by the
  quota, both remotes are up and empty, and the Drive search finds a folder.
\<close>

definition demo_env :: "string env" where
  "demo_env =
     \<lparr>json_stringify = (\<lambda>v. Some (CHR ''j'' # v)),
      json_parse =
        (\<lambda>s. case s of [] \<Rightarrow> None | c # r \<Rightarrow> if c = CHR ''j'' then Some r else None),
      json_is_null = (\<lambda>v. False),
      aes_encrypt = (\<lambda>salt text key. key @ rev text),
      aes_decrypt_utf8 =
        (\<lambda>c key. if prefix key c then Some (rev (drop (length key) c)) else None),
      randomUUID = (\<lambda>n. ''id'' @ show_nat n),
      quota_ok = (\<lambda>s. True),
      storage_supported = True\<rparr>"

definition demo_sb :: supabase_remote where
  "demo_sb =
     \<lparr>sb_outage = None, sb_session = Some ''u1'', sb_table = True,
      sb_schema_error = None, sb_rpc_error = None, sb_rows = [], sb_profiles = []\<rparr>"

definition demo_drive :: drive_remote where
  "demo_drive =
     \<lparr>drive_online = True, drive_error = None, drive_search_hit = Some ''folder'',
      drive_folders = [], drive_files = []\<rparr>"

definition demo_world :: world where
  "demo_world =
     \<lparr>ls = [], google_drive_token = Some ''token'', clock = 1000, rng = 0,
      sb = demo_sb, drive = demo_drive\<rparr>"

definition demo_manager :: "storage_option list \<Rightarrow> storage_manager" where
  "demo_manager backends =
     new_StorageManager
       \<lparr>userId = ''u1'', encryptionKey = ''k'', enabledStorages = backends\<rparr> demo_world"

text \<open>
  The same world after a record was stored locally; and that world with the hosted store
  down.
\<close>

definition demo_local_world :: world where
  "demo_local_world =
     demo_world
       \<lparr>ls := [(''pharmacare_encrypted_u1_medicines_id1'',
                 LItem \<lparr>item_id = ''id1'', item_userId = ''u1'', item_dataType = ''medicines'',
                        item_encryptedContent = ''klomatecaraPj'',
                        item_storageLocation = ''local'',
                        item_createdAt = 1000, item_updatedAt = 1000\<rparr>),
                (''pharmacare_encrypted_index_u1'',
                 LIndex [\<lparr>entry_id = ''id1'', entry_dataType = ''medicines'',
                          entry_createdAt = 1000\<rparr>])]\<rparr>"

definition demo_stored_world :: world where
  "demo_stored_world =
     demo_local_world
       \<lparr>sb := demo_sb\<lparr>sb_outage := Some (PostgrestError ''503'' ''[object Object]'')\<rparr>\<rparr>"

text \<open>
  Two worlds in which the hosted store refuses a store, for different reasons: nobody is
  signed in, or the service is down. And an environment whose quota refuses every write.
\<close>

definition demo_signed_out :: world where
  "demo_signed_out = demo_world\<lparr>sb := demo_sb\<lparr>sb_session := None\<rparr>\<rparr>"

definition demo_outage :: world where
  "demo_outage =
     demo_world\<lparr>sb := demo_sb\<lparr>sb_outage := Some (PostgrestError ''503'' ''[object Object]'')\<rparr>\<rparr>"

definition demo_full_env :: "string env" where
  "demo_full_env = demo_env\<lparr>quota_ok := (\<lambda>s. False)\<rparr>"

text \<open>The world with one record of type \<open>medicines\<close> in the Drive folder.\<close>

definition demo_drive_world :: world where
  "demo_drive_world =
     demo_world
       \<lparr>drive := demo_drive
          \<lparr>drive_files :=
             [\<lparr>file_id = ''file1'', file_name = ''medicines_1000.encrypted'',
               file_parent = Id ''folder'', file_content = ''klomatecaraPj''\<rparr>]\<rparr>\<rparr>"

text \<open>An environment whose serialiser forgets the value.\<close>

definition demo_lossy_env :: "string env" where
  "demo_lossy_env = demo_env\<lparr>json_stringify := (\<lambda>v. Some ''j'')\<rparr>"

text \<open>
  The world with the local record a second later, the world with one row in the hosted
  store, and an environment whose \<open>localStorage\<close> has room for a single entry.
\<close>

definition demo_later_world :: world where
  "demo_later_world = demo_stored_world\<lparr>clock := 2000\<rparr>"

definition demo_hosted_world :: world where
  "demo_hosted_world =
     demo_world
       \<lparr>clock := 2000,
        sb := demo_sb
          \<lparr>sb_rows :=
             [\<lparr>row_id = ''id3'', row_user_id = ''u1'', row_data_type = ''medicines'',
               row_encrypted_content = ''klomatecaraPj'',
               row_storage_location = ''supabase'',
               row_created_at = 1000, row_updated_at = 1000\<rparr>]\<rparr>\<rparr>"

definition demo_tight_env :: "string env" where
  "demo_tight_env = demo_env\<lparr>quota_ok := (\<lambda>s. length s \<le> 1)\<rparr>"

text \<open>
  The world with two rows in the hosted store and an empty local store, an environment
  whose \<open>localStorage\<close> has room for three entries, and the world reached from there by
  two calls of \<open>syncData\<close>.
\<close>

definition demo_two_rows_world :: world where
  "demo_two_rows_world =
     demo_world
       \<lparr>sb := demo_sb
          \<lparr>sb_rows :=
             [\<lparr>row_id = ''row1'', row_user_id = ''u1'', row_data_type = ''medicines'',
               row_encrypted_content = ''klomatecaraPj'',
               row_storage_location = ''supabase'',
               row_created_at = 1000, row_updated_at = 1000\<rparr>,
              \<lparr>row_id = ''row2'', row_user_id = ''u1'', row_data_type = ''medicines'',
               row_encrypted_content = ''kneforpubIj'',
               row_storage_location = ''supabase'',
               row_created_at = 1000, row_updated_at = 1000\<rparr>]\<rparr>\<rparr>"

definition demo_three_env :: "string env" where
  "demo_three_env = demo_env\<lparr>quota_ok := (\<lambda>s. length s \<le> 3)\<rparr>"

definition demo_evicted_world :: world where
  "demo_evicted_world =
     demo_two_rows_world
       \<lparr>rng := 8,
        ls := [(''pharmacare_encrypted_index_u1'',
                 LIndex [\<lparr>entry_id = ''id5'', entry_dataType = ''medicines'',
                          entry_createdAt = 1000\<rparr>,
                         \<lparr>entry_id = ''id7'', entry_dataType = ''medicines'',
                          entry_createdAt = 1000\<rparr>]),
                (''pharmacare_encrypted_u1_medicines_id5'',
                 LItem \<lparr>item_id = ''id5'', item_userId = ''u1'', item_dataType = ''medicines'',
                        item_encryptedContent = ''klomatecaraPj'',
                        item_storageLocation = ''local'',
                        item_createdAt = 1000, item_updatedAt = 1000\<rparr>),
                (''pharmacare_encrypted_u1_medicines_id7'',
                 LItem \<lparr>item_id = ''id7'', item_userId = ''u1'', item_dataType = ''medicines'',
                        item_encryptedContent = ''kneforpubIj'',
                        item_storageLocation = ''local'',
                        item_createdAt = 1000, item_updatedAt = 1000\<rparr>)]\<rparr>"

text \<open>
  The world whose hosted store has neither its table nor the remote procedure nor a
  profile row of the user, the world whose Drive answers every request with an error,
  and an environment whose \<open>localStorage\<close> has room for a hundred entries.
\<close>

definition demo_fallback_world :: world where
  "demo_fallback_world =
     demo_world
       \<lparr>sb := demo_sb\<lparr>sb_table := False,
                       sb_rpc_error := Some (PostgrestError ''PGRST202'' ''[object Object]'')\<rparr>\<rparr>"

definition demo_refusing_world :: world where
  "demo_refusing_world = demo_world\<lparr>drive := demo_drive\<lparr>drive_error := Some ''401''\<rparr>\<rparr>"

definition demo_roomy_env :: "string env" where
  "demo_roomy_env = demo_env\<lparr>quota_ok := (\<lambda>s. length s \<le> 100)\<rparr>"

section \<open>Notions used in the statements\<close>

text \<open>
  \<open>all_raise E M dataType backends w\<close>: every backend of the list, tried in order from the
  world \<open>w\<close>, raises on retrieve; the result is the error lines and the world reached.
\<close>

fun all_raise ::
  "'v env \<Rightarrow> storage_manager \<Rightarrow> string \<Rightarrow> storage_option list \<Rightarrow> world
     \<Rightarrow> (string list \<times> world) option" where
  "all_raise E M dataType [] w = Some ([], w)"
| "all_raise E M dataType (storage # rest) w =
     (case retrieve_from E M storage dataType w of
        (Inr data, w') \<Rightarrow> None
      | (Inl e, w') \<Rightarrow>
          (case all_raise E M dataType rest w' of
             None \<Rightarrow> None
           | Some (lines, w'') \<Rightarrow> Some (error_line storage e # lines, w'')))"

text \<open>
  \<open>store_attempts\<close>: a store is attempted on every backend of the list, in order, each
  whatever became of the others; the result pairs every backend with the outcome of its
  attempt. \<open>failure_lines\<close> are the error lines of the failed attempts, \<open>stored_ids\<close> the
  identifiers of the successful ones (a later attempt on the same backend replaces an
  earlier one).
\<close>

fun store_attempts ::
  "'v env \<Rightarrow> storage_manager \<Rightarrow> 'v \<Rightarrow> string \<Rightarrow> storage_option list \<Rightarrow> world
     \<Rightarrow> (storage_option \<times> (js_error + js_id)) list \<times> world" where
  "store_attempts E M data dataType [] w = ([], w)"
| "store_attempts E M data dataType (storage # rest) w =
     (case store_in E M storage data dataType w of
        (r, w') \<Rightarrow>
          (case store_attempts E M data dataType rest w' of
             (attempts, w'') \<Rightarrow> ((storage, r) # attempts, w'')))"

fun failure_lines :: "(storage_option \<times> (js_error + js_id)) list \<Rightarrow> string list" where
  "failure_lines [] = []"
| "failure_lines ((storage, Inl e) # attempts) = error_line storage e # failure_lines attempts"
| "failure_lines ((storage, Inr ident) # attempts) = failure_lines attempts"

fun stored_ids ::
  "(storage_option \<rightharpoonup> js_id) \<Rightarrow> (storage_option \<times> (js_error + js_id)) list
     \<Rightarrow> (storage_option \<rightharpoonup> js_id)" where
  "stored_ids results [] = results"
| "stored_ids results ((storage, Inl e) # attempts) = stored_ids results attempts"
| "stored_ids results ((storage, Inr ident) # attempts) =
     stored_ids (results(storage \<mapsto> ident)) attempts"

definition every_attempt_failed :: "(storage_option \<times> (js_error + js_id)) list \<Rightarrow> bool" where
  "every_attempt_failed attempts = list_all (\<lambda>a. isl (snd a)) attempts"

text \<open>
  What a caller can read from the value \<open>storeData\<close> returns: the entry of each of the
  three backends.
\<close>

definition result_entries ::
  "js_error + (storage_option \<rightharpoonup> js_id) \<Rightarrow> js_error + js_id option list" where
  "result_entries r =
     (case r of Inl e \<Rightarrow> Inl e | Inr results \<Rightarrow> Inr (map results [GoogleDrive, Supabase, Local]))"

text \<open>
  The payloads a world holds: the \<open>encryptedContent\<close> of every item in \<open>localStorage\<close>,
  the \<open>encrypted_content\<close> of every row and of every entry of a profile document in the
  hosted store, and the content of every file in the Drive. \<open>ciphertext_of\<close> is the
  output of \<open>encryptData\<close>, if it has one.
\<close>

fun ls_payload :: "ls_value \<Rightarrow> string list" where
  "ls_payload (LItem x) = [item_encryptedContent x]"
| "ls_payload (LIndex index) = []"

definition store_payloads :: "local_store \<Rightarrow> string list" where
  "store_payloads s = concat (map (\<lambda>(k, v). ls_payload v) s)"

definition local_payloads :: "world \<Rightarrow> string list" where
  "local_payloads w = store_payloads (ls w)"

fun doc_payloads :: "(string \<times> profile_entry) list option \<Rightarrow> string list" where
  "doc_payloads None = []"
| "doc_payloads (Some d) = map (\<lambda>(k, entry). pe_encrypted_content entry) d"

definition profiles_payloads ::
  "(string \<times> (string \<times> profile_entry) list option) list \<Rightarrow> string list" where
  "profiles_payloads ps = concat (map (\<lambda>(i, doc). doc_payloads doc) ps)"

definition supabase_payloads :: "world \<Rightarrow> string list" where
  "supabase_payloads w =
     map row_encrypted_content (sb_rows (sb w)) @ profiles_payloads (sb_profiles (sb w))"

definition drive_payloads :: "world \<Rightarrow> string list" where
  "drive_payloads w = map file_content (drive_files (drive w))"

definition payloads :: "world \<Rightarrow> string list" where
  "payloads w = local_payloads w @ supabase_payloads w @ drive_payloads w"

definition ciphertext_of :: "'v env \<Rightarrow> nat \<Rightarrow> 'v \<Rightarrow> string \<Rightarrow> string list" where
  "ciphertext_of E salt data key =
     (case encryptData E salt data key of Inl e \<Rightarrow> [] | Inr c \<Rightarrow> [c])"

text \<open>
  The two sides of the consistency of the local index: the number of entries of the user's
  index, and the number of records of the user that \<open>localStorage\<close> holds.
\<close>

definition index_entries :: "string \<Rightarrow> world \<Rightarrow> nat" where
  "index_entries user w =
     (case getIndex (ls w) user of Inl e \<Rightarrow> 0 | Inr index \<Rightarrow> length index)"

definition stored_records :: "string \<Rightarrow> world \<Rightarrow> nat" where
  "stored_records user w =
     length (filter (\<lambda>(k, v). case v of
                                 LItem x \<Rightarrow> item_userId x = user
                               | LIndex index \<Rightarrow> False) (ls w))"

text \<open>
  \<open>state_of\<close> is the part of the world that belongs to a backend, \<open>payloads_of\<close> the
  payloads it holds.
\<close>

datatype backend_state =
  LocalState local_store | HostedState supabase_remote | DriveState drive_remote

fun state_of :: "storage_option \<Rightarrow> world \<Rightarrow> backend_state" where
  "state_of Local w = LocalState (ls w)"
| "state_of Supabase w = HostedState (sb w)"
| "state_of GoogleDrive w = DriveState (drive w)"

fun payloads_of :: "storage_option \<Rightarrow> world \<Rightarrow> string list" where
  "payloads_of Local w = local_payloads w"
| "payloads_of Supabase w = supabase_payloads w"
| "payloads_of GoogleDrive w = drive_payloads w"

text \<open>
  The number of records of a data type a backend holds for the user: the entries of that
  type in the local index, the rows of that type in the table of the hosted store, the
  files of the Drive named after the type.
\<close>

fun held :: "storage_manager \<Rightarrow> storage_option \<Rightarrow> string \<Rightarrow> world \<Rightarrow> nat" where
  "held M Local dataType w =
     (case getIndex (ls w) (userId (config M)) of
        Inl e \<Rightarrow> 0
      | Inr index \<Rightarrow> length (filter (\<lambda>item. entry_dataType item = dataType) index))"
| "held M Supabase dataType w =
     length (filter (\<lambda>r. row_user_id r = userId (config M) \<and> row_data_type r = dataType
                          \<and> row_storage_location r = ''supabase'') (sb_rows (sb w)))"
| "held M GoogleDrive dataType w =
     length (filter (\<lambda>f. prefix dataType (file_name f)) (drive_files (drive w)))"

text \<open>
  \<open>service_takes b w\<close>: the service behind the backend takes what a store sends it. The
  hosted store inserts the row in its table: it is up, and the table is found by the
  query of the schema or created by the remote procedure (otherwise the store falls back
  to the profile document). The Drive answers the upload without an error. The local
  store has no service behind it.
\<close>

definition inserts_row :: "supabase_remote \<Rightarrow> bool" where
  "inserts_row r =
     (sb_outage r = None
      \<and> (sb_schema_error r = None \<and> sb_table r \<or> sb_rpc_error r = None))"

fun service_takes :: "storage_option \<Rightarrow> world \<Rightarrow> bool" where
  "service_takes Local w = True"
| "service_takes Supabase w = inserts_row (sb w)"
| "service_takes GoogleDrive w = (drive_error (drive w) = None)"

text \<open>
  \<open>store_lands M b w\<close>: a store on the backend that returns has written the payload. The
  fallback of the hosted store writes into the profile row of the user, if there is one.
\<close>

definition store_lands :: "storage_manager \<Rightarrow> storage_option \<Rightarrow> world \<Rightarrow> bool" where
  "store_lands M b w =
     (service_takes b w
      \<or> b = Supabase \<and> map_of (sb_profiles (sb w)) (userId (config M)) \<noteq> None)"

text \<open>
  \<open>unlimited E\<close> is the environment \<open>E\<close> with the quota of \<open>localStorage\<close> lifted.
  \<open>quota_spared E M dataType w\<close>: no write of the call \<open>syncData(dataType)\<close> from the
  world \<open>w\<close> is refused by the quota, so the call runs as it does with no quota.
\<close>

definition unlimited :: "'v env \<Rightarrow> 'v env" where
  "unlimited E = E\<lparr>quota_ok := (\<lambda>s. True)\<rparr>"

definition quota_spared :: "'v env \<Rightarrow> storage_manager \<Rightarrow> string \<Rightarrow> world \<Rightarrow> bool" where
  "quota_spared E M dataType w = (syncData E M dataType w = syncData (unlimited E) M dataType w)"

text \<open>
  The number of entries of a content of \<open>localStorage\<close>, the index of the user counted
  whether it exists yet or not.
\<close>

definition entries_with_index :: "string \<Rightarrow> local_store \<Rightarrow> nat" where
  "entries_with_index user s =
     length s + (if getItem s (indexKey user) = None then 1 else 0)"

section \<open>storeData without backends\<close>

text \<open>
  Claim C10. When the list of enabled backends is empty, \<open>storeData\<close> throws the
  aggregated error \<open>All storage options failed\<close> with no sub-error in it, although no
  backend was attempted: the loop does not run, \<open>errors\<close> stays empty, and its length
  equals the length of the empty list. The world is left as it was.
\<close>

theorem storeData_no_backends:
  "enabledStorages (config M) = [] \<Longrightarrow>
     storeData E M data dataType w = (Inl (all_failed []), w)
     \<and> all_failed [] = Error ''All storage options failed: ''"
  by (simp add: storeData_def all_failed_def)

theorem storeData_no_backends_witness:
  "storeData demo_env (demo_manager []) ''Paracetamol'' ''medicines'' demo_world
     = (Inl (Error ''All storage options failed: ''), demo_world)"
  using storeData_no_backends
    [of "demo_manager []" demo_env "''Paracetamol''" "''medicines''" demo_world]
  by (simp add: demo_manager_def new_StorageManager_def)

section \<open>retrieveData: failover in priority order\<close>

lemma retrieveData_loop_char:
  "case retrieveData_loop E M dataType ss errors tried w of
     (Inr data, tried', w') \<Rightarrow>
       (\<exists>pre b post lines w1. ss = pre @ b # post \<and> tried' = tried @ pre @ [b]
          \<and> all_raise E M dataType pre w = Some (lines, w1)
          \<and> retrieve_from E M b dataType w1 = (Inr data, w'))
   | (Inl e, tried', w') \<Rightarrow>
       (\<exists>lines. tried' = tried @ ss
          \<and> all_raise E M dataType ss w = Some (lines, w')
          \<and> length lines = length ss \<and> e = all_failed (errors @ lines))"
proof (induction ss arbitrary: errors tried w)
  case Nil
  then show ?case by simp
next
  case (Cons s ss)
  obtain r w1 where r: "retrieve_from E M s dataType w = (r, w1)"
    by (cases "retrieve_from E M s dataType w")
  show ?case
  proof (cases r)
    case (Inr data)
    have "s # ss = [] @ s # ss \<and> tried @ [s] = tried @ [] @ [s]
        \<and> all_raise E M dataType [] w = Some ([], w)
        \<and> retrieve_from E M s dataType w = (Inr data, w1)"
      using r Inr by simp
    then show ?thesis using r Inr by (simp del: append_Nil) blast
  next
    case (Inl e)
    let ?res = "retrieveData_loop E M dataType ss (errors @ [error_line s e]) (tried @ [s]) w1"
    have step: "retrieveData_loop E M dataType (s # ss) errors tried w = ?res"
      using r Inl by simp
    have IH: "case ?res of
       (Inr data, tried', w') \<Rightarrow>
         (\<exists>pre b post lines w2. ss = pre @ b # post \<and> tried' = (tried @ [s]) @ pre @ [b]
            \<and> all_raise E M dataType pre w1 = Some (lines, w2)
            \<and> retrieve_from E M b dataType w2 = (Inr data, w'))
     | (Inl e', tried', w') \<Rightarrow>
         (\<exists>lines. tried' = (tried @ [s]) @ ss
            \<and> all_raise E M dataType ss w1 = Some (lines, w')
            \<and> length lines = length ss
            \<and> e' = all_failed ((errors @ [error_line s e]) @ lines))"
      by (rule Cons.IH)
    obtain out tr w' where res: "?res = (out, tr, w')" by (cases ?res)
    show ?thesis
    proof (cases out)
      case (Inr data)
      from IH res Inr obtain pre b post lines w2 where
        h: "ss = pre @ b # post" "tr = (tried @ [s]) @ pre @ [b]"
           "all_raise E M dataType pre w1 = Some (lines, w2)"
           "retrieve_from E M b dataType w2 = (Inr data, w')"
        by auto
      have "s # ss = (s # pre) @ b # post \<and> tr = tried @ (s # pre) @ [b]
          \<and> all_raise E M dataType (s # pre) w = Some (error_line s e # lines, w2)
          \<and> retrieve_from E M b dataType w2 = (Inr data, w')"
        using h r Inl by simp
      then show ?thesis unfolding step res Inr by (simp only: prod.case sum.case) blast
    next
      case (Inl e')
      from IH res Inl obtain lines where
        h: "tr = (tried @ [s]) @ ss" "all_raise E M dataType ss w1 = Some (lines, w')"
           "length lines = length ss" "e' = all_failed ((errors @ [error_line s e]) @ lines)"
        by auto
      have "tr = tried @ s # ss
          \<and> all_raise E M dataType (s # ss) w = Some (error_line s e # lines, w')
          \<and> length (error_line s e # lines) = length (s # ss)
          \<and> e' = all_failed (errors @ error_line s e # lines)"
        using h r \<open>r = Inl e\<close> by simp
      then show ?thesis unfolding step res Inl by (simp only: prod.case sum.case) blast
    qed
  qed
qed

text \<open>
  Claim C1. \<open>retrieveData\<close> tries the enabled backends in the configured order. When it
  returns data, the list splits as \<open>pre @ b # post\<close>: every backend of \<open>pre\<close> raised in its
  turn, the data and the final world are those of the retrieve of \<open>b\<close>, and the
  backends tried are exactly \<open>pre @ [b]\<close>, so none of \<open>post\<close> is attempted. An empty
  result of \<open>b\<close> is a result like any other. When it throws, every enabled backend was
  tried and raised, and the error aggregates one line per backend.
\<close>

theorem retrieveData_failover:
  "case retrieveData E M dataType w of
     (Inr data, tried, w') \<Rightarrow>
       (\<exists>pre b post lines w1.
          enabledStorages (config M) = pre @ b # post \<and> tried = pre @ [b]
          \<and> all_raise E M dataType pre w = Some (lines, w1)
          \<and> retrieve_from E M b dataType w1 = (Inr data, w'))
   | (Inl e, tried, w') \<Rightarrow>
       (\<exists>lines. tried = enabledStorages (config M)
          \<and> all_raise E M dataType (enabledStorages (config M)) w = Some (lines, w')
          \<and> length lines = length (enabledStorages (config M))
          \<and> e = all_failed lines)"
  using retrieveData_loop_char
    [where E = E and M = M and dataType = dataType and ss = "enabledStorages (config M)"
       and errors = "[]" and tried = "[]" and w = w]
  unfolding retrieveData_def by (auto split: prod.splits sum.splits)

text \<open>
  With the backends ordered hosted store, local store, Drive, the hosted store down and a
  record in the local store: the local data is returned and the Drive is never tried.
\<close>

theorem retrieveData_failover_witness:
  "retrieveData demo_env (demo_manager [Supabase, Local, GoogleDrive]) ''medicines''
     demo_stored_world
   = (Inr [''Paracetamol''], [Supabase, Local], demo_stored_world)
   \<and> (\<exists>lines w1.
         all_raise demo_env (demo_manager [Supabase, Local, GoogleDrive]) ''medicines''
           [Supabase] demo_stored_world = Some (lines, w1)
         \<and> retrieve_from demo_env (demo_manager [Supabase, Local, GoogleDrive]) Local
             ''medicines'' w1 = (Inr [''Paracetamol''], demo_stored_world))"
proof -
  let ?M = "demo_manager [Supabase, Local, GoogleDrive]"
  have run: "retrieveData demo_env ?M ''medicines'' demo_stored_world
      = (Inr [''Paracetamol''], [Supabase, Local], demo_stored_world)"
    by (simp add: retrieveData_def demo_manager_def new_StorageManager_def
          demo_stored_world_def demo_local_world_def demo_world_def demo_sb_def
          supabase_retrieveEncryptedData_def sb_table_error_def
          local_retrieveEncryptedData_def getIndex_def getItem_def indexKey_def PREFIX_def
          local_retrieve_item_def storageKey_def decryptData_def demo_env_def)
  have en: "enabledStorages (config ?M) = [Supabase, Local, GoogleDrive]"
    by (simp add: demo_manager_def new_StorageManager_def)
  have "\<exists>pre b post lines w1.
          enabledStorages (config ?M) = pre @ b # post \<and> [Supabase, Local] = pre @ [b]
          \<and> all_raise demo_env ?M ''medicines'' pre demo_stored_world = Some (lines, w1)
          \<and> retrieve_from demo_env ?M b ''medicines'' w1
               = (Inr [''Paracetamol''], demo_stored_world)"
    using retrieveData_failover
      [where E = demo_env and M = ?M and dataType = "''medicines''" and w = demo_stored_world]
    by (simp only: run prod.case sum.case)
  then obtain pre b post lines w1 where
    h: "enabledStorages (config ?M) = pre @ b # post" "[Supabase, Local] = pre @ [b]"
       "all_raise demo_env ?M ''medicines'' pre demo_stored_world = Some (lines, w1)"
       "retrieve_from demo_env ?M b ''medicines'' w1
          = (Inr [''Paracetamol''], demo_stored_world)"
    by blast
  from h(2) have "pre = [Supabase]" "b = Local"
    by (metis butlast_snoc butlast.simps(2) list.distinct(1), metis last_snoc last.simps list.distinct(1))
  with h(3,4) run show ?thesis by blast
qed

section \<open>retrieveData and syncData without backends\<close>

text \<open>
  Claim C8, as the code has it. When the list of enabled backends is empty,
  \<open>retrieveData\<close> throws the aggregated error of a backend failure, with no sub-error in
  it, and \<open>syncData\<close> returns normally: \<open>enabledStorages[0]\<close> is \<open>undefined\<close>, the \<open>switch\<close>
  matches nothing and the loop over the other backends does not run. Neither touches
  the world.
\<close>

theorem no_backends_retrieve_sync:
  "enabledStorages (config M) = [] \<Longrightarrow>
     retrieveData E M dataType w = (Inl (all_failed []), [], w)
     \<and> syncData E M dataType w = (Inr (), w)"
  by (simp add: retrieveData_def syncData_def)

theorem no_backends_retrieve_sync_witness:
  "retrieveData demo_env (demo_manager []) ''medicines'' demo_world
     = (Inl (Error ''All storage options failed: ''), [], demo_world)
   \<and> syncData demo_env (demo_manager []) ''medicines'' demo_world = (Inr (), demo_world)"
  using no_backends_retrieve_sync [of "demo_manager []" demo_env "''medicines''" demo_world]
  by (simp add: demo_manager_def new_StorageManager_def all_failed_def)

text \<open>
  The claim as stated fails: with no backend enabled, \<open>syncData\<close> does not fail at all.
\<close>

theorem syncData_no_backends_counterexample:
  "\<not> (\<exists>e. fst (syncData demo_env (demo_manager []) ''medicines'' demo_world) = Inl e)"
  by (simp add: syncData_def demo_manager_def new_StorageManager_def)

section \<open>syncData with the Drive as primary storage\<close>

lemma syncData_loop_nothing:
  "syncData_loop E M [] dataType backends w = (Inr (), w)"
  by (induction backends) simp_all

text \<open>
  Claim C3 fails on the code when the first backend is the Drive. The \<open>switch\<close> of
  \<open>syncData\<close> has no case for \<open>'google-drive'\<close>, so nothing is read, nothing is written
  and the call returns normally, whatever the Drive holds.
\<close>

theorem syncData_drive_primary:
  "enabledStorages (config M) = GoogleDrive # rest \<Longrightarrow>
     syncData E M dataType w = (Inr (), w)"
  by (simp add: syncData_def syncData_loop_nothing)

text \<open>
  Drive then local store enabled, one record in the Drive: \<open>retrieveData\<close> reads it, and
  \<open>syncData\<close> leaves the local store empty.
\<close>

theorem syncData_drive_primary_witness:
  "fst (retrieveData demo_env (demo_manager [GoogleDrive, Local]) ''medicines''
          demo_drive_world) = Inr [''Paracetamol'']
   \<and> syncData demo_env (demo_manager [GoogleDrive, Local]) ''medicines'' demo_drive_world
       = (Inr (), demo_drive_world)
   \<and> ls demo_drive_world = []"
proof -
  have r: "fst (retrieveData demo_env (demo_manager [GoogleDrive, Local]) ''medicines''
          demo_drive_world) = Inr [''Paracetamol'']"
    by code_simp
  have e: "enabledStorages (config (demo_manager [GoogleDrive, Local])) = GoogleDrive # [Local]"
    by (simp add: demo_manager_def new_StorageManager_def)
  have l: "ls demo_drive_world = []"
    by (simp add: demo_drive_world_def demo_world_def)
  show ?thesis using syncData_drive_primary [OF e] r l by simp
qed

section \<open>EncryptionService: round trip\<close>

text \<open>
  Claim C5. Decrypting the encryption of a value with the same key yields the value.
  The value is serialisable: \<open>JSON.stringify\<close> yields a text, which is not empty and
  which \<open>JSON.parse\<close> reads back as the value. The key is valid: the cipher of the
  library decrypts, with this key, what it encrypted with it. Under these assumptions on
  the two libraries the wrapper neither throws nor alters the value, for every salt the
  cipher may draw.
\<close>

theorem encrypt_decrypt_roundtrip:
  assumes stringify: "json_stringify E v = Some jsonString"
    and nonempty: "jsonString \<noteq> []"
    and parse: "json_parse E jsonString = Some v"
    and aes: "aes_decrypt_utf8 E (aes_encrypt E salt jsonString key) key = Some jsonString"
  shows "\<exists>encrypted. encryptData E salt v key = Inr encrypted
           \<and> decryptData E encrypted key = Inr v"
proof -
  have enc: "encryptData E salt v key = Inr (aes_encrypt E salt jsonString key)"
    using stringify by (simp add: encryptData_def)
  have dec: "decryptData E (aes_encrypt E salt jsonString key) key = Inr v"
    using aes nonempty parse by (simp add: decryptData_def)
  from enc dec show ?thesis by blast
qed

theorem encrypt_decrypt_roundtrip_witness:
  "json_stringify demo_env ''Paracetamol'' = Some ''jParacetamol''
   \<and> json_parse demo_env ''jParacetamol'' = Some ''Paracetamol''
   \<and> aes_decrypt_utf8 demo_env (aes_encrypt demo_env 7 ''jParacetamol'' ''k'') ''k''
       = Some ''jParacetamol''
   \<and> encryptData demo_env 7 ''Paracetamol'' ''k'' = Inr ''klomatecaraPj''
   \<and> decryptData demo_env ''klomatecaraPj'' ''k'' = Inr ''Paracetamol''"
proof -
  have s: "json_stringify demo_env ''Paracetamol'' = Some ''jParacetamol''"
    by (simp add: demo_env_def)
  have n: "''jParacetamol'' \<noteq> []" by simp
  have p: "json_parse demo_env ''jParacetamol'' = Some ''Paracetamol''"
    by (simp add: demo_env_def)
  have a: "aes_decrypt_utf8 demo_env (aes_encrypt demo_env 7 ''jParacetamol'' ''k'') ''k''
       = Some ''jParacetamol''"
    by (simp add: demo_env_def)
  have e: "encryptData demo_env 7 ''Paracetamol'' ''k'' = Inr ''klomatecaraPj''"
    by (simp add: encryptData_def demo_env_def)
  from encrypt_decrypt_roundtrip [OF s n p a] e
  have "decryptData demo_env ''klomatecaraPj'' ''k'' = Inr ''Paracetamol''" by auto
  with s p a e show ?thesis by simp
qed

section \<open>Ciphertext opacity\<close>

lemma in_store_payloads:
  "c \<in> set (store_payloads s) \<longleftrightarrow> (\<exists>k v. (k, v) \<in> set s \<and> c \<in> set (ls_payload v))"
  by (induction s) (auto simp: store_payloads_def)

lemma in_update:
  "(k', v') \<in> set (AList.update k v s) \<Longrightarrow> (k', v') = (k, v) \<or> (k', v') \<in> set s"
  by (induction s) (auto split: if_splits)

lemma in_delete: "(k', v') \<in> set (AList.delete k s) \<Longrightarrow> (k', v') \<in> set s"
  by (induction s) (auto split: if_splits)

lemma store_payloads_update:
  "set (store_payloads (AList.update k v s)) \<subseteq> set (store_payloads s) \<union> set (ls_payload v)"
proof
  fix c
  assume "c \<in> set (store_payloads (AList.update k v s))"
  then obtain k' v' where h: "(k', v') \<in> set (AList.update k v s)" "c \<in> set (ls_payload v')"
    by (auto simp: in_store_payloads)
  from in_update [OF h(1)] h(2) show "c \<in> set (store_payloads s) \<union> set (ls_payload v)"
    by (auto simp: in_store_payloads)
qed

lemma store_payloads_delete:
  "set (store_payloads (AList.delete k s)) \<subseteq> set (store_payloads s)"
proof
  fix c
  assume "c \<in> set (store_payloads (AList.delete k s))"
  then obtain k' v' where h: "(k', v') \<in> set (AList.delete k s)" "c \<in> set (ls_payload v')"
    by (auto simp: in_store_payloads)
  from in_delete [OF h(1)] h(2) show "c \<in> set (store_payloads s)"
    by (auto simp: in_store_payloads)
qed

lemma setItem_payloads:
  "setItem E s k v = Inr s' \<Longrightarrow> set (store_payloads s) \<subseteq> S \<Longrightarrow> set (ls_payload v) \<subseteq> S
     \<Longrightarrow> set (store_payloads s') \<subseteq> S"
  using store_payloads_update [of k v s]
  by (auto simp: setItem_def Let_def split: if_splits)

lemma fold_removeItem_payloads:
  "set (store_payloads s) \<subseteq> S \<Longrightarrow>
   set (store_payloads (fold (\<lambda>item s. removeItem s (f item)) items s)) \<subseteq> S"
proof (induction items arbitrary: s)
  case Nil
  then show ?case by simp
next
  case (Cons a items)
  have "set (store_payloads (removeItem s (f a))) \<subseteq> S"
    using Cons.prems store_payloads_delete [of "f a" s] by (auto simp: removeItem_def)
  then show ?case using Cons.IH by simp
qed

lemma clearOldData_frame:
  "sb (clearOldData E u w) = sb w \<and> drive (clearOldData E u w) = drive w
   \<and> rng (clearOldData E u w) = rng w \<and> clock (clearOldData E u w) = clock w"
  by (auto simp: clearOldData_def Let_def split: sum.splits)

lemma clearOldData_payloads:
  assumes "set (local_payloads w) \<subseteq> S"
  shows "set (local_payloads (clearOldData E u w)) \<subseteq> S"
proof (cases "getIndex (ls w) u")
  case (Inl e)
  then show ?thesis using assms by (simp add: clearOldData_def)
next
  case (Inr index)
  let ?n = "(length index + 9) div 10"
  let ?sorted = "sort_key entry_createdAt index"
  let ?s1 = "fold (\<lambda>item s. removeItem s
                            (storageKey u (entry_dataType item) (entry_id item)))
                      (take ?n ?sorted) (ls w)"
  have s1: "set (store_payloads ?s1) \<subseteq> S"
    using assms fold_removeItem_payloads
      [of "ls w" S "\<lambda>item. storageKey u (entry_dataType item) (entry_id item)"]
    by (simp add: local_payloads_def)
  show ?thesis
  proof (cases "setItem E ?s1 (indexKey u) (LIndex (drop ?n ?sorted))")
    case (Inl e)
    then show ?thesis using Inr s1 by (simp add: clearOldData_def Let_def local_payloads_def)
  next
    case (Inr s2)
    have "set (store_payloads s2) \<subseteq> S"
      using setItem_payloads [OF Inr s1] by simp
    then show ?thesis using Inr \<open>getIndex (ls w) u = Inr index\<close>
      by (simp add: clearOldData_def Let_def local_payloads_def)
  qed
qed

lemma updateIndex_frame:
  "updateIndex E u i d w = (r, w') \<Longrightarrow>
     sb w' = sb w \<and> drive w' = drive w"
  by (auto simp: updateIndex_def split: sum.splits)

lemma updateIndex_payloads:
  "updateIndex E u i d w = (r, w') \<Longrightarrow> set (local_payloads w) \<subseteq> S
     \<Longrightarrow> set (local_payloads w') \<subseteq> S"
  by (auto simp: updateIndex_def local_payloads_def split: sum.splits
        dest!: setItem_payloads [where S = S])

lemma local_store_frame:
  "local_storeEncryptedData E u data dt key w = (r, w') \<Longrightarrow>
     sb w' = sb w \<and> drive w' = drive w"
  by (auto simp: local_storeEncryptedData_def Let_def clearOldData_frame
        split: if_splits sum.splits prod.splits dest!: updateIndex_frame)

lemma local_store_payloads:
  assumes run: "local_storeEncryptedData E u data dt key w = (r, w')"
  shows "set (local_payloads w') \<subseteq> set (local_payloads w) \<union> set (ciphertext_of E (rng w) data key)"
proof (cases "\<not> storage_supported E")
  case True
  then show ?thesis using run by (auto simp: local_storeEncryptedData_def)
next
  case False
  note sup = this
  show ?thesis
  proof (cases "encryptData E (rng w) data key")
    case (Inl e)
    then show ?thesis using run sup by (auto simp: local_storeEncryptedData_def)
  next
    case (Inr c)
    let ?S = "set (local_payloads w) \<union> {c}"
    let ?ident = "randomUUID E (Suc (rng w))"
    let ?w1 = "w\<lparr>rng := Suc (Suc (rng w))\<rparr>"
    let ?key = "storageKey u dt ?ident"
    let ?item = "\<lparr>item_id = ?ident, item_userId = u, item_dataType = dt,
                  item_encryptedContent = c, item_storageLocation = ''local'',
                  item_createdAt = clock w, item_updatedAt = clock w\<rparr>"
    let ?written = "(case setItem E (ls ?w1) ?key (LItem ?item) of
                       Inr s \<Rightarrow> (Inr (), ?w1\<lparr>ls := s\<rparr>)
                     | Inl storageError \<Rightarrow>
                         if error_name storageError = ''QuotaExceededError''
                         then (let w2 = clearOldData E u ?w1
                               in (case setItem E (ls w2) ?key (LItem ?item) of
                                     Inr s \<Rightarrow> (Inr (), w2\<lparr>ls := s\<rparr>)
                                   | Inl e \<Rightarrow> (Inl e, w2)))
                         else (Inl storageError, ?w1))"
    have cs: "set (ciphertext_of E (rng w) data key) = {c}"
      using Inr by (simp add: ciphertext_of_def)
    have w1: "set (local_payloads ?w1) \<subseteq> ?S" by (auto simp: local_payloads_def)
    have it: "set (ls_payload (LItem ?item)) \<subseteq> ?S" by simp
    have wr: "set (local_payloads (snd ?written)) \<subseteq> ?S"
    proof (cases "setItem E (ls ?w1) ?key (LItem ?item)")
      case (Inr s)
      have "set (store_payloads s) \<subseteq> ?S"
        by (rule setItem_payloads [OF Inr _ it]) (use w1 in \<open>simp add: local_payloads_def\<close>)
      then show ?thesis using Inr by (simp add: local_payloads_def)
    next
      case (Inl storageError)
      show ?thesis
      proof (cases "error_name storageError = ''QuotaExceededError''")
        case False
        then show ?thesis using Inl w1 by simp
      next
        case True
        let ?w2 = "clearOldData E u ?w1"
        have w2: "set (local_payloads ?w2) \<subseteq> ?S" by (rule clearOldData_payloads [OF w1])
        show ?thesis
        proof (cases "setItem E (ls ?w2) ?key (LItem ?item)")
          case (Inr s)
          have "set (store_payloads s) \<subseteq> ?S"
            by (rule setItem_payloads [OF Inr _ it]) (use w2 in \<open>simp add: local_payloads_def\<close>)
          then show ?thesis using Inl True Inr by (simp add: local_payloads_def Let_def)
        next
          case (Inl e)
          then show ?thesis using \<open>setItem E (ls ?w1) ?key (LItem ?item) = Inl storageError\<close> True w2
            by (simp add: Let_def)
        qed
      qed
    qed
    obtain r3 w3 where written: "?written = (r3, w3)" by (cases ?written)
    have w3: "set (local_payloads w3) \<subseteq> ?S" using wr written by simp
    show ?thesis
    proof (cases r3)
      case (Inl e)
      have "w' = w3"
        using run sup Inr written Inl
        by (simp add: local_storeEncryptedData_def Let_def)
      then show ?thesis using w3 cs by simp
    next
      case (Inr u')
      obtain r4 w4 where ui: "updateIndex E u ?ident dt w3 = (r4, w4)"
        by (cases "updateIndex E u ?ident dt w3")
      have "w' = w4"
        using run sup \<open>encryptData E (rng w) data key = Inr c\<close> written Inr ui
        by (cases r4) (simp_all add: local_storeEncryptedData_def Let_def)
      moreover have "set (local_payloads w4) \<subseteq> ?S"
        by (rule updateIndex_payloads [OF ui w3])
      ultimately show ?thesis using cs by simp
    qed
  qed
qed

lemma in_doc_payloads:
  "c \<in> set (doc_payloads doc)
     \<longleftrightarrow> (\<exists>d k e. doc = Some d \<and> (k, e) \<in> set d \<and> pe_encrypted_content e = c)"
  by (cases doc) auto

lemma in_profiles_payloads:
  "c \<in> set (profiles_payloads ps)
     \<longleftrightarrow> (\<exists>i doc. (i, doc) \<in> set ps \<and> c \<in> set (doc_payloads doc))"
  by (induction ps) (auto simp: profiles_payloads_def)

lemma storeInProfilesTable_frame:
  "storeInProfilesTable E u data dt c w = (r, w') \<Longrightarrow> ls w' = ls w \<and> drive w' = drive w"
  by (auto simp: storeInProfilesTable_def Let_def split: option.splits if_splits)

lemma storeInProfilesTable_payloads:
  assumes run: "storeInProfilesTable E u data dt c w = (r, w')"
  shows "set (supabase_payloads w') \<subseteq> set (supabase_payloads w) \<union> {c}"
proof -
  let ?fetched = "case sb_outage (sb w) of
                    Some e \<Rightarrow> (None, Some e)
                  | None \<Rightarrow>
                      (case map_of (sb_profiles (sb w)) u of
                         None \<Rightarrow> (None, Some sb_no_rows)
                       | Some doc \<Rightarrow> (Some doc, None))"
  let ?existing = "case fst ?fetched of Some (Some d) \<Rightarrow> d | _ \<Rightarrow> []"
  let ?entry = "\<lparr>pe_data_type = dt, pe_encrypted_content = c, pe_created_at = clock w\<rparr>"
  let ?new = "AList.update (randomUUID E (rng w)) ?entry ?existing"
  let ?profiles' = "map (\<lambda>(i, doc). if i = u then (i, Some ?new) else (i, doc))
                      (sb_profiles (sb w))"
  have ex: "set (doc_payloads (Some ?existing)) \<subseteq> set (profiles_payloads (sb_profiles (sb w)))"
  proof
    fix x
    assume "x \<in> set (doc_payloads (Some ?existing))"
    then obtain k e where ke: "(k, e) \<in> set ?existing" "pe_encrypted_content e = x"
      by (auto simp only: in_doc_payloads)
    from ke(1) obtain d where d: "fst ?fetched = Some (Some d)" "?existing = d"
      by (cases "fst ?fetched") (auto split: option.splits)
    from d(1) have "map_of (sb_profiles (sb w)) u = Some (Some d)"
      by (auto split: option.splits)
    then have "(u, Some d) \<in> set (sb_profiles (sb w))" by (rule map_of_SomeD)
    moreover have "x \<in> set (doc_payloads (Some d))"
      using ke d(2) by (auto simp only: in_doc_payloads)
    ultimately show "x \<in> set (profiles_payloads (sb_profiles (sb w)))"
      by (auto simp only: in_profiles_payloads)
  qed
  have new: "set (doc_payloads (Some ?new))
      \<subseteq> set (profiles_payloads (sb_profiles (sb w))) \<union> {c}"
  proof
    fix x
    assume "x \<in> set (doc_payloads (Some ?new))"
    then obtain k e where ke: "(k, e) \<in> set ?new" "pe_encrypted_content e = x"
      by (auto simp only: in_doc_payloads)
    from in_update [OF ke(1)] have "e = ?entry \<or> (k, e) \<in> set ?existing" by blast
    then show "x \<in> set (profiles_payloads (sb_profiles (sb w))) \<union> {c}"
    proof
      assume "e = ?entry"
      then show ?thesis using ke(2) by simp
    next
      assume "(k, e) \<in> set ?existing"
      then have "x \<in> set (doc_payloads (Some ?existing))"
        using ke(2) by (auto simp only: in_doc_payloads)
      then show ?thesis using ex by blast
    qed
  qed
  have upd: "set (profiles_payloads ?profiles')
      \<subseteq> set (profiles_payloads (sb_profiles (sb w))) \<union> {c}"
  proof
    fix x
    assume "x \<in> set (profiles_payloads ?profiles')"
    then obtain i doc where h: "(i, doc) \<in> set ?profiles'" "x \<in> set (doc_payloads doc)"
      by (auto simp only: in_profiles_payloads)
    from h(1) obtain i0 doc0 where h0: "(i0, doc0) \<in> set (sb_profiles (sb w))"
      "(i, doc) = (if i0 = u then (i0, Some ?new) else (i0, doc0))"
      by auto
    show "x \<in> set (profiles_payloads (sb_profiles (sb w))) \<union> {c}"
    proof (cases "i0 = u")
      case True
      then have "doc = Some ?new" using h0(2) by simp
      then show ?thesis using h(2) new by blast
    next
      case False
      then have "doc = doc0" using h0(2) by simp
      then have "x \<in> set (profiles_payloads (sb_profiles (sb w)))"
        using h(2) h0(1) by (auto simp only: in_profiles_payloads)
      then show ?thesis by simp
    qed
  qed
  have "w' = w \<or> w' = w\<lparr>rng := Suc (rng w)\<rparr>
        \<or> w' = w\<lparr>rng := Suc (rng w), sb := (sb w)\<lparr>sb_profiles := ?profiles'\<rparr>\<rparr>"
    using run
    by (simp add: storeInProfilesTable_def Let_def split: option.splits if_splits)
  then show ?thesis
  proof (elim disjE)
    assume "w' = w"
    then show ?thesis by auto
  next
    assume "w' = w\<lparr>rng := Suc (rng w)\<rparr>"
    then show ?thesis by (auto simp: supabase_payloads_def)
  next
    assume "w' = w\<lparr>rng := Suc (rng w), sb := (sb w)\<lparr>sb_profiles := ?profiles'\<rparr>\<rparr>"
    then have "supabase_payloads w'
        = map row_encrypted_content (sb_rows (sb w)) @ profiles_payloads ?profiles'"
      by (simp add: supabase_payloads_def)
    then show ?thesis using upd by (auto simp: supabase_payloads_def)
  qed
qed

lemma supabase_fallback_payloads:
  "supabase_fallback E u data dt c w = (r, w') \<Longrightarrow>
     ls w' = ls w \<and> drive w' = drive w
     \<and> set (supabase_payloads w') \<subseteq> set (supabase_payloads w) \<union> {c}"
  using storeInProfilesTable_frame storeInProfilesTable_payloads
  by (fastforce simp: supabase_fallback_def split: prod.splits sum.splits)

lemma supabase_insert_payloads:
  assumes "supabase_insert E u data dt c w = (r, w')"
  shows "ls w' = ls w \<and> drive w' = drive w
     \<and> set (supabase_payloads w') \<subseteq> set (supabase_payloads w) \<union> {c}"
proof (cases "sb_table_error (sb w)")
  case (Some e)
  then show ?thesis using assms supabase_fallback_payloads [of E u data dt c w r w']
    by (simp add: supabase_insert_def)
next
  case None
  then have "w' = w\<lparr>rng := Suc (rng w),
      sb := (sb w)\<lparr>sb_rows := sb_rows (sb w) @
        [\<lparr>row_id = randomUUID E (rng w), row_user_id = u, row_data_type = dt,
          row_encrypted_content = c, row_storage_location = ''supabase'',
          row_created_at = clock w, row_updated_at = clock w\<rparr>]\<rparr>\<rparr>"
    using assms by (simp add: supabase_insert_def Let_def)
  then show ?thesis by (auto simp: supabase_payloads_def)
qed

lemma supabase_store_payloads:
  assumes run: "supabase_storeEncryptedData E u data dt key w = (r, w')"
  shows "ls w' = ls w \<and> drive w' = drive w
     \<and> set (supabase_payloads w')
         \<subseteq> set (supabase_payloads w) \<union> set (ciphertext_of E (rng w) data key)"
proof (cases "sb_session (sb w)")
  case None
  then have "w' = w" using run by (simp add: supabase_storeEncryptedData_def)
  then show ?thesis by auto
next
  case (Some user)
  show ?thesis
  proof (cases "encryptData E (rng w) data key")
    case (Inl e)
    then have "w' = w" using run Some by (simp add: supabase_storeEncryptedData_def)
    then show ?thesis by auto
  next
    case (Inr c)
    let ?w1 = "w\<lparr>rng := Suc (rng w)\<rparr>"
    let ?w2 = "?w1\<lparr>sb := (sb ?w1)\<lparr>sb_table := True\<rparr>\<rparr>"
    have cs: "set (ciphertext_of E (rng w) data key) = {c}"
      using Inr by (simp add: ciphertext_of_def)
    have p1: "supabase_payloads ?w1 = supabase_payloads w" "ls ?w1 = ls w" "drive ?w1 = drive w"
      by (simp_all add: supabase_payloads_def)
    have p2: "supabase_payloads ?w2 = supabase_payloads w" "ls ?w2 = ls w" "drive ?w2 = drive w"
      by (simp_all add: supabase_payloads_def)
    have "supabase_fallback E u data dt c ?w1 = (r, w')
        \<or> supabase_insert E u data dt c ?w2 = (r, w')
        \<or> supabase_insert E u data dt c ?w1 = (r, w')"
      using run Some Inr
      by (simp add: supabase_storeEncryptedData_def Let_def split: option.splits if_splits)
    then show ?thesis
    proof (elim disjE)
      assume "supabase_fallback E u data dt c ?w1 = (r, w')"
      from supabase_fallback_payloads [OF this] show ?thesis
        unfolding p1 cs .
    next
      assume "supabase_insert E u data dt c ?w2 = (r, w')"
      from supabase_insert_payloads [OF this] show ?thesis
        unfolding p2 cs .
    next
      assume "supabase_insert E u data dt c ?w1 = (r, w')"
      from supabase_insert_payloads [OF this] show ?thesis
        unfolding p1 cs .
    qed
  qed
qed

lemma getOrCreateFolder_frame:
  "getOrCreateFolder E tok w = (r, w') \<Longrightarrow>
     ls w' = ls w \<and> sb w' = sb w \<and> drive_files (drive w') = drive_files (drive w)
     \<and> drive_online (drive w') = drive_online (drive w)
     \<and> drive_error (drive w') = drive_error (drive w)"
  by (auto simp: getOrCreateFolder_def createEncryptedFolder_def Let_def
        split: if_splits option.splits)

lemma snd_returned [simp]: "snd (returned x) = snd x"
  by (cases x rule: returned.cases) simp_all

lemma returned_Inr:
  "returned x = (Inr ident, w') \<longleftrightarrow> (\<exists>i. x = (Inr i, w') \<and> ident = Id i)"
  by (cases x rule: returned.cases) auto

lemma returned_Inl: "returned x = (Inl e, w') \<longleftrightarrow> x = (Inl e, w')"
  by (cases x rule: returned.cases) auto

lemma drive_store_payloads:
  assumes run: "drive_storeEncryptedData E tok data dt key w = (r, w')"
  shows "ls w' = ls w \<and> sb w' = sb w
     \<and> set (drive_payloads w') \<subseteq> set (drive_payloads w) \<union> set (ciphertext_of E (rng w) data key)"
proof (cases "not_authenticated tok")
  case True
  then have "w' = w" using run by (simp add: drive_storeEncryptedData_def)
  then show ?thesis by auto
next
  case False
  show ?thesis
  proof (cases "encryptData E (rng w) data key")
    case (Inl e)
    then have "w' = w" using run False by (simp add: drive_storeEncryptedData_def)
    then show ?thesis by auto
  next
    case (Inr c)
    let ?w1 = "w\<lparr>rng := Suc (rng w)\<rparr>"
    obtain rf w2 where f: "getOrCreateFolder E tok ?w1 = (rf, w2)"
      by (cases "getOrCreateFolder E tok ?w1")
    have fr: "ls w2 = ls w" "sb w2 = sb w" "drive_files (drive w2) = drive_files (drive w)"
      using getOrCreateFolder_frame [OF f] by simp_all
    have cs: "set (ciphertext_of E (rng w) data key) = {c}"
      using Inr by (simp add: ciphertext_of_def)
    let ?file = "\<lparr>file_id = randomUUID E (rng w2),
                  file_name = dt @ ''_'' @ show_nat (clock ?w1) @ ''.encrypted'',
                  file_parent = projr rf, file_content = c\<rparr>"
    have "w' = w2 \<or> w' = w2\<lparr>rng := Suc (rng w2),
             drive := (drive w2)\<lparr>drive_files := drive_files (drive w2) @ [?file]\<rparr>\<rparr>"
      using run False Inr f
      by (cases rf)
         (simp_all add: drive_storeEncryptedData_def Let_def split: if_splits option.splits)
    then show ?thesis
    proof
      assume "w' = w2"
      then show ?thesis using fr by (simp add: drive_payloads_def)
    next
      assume "w' = w2\<lparr>rng := Suc (rng w2),
             drive := (drive w2)\<lparr>drive_files := drive_files (drive w2) @ [?file]\<rparr>\<rparr>"
      then show ?thesis using fr cs by (simp add: drive_payloads_def)
    qed
  qed
qed

lemma store_in_payloads:
  "set (payloads (snd (store_in E M b data dt w)))
     \<subseteq> set (payloads w) \<union> set (ciphertext_of E (rng w) data (encryptionKey (config M)))"
proof (cases b)
  case GoogleDrive
  obtain r w' where run: "drive_storeEncryptedData E (accessToken M) data dt
      (encryptionKey (config M)) w = (r, w')"
    by (cases "drive_storeEncryptedData E (accessToken M) data dt (encryptionKey (config M)) w")
  have s: "snd (store_in E M b data dt w) = w'" using GoogleDrive run by simp
  have p: "local_payloads w' = local_payloads w" "supabase_payloads w' = supabase_payloads w"
    using drive_store_payloads [OF run] by (simp_all add: local_payloads_def supabase_payloads_def)
  show ?thesis unfolding s payloads_def p using drive_store_payloads [OF run] by auto
next
  case Supabase
  obtain r w' where run: "supabase_storeEncryptedData E (userId (config M)) data dt
      (encryptionKey (config M)) w = (r, w')"
    by (cases "supabase_storeEncryptedData E (userId (config M)) data dt
      (encryptionKey (config M)) w")
  have s: "snd (store_in E M b data dt w) = w'" using Supabase run by simp
  have p: "local_payloads w' = local_payloads w" "drive_payloads w' = drive_payloads w"
    using supabase_store_payloads [OF run] by (simp_all add: local_payloads_def drive_payloads_def)
  show ?thesis unfolding s payloads_def p using supabase_store_payloads [OF run] by auto
next
  case Local
  obtain r w' where run: "local_storeEncryptedData E (userId (config M)) data dt
      (encryptionKey (config M)) w = (r, w')"
    by (cases "local_storeEncryptedData E (userId (config M)) data dt
      (encryptionKey (config M)) w")
  have s: "snd (store_in E M b data dt w) = w'" using Local run by simp
  have p: "supabase_payloads w' = supabase_payloads w" "drive_payloads w' = drive_payloads w"
    using local_store_frame [OF run] by (simp_all add: supabase_payloads_def drive_payloads_def)
  show ?thesis unfolding s payloads_def p using local_store_payloads [OF run] by auto
qed

lemma store_in_ciphertext_only:
  assumes "encryptData E (rng w) data (encryptionKey (config M))
             = encryptData E (rng w) data' (encryptionKey (config M))"
  shows "store_in E M b data dt w = store_in E M b data' dt w"
proof (cases b)
  case GoogleDrive
  then show ?thesis using assms by (simp add: drive_storeEncryptedData_def)
next
  case Supabase
  have fb: "supabase_fallback E (userId (config M)) data
               = supabase_fallback E (userId (config M)) data'"
    by (intro ext) (simp add: supabase_fallback_def storeInProfilesTable_def)
  have ins: "supabase_insert E (userId (config M)) data
               = supabase_insert E (userId (config M)) data'"
    by (intro ext) (simp add: supabase_insert_def fb split: option.splits)
  show ?thesis
    unfolding Supabase store_in.simps supabase_storeEncryptedData_def fb ins assms ..
next
  case Local
  then show ?thesis using assms by (simp add: local_storeEncryptedData_def)
qed

lemma traverse_Inr:
  "traverse f xs = Inr ys \<Longrightarrow> y \<in> set ys \<Longrightarrow> \<exists>x \<in> set xs. f x = Inr y"
proof (induction xs arbitrary: ys)
  case Nil
  then show ?case by simp
next
  case (Cons x xs)
  then show ?case by (auto split: sum.splits)
qed

lemma local_retrieve_decrypts:
  assumes run: "local_retrieveEncryptedData E u dt key w = Inr vs" and v: "v \<in> set vs"
  shows "\<exists>c \<in> set (local_payloads w). decryptData E c key = Inr v"
proof -
  from run obtain index items where
    t: "traverse (local_retrieve_item E (ls w) u dt key)
          (filter (\<lambda>item. entry_dataType item = dt) index) = Inr items"
    and vs: "vs = map the (filter (not_null E) items)"
    by (auto simp: local_retrieveEncryptedData_def split: sum.splits)
  from v vs obtain ov where ov: "ov \<in> set items" "not_null E ov" "v = the ov" by auto
  have "ov = Some v" using ov(2,3) by (cases ov) simp_all
  with traverse_Inr [OF t ov(1)] obtain item where
    it: "local_retrieve_item E (ls w) u dt key item = Inr (Some v)" by blast
  then obtain x where x: "getItem (ls w) (storageKey u dt (entry_id item)) = Some (LItem x)"
    "decryptData E (item_encryptedContent x) key = Inr v"
    by (auto simp: local_retrieve_item_def split: option.splits ls_value.splits sum.splits)
  from x(1) have "(storageKey u dt (entry_id item), LItem x) \<in> set (ls w)"
    unfolding getItem_def by (rule map_of_SomeD)
  then have "item_encryptedContent x \<in> set (local_payloads w)"
    unfolding local_payloads_def in_store_payloads by force
  with x(2) show ?thesis by blast
qed

lemma supabase_retrieve_decrypts:
  assumes run: "supabase_retrieveEncryptedData E u dt key w = Inr vs" and v: "v \<in> set vs"
  shows "\<exists>c \<in> set (supabase_payloads w). decryptData E c key = Inr v"
proof -
  from run have
    t: "traverse (\<lambda>item. decryptData E (row_encrypted_content item) key)
          (filter (\<lambda>item. row_user_id item = u \<and> row_data_type item = dt
                            \<and> row_storage_location item = ''supabase'')
             (sb_rows (sb w))) = Inr vs"
    by (auto simp: supabase_retrieveEncryptedData_def split: sum.splits option.splits)
  from traverse_Inr [OF t v] obtain item where
    "item \<in> set (sb_rows (sb w))" "decryptData E (row_encrypted_content item) key = Inr v"
    by auto
  then show ?thesis by (auto simp: supabase_payloads_def)
qed

lemma listEncryptedFiles_frame:
  assumes "listEncryptedFiles E tok w = (r, w')"
  shows "ls w' = ls w \<and> sb w' = sb w \<and> drive_files (drive w') = drive_files (drive w)
     \<and> drive_error (drive w') = drive_error (drive w)
     \<and> (\<forall>files. r = Inr files \<longrightarrow> set files \<subseteq> set (drive_files (drive w))
            \<and> (drive_error (drive w) \<noteq> None \<longrightarrow> files = []))"
proof (cases "not_authenticated tok")
  case True
  then show ?thesis using assms by (auto simp: listEncryptedFiles_def)
next
  case False
  obtain rf w1 where f: "getOrCreateFolder E tok w = (rf, w1)"
    by (cases "getOrCreateFolder E tok w")
  from getOrCreateFolder_frame [OF f] assms False f show ?thesis
    by (cases rf) (auto simp: listEncryptedFiles_def split: if_splits option.splits)
qed

lemma drive_retrieve_decrypts:
  assumes run: "fst (retrieve_from E M GoogleDrive dt w) = Inr vs" and v: "v \<in> set vs"
  shows "\<exists>c \<in> set (drive_payloads w). decryptData E c (encryptionKey (config M)) = Inr v"
proof -
  obtain r w1 where l: "listEncryptedFiles E (accessToken M) w = (r, w1)"
    by (cases "listEncryptedFiles E (accessToken M) w")
  note fr = listEncryptedFiles_frame [OF l]
  from run l v obtain files where files: "r = Inr files"
    by (cases r) auto
  let ?dataFiles = "filter (\<lambda>file. prefix dt (file_name file)) files"
  from run l files v have
    t: "traverse (\<lambda>file. drive_retrieveEncryptedData E (accessToken M) (file_id file)
                            (encryptionKey (config M)) w1) ?dataFiles = Inr vs"
    by (auto simp: Let_def split: if_splits)
  from traverse_Inr [OF t v] obtain fl where
    fl: "fl \<in> set files"
      "drive_retrieveEncryptedData E (accessToken M) (file_id fl)
         (encryptionKey (config M)) w1 = Inr v"
    by auto
  from fl(1) fr files have noerr: "drive_error (drive w1) = None" by auto
  from fl(1) fr files have mem: "fl \<in> set (drive_files (drive w1))" by auto
  then obtain g where g: "find (\<lambda>f. file_id f = file_id fl) (drive_files (drive w1)) = Some g"
    by (cases "find (\<lambda>f. file_id f = file_id fl) (drive_files (drive w1))")
       (auto simp: find_None_iff)
  then have "g \<in> set (drive_files (drive w1))"
    by (auto simp: find_Some_iff)
  moreover from fl(2) g noerr
  have "decryptData E (file_content g) (encryptionKey (config M)) = Inr v"
    by (auto simp: drive_retrieveEncryptedData_def split: if_splits)
  ultimately show ?thesis using fr by (auto simp: drive_payloads_def)
qed

lemma retrieve_from_decrypts:
  assumes run: "fst (retrieve_from E M b dt w) = Inr vs" and v: "v \<in> set vs"
  shows "\<exists>c \<in> set (payloads w). decryptData E c (encryptionKey (config M)) = Inr v"
proof (cases b)
  case GoogleDrive
  then show ?thesis using drive_retrieve_decrypts [of E M dt w vs v] run v
    by (auto simp: payloads_def)
next
  case Supabase
  then show ?thesis
    using supabase_retrieve_decrypts [of E "userId (config M)" dt "encryptionKey (config M)" w vs v]
      run v
    by (auto simp: payloads_def)
next
  case Local
  then show ?thesis
    using local_retrieve_decrypts [of E "userId (config M)" dt "encryptionKey (config M)" w vs v]
      run v
    by (auto simp: payloads_def)
qed

lemma retrieve_from_writes_nothing:
  "payloads (snd (retrieve_from E M b dt w)) = payloads w"
proof (cases b)
  case GoogleDrive
  obtain r w1 where l: "listEncryptedFiles E (accessToken M) w = (r, w1)"
    by (cases "listEncryptedFiles E (accessToken M) w")
  have "snd (retrieve_from E M b dt w) = w1"
    using GoogleDrive l by (cases r) (simp_all add: Let_def)
  then show ?thesis using listEncryptedFiles_frame [OF l]
    by (simp add: payloads_def local_payloads_def supabase_payloads_def drive_payloads_def)
next
  case Supabase
  then show ?thesis by simp
next
  case Local
  then show ?thesis by simp
qed

text \<open>
  Claim C6. Whatever a store operation of a backend adds to the payloads held anywhere
  is the output of \<open>encryptData\<close> on the value; the operation depends on the value through
  that output only, so two values with the same ciphertext give the same result and
  the same world; every value a retrieve operation returns is \<open>decryptData\<close> of a payload
  the backend holds; and a retrieve operation adds or changes no payload.
\<close>

theorem ciphertext_opacity:
  "set (payloads (snd (store_in E M b data dt w)))
     \<subseteq> set (payloads w) \<union> set (ciphertext_of E (rng w) data (encryptionKey (config M)))
   \<and> (encryptData E (rng w) data (encryptionKey (config M))
        = encryptData E (rng w) data' (encryptionKey (config M))
      \<longrightarrow> store_in E M b data dt w = store_in E M b data' dt w)
   \<and> (\<forall>vs. fst (retrieve_from E M b dt w) = Inr vs \<longrightarrow>
        (\<forall>v \<in> set vs. \<exists>c \<in> set (payloads w).
           decryptData E c (encryptionKey (config M)) = Inr v))
   \<and> payloads (snd (retrieve_from E M b dt w)) = payloads w"
  using store_in_payloads [of E M b data dt w]
    store_in_ciphertext_only [of E w data M data' b dt]
    retrieve_from_decrypts [of E M b dt w]
    retrieve_from_writes_nothing [of E M b dt w]
  by blast

text \<open>
  Storing a value in the empty local store leaves its ciphertext as the only payload;
  with a serialiser that forgets the value, storing two different values in the hosted
  store gives the same world; and the record read back from the local store is the
  decryption of the payload held there.
\<close>

theorem ciphertext_opacity_witness:
  "payloads demo_world = []
   \<and> ciphertext_of demo_env 0 ''Paracetamol'' ''k'' = [''klomatecaraPj'']
   \<and> set (payloads (snd (store_in demo_env (demo_manager [Local]) Local ''Paracetamol''
                            ''medicines'' demo_world))) \<subseteq> {''klomatecaraPj''}
   \<and> store_in demo_lossy_env (demo_manager [Supabase]) Supabase ''Paracetamol''
        ''medicines'' demo_world
     = store_in demo_lossy_env (demo_manager [Supabase]) Supabase ''Ibuprofen''
        ''medicines'' demo_world
   \<and> fst (retrieve_from demo_env (demo_manager [Local]) Local ''medicines''
        demo_stored_world) = Inr [''Paracetamol'']
   \<and> (\<exists>c \<in> set (payloads demo_stored_world). decryptData demo_env c ''k'' = Inr ''Paracetamol'')"
proof -
  have k: "encryptionKey (config (demo_manager [Local])) = ''k''"
     "encryptionKey (config (demo_manager [Supabase])) = ''k''"
    by (simp_all add: demo_manager_def new_StorageManager_def)
  have r0: "rng demo_world = 0" by (simp add: demo_world_def)
  have p0: "payloads demo_world = []" by code_simp
  have c0: "ciphertext_of demo_env 0 ''Paracetamol'' ''k'' = [''klomatecaraPj'']" by code_simp
  have same: "encryptData demo_lossy_env (rng demo_world) ''Paracetamol''
                (encryptionKey (config (demo_manager [Supabase])))
              = encryptData demo_lossy_env (rng demo_world) ''Ibuprofen''
                (encryptionKey (config (demo_manager [Supabase])))"
    by (simp add: encryptData_def demo_lossy_env_def demo_env_def)
  have rd: "fst (retrieve_from demo_env (demo_manager [Local]) Local ''medicines''
        demo_stored_world) = Inr [''Paracetamol'']" by code_simp
  note t1 = ciphertext_opacity
    [where E = demo_env and M = "demo_manager [Local]" and b = Local
       and data = "''Paracetamol''" and data' = "''Paracetamol''" and dt = "''medicines''"
       and w = demo_world]
  note t2 = ciphertext_opacity
    [where E = demo_lossy_env and M = "demo_manager [Supabase]" and b = Supabase
       and data = "''Paracetamol''" and data' = "''Ibuprofen''" and dt = "''medicines''"
       and w = demo_world]
  note t3 = ciphertext_opacity
    [where E = demo_env and M = "demo_manager [Local]" and b = Local
       and data = "''Paracetamol''" and data' = "''Paracetamol''" and dt = "''medicines''"
       and w = demo_stored_world]
  have s1: "set (payloads (snd (store_in demo_env (demo_manager [Local]) Local ''Paracetamol''
                            ''medicines'' demo_world))) \<subseteq> {''klomatecaraPj''}"
    using t1 unfolding k r0 p0 c0 by simp
  have s2: "store_in demo_lossy_env (demo_manager [Supabase]) Supabase ''Paracetamol''
        ''medicines'' demo_world
     = store_in demo_lossy_env (demo_manager [Supabase]) Supabase ''Ibuprofen''
        ''medicines'' demo_world"
    using t2 same by blast
  have s3: "\<exists>c \<in> set (payloads demo_stored_world). decryptData demo_env c ''k'' = Inr ''Paracetamol''"
    using t3 rd unfolding k by simp
  show ?thesis using p0 c0 s1 s2 rd s3 by blast
qed

section \<open>The backends do not touch each other\<close>

lemma store_in_frame:
  assumes "b' \<noteq> b"
  shows "state_of b' (snd (store_in E M b item dt w)) = state_of b' w"
proof (cases b)
  case GoogleDrive
  obtain r w' where run: "drive_storeEncryptedData E (accessToken M) item dt
      (encryptionKey (config M)) w = (r, w')"
    by (cases "drive_storeEncryptedData E (accessToken M) item dt (encryptionKey (config M)) w")
  from drive_store_payloads [OF run] show ?thesis
    using GoogleDrive run assms by (cases b') simp_all
next
  case Supabase
  obtain r w' where run: "supabase_storeEncryptedData E (userId (config M)) item dt
      (encryptionKey (config M)) w = (r, w')"
    by (cases "supabase_storeEncryptedData E (userId (config M)) item dt
      (encryptionKey (config M)) w")
  from supabase_store_payloads [OF run] show ?thesis
    using Supabase run assms by (cases b') simp_all
next
  case Local
  obtain r w' where run: "local_storeEncryptedData E (userId (config M)) item dt
      (encryptionKey (config M)) w = (r, w')"
    by (cases "local_storeEncryptedData E (userId (config M)) item dt
      (encryptionKey (config M)) w")
  from local_store_frame [OF run] show ?thesis
    using Local run assms by (cases b') simp_all
qed

lemma held_state:
  "state_of q w = state_of q w' \<Longrightarrow> held M q dt w = held M q dt w'"
  by (cases q) simp_all

lemma payloads_of_state:
  "state_of b w = state_of b w' \<Longrightarrow> payloads_of b w = payloads_of b w'"
  by (cases b)
     (simp_all add: local_payloads_def supabase_payloads_def drive_payloads_def)

lemma service_takes_state:
  "state_of b w = state_of b w' \<Longrightarrow> service_takes b w = service_takes b w'"
  by (cases b) simp_all

lemma store_lands_state:
  "state_of b w = state_of b w' \<Longrightarrow> store_lands M b w = store_lands M b w'"
  by (cases b) (simp_all add: store_lands_def)

lemma retrieve_state:
  assumes "p \<noteq> GoogleDrive" and st: "state_of p w = state_of p w'"
  shows "fst (retrieve_from E M p dt w) = fst (retrieve_from E M p dt w')"
proof (cases p)
  case GoogleDrive
  then show ?thesis using assms by simp
next
  case Supabase
  then have h: "sb w = sb w'" using st by simp
  show ?thesis
    unfolding Supabase retrieve_from.simps fst_conv supabase_retrieveEncryptedData_def h ..
next
  case Local
  then have h: "ls w = ls w'" using st by simp
  show ?thesis
    unfolding Local retrieve_from.simps fst_conv local_retrieveEncryptedData_def h ..
qed

section \<open>What a store leaves behind\<close>

lemma getItem_update:
  "getItem (AList.update k v s) k' = (if k' = k then Some v else getItem s k')"
  by (simp add: getItem_def update_conv')

lemma setItem_Inr: "setItem E s k v = Inr s' \<Longrightarrow> s' = AList.update k v s"
  by (auto simp: setItem_def Let_def split: if_splits)

lemma getItem_payload:
  "getItem s k = Some (LItem x) \<Longrightarrow> item_encryptedContent x \<in> set (store_payloads s)"
  unfolding getItem_def in_store_payloads by (force dest: map_of_SomeD)

lemma local_store_lands:
  assumes run: "local_storeEncryptedData E u item dt key w = (Inr ident, w')"
  shows "\<exists>c. encryptData E (rng w) item key = Inr c \<and> c \<in> set (local_payloads w')"
proof -
  from run have sup: "storage_supported E"
    by (auto simp: local_storeEncryptedData_def split: if_splits)
  from run sup obtain c where c: "encryptData E (rng w) item key = Inr c"
    by (cases "encryptData E (rng w) item key") (auto simp: local_storeEncryptedData_def)
  let ?ident = "randomUUID E (Suc (rng w))"
  let ?w1 = "w\<lparr>rng := Suc (Suc (rng w))\<rparr>"
  let ?key = "storageKey u dt ?ident"
  let ?item = "\<lparr>item_id = ?ident, item_userId = u, item_dataType = dt,
                item_encryptedContent = c, item_storageLocation = ''local'',
                item_createdAt = clock w, item_updatedAt = clock w\<rparr>"
  let ?written = "(case setItem E (ls ?w1) ?key (LItem ?item) of
                     Inr s \<Rightarrow> (Inr (), ?w1\<lparr>ls := s\<rparr>)
                   | Inl storageError \<Rightarrow>
                       if error_name storageError = ''QuotaExceededError''
                       then (let w2 = clearOldData E u ?w1
                             in (case setItem E (ls w2) ?key (LItem ?item) of
                                   Inr s \<Rightarrow> (Inr (), w2\<lparr>ls := s\<rparr>)
                                 | Inl e \<Rightarrow> (Inl e, w2)))
                       else (Inl storageError, ?w1))"
  obtain r3 w3 where written: "?written = (r3, w3)" by (cases ?written)
  have r3: "r3 = Inr ()"
    using run sup c written by (cases r3) (simp_all add: local_storeEncryptedData_def Let_def)
  have "\<exists>s0. ls w3 = AList.update ?key (LItem ?item) s0"
    using written r3
    by (auto simp: Let_def split: sum.splits if_splits dest!: setItem_Inr)
  then obtain s0 where s0: "ls w3 = AList.update ?key (LItem ?item) s0" ..
  obtain r4 w4 where ui: "updateIndex E u ?ident dt w3 = (r4, w4)"
    by (cases "updateIndex E u ?ident dt w3")
  have res: "(case r4 of Inl e \<Rightarrow> (Inl (local_store_failed e), w4)
                        | Inr u' \<Rightarrow> (Inr ?ident, w4)) = (Inr ident, w')"
    using run sup c written r3 ui by (simp add: local_storeEncryptedData_def Let_def)
  then have r4: "r4 = Inr ()" and w4: "w4 = w'" by (cases r4; simp)+
  from ui r4 obtain index v where
    gi: "getIndex (ls w3) u = Inr index"
    and w4': "ls w4 = AList.update (indexKey u) v (ls w3)"
    by (cases "getIndex (ls w3) u")
       (auto simp: updateIndex_def split: sum.splits dest!: setItem_Inr)
  have ne: "indexKey u \<noteq> ?key"
  proof
    assume "indexKey u = ?key"
    then have "getIndex (ls w3) u = Inl (NamedError ''TypeError'' ''index is not an array'')"
      by (simp add: getIndex_def getItem_update s0)
    with gi show False by simp
  qed
  have "getItem (ls w') ?key = Some (LItem ?item)"
    using w4' w4 s0 ne by (simp add: getItem_update)
  from getItem_payload [OF this] have "c \<in> set (local_payloads w')"
    by (simp add: local_payloads_def)
  with c show ?thesis by blast
qed

lemma in_update_self: "(k, v) \<in> set (AList.update k v s)"
  by (induction s) auto

lemma storeInProfilesTable_lands:
  assumes run: "storeInProfilesTable E u data dt c w = (Inr ident, w')"
    and row: "map_of (sb_profiles (sb w)) u = Some doc"
  shows "c \<in> set (supabase_payloads w')"
proof -
  obtain existing where ex: "existing = (case doc of Some d \<Rightarrow> d | None \<Rightarrow> [])"
    by simp
  let ?entry = "\<lparr>pe_data_type = dt, pe_encrypted_content = c, pe_created_at = clock w\<rparr>"
  let ?new = "AList.update (randomUUID E (rng w)) ?entry existing"
  let ?profiles' = "map (\<lambda>(i, doc). if i = u then (i, Some ?new) else (i, doc))
                      (sb_profiles (sb w))"
  from run row have up: "sb_outage (sb w) = None"
    by (cases "sb_outage (sb w)")
       (auto simp: storeInProfilesTable_def Let_def split: if_splits)
  have "w' = w\<lparr>rng := Suc (rng w), sb := (sb w)\<lparr>sb_profiles := ?profiles'\<rparr>\<rparr>"
    using run row up ex by (cases doc) (auto simp: storeInProfilesTable_def Let_def)
  then have p: "supabase_payloads w'
      = map row_encrypted_content (sb_rows (sb w)) @ profiles_payloads ?profiles'"
    by (simp add: supabase_payloads_def)
  from row have "(u, doc) \<in> set (sb_profiles (sb w))" by (rule map_of_SomeD)
  then have "(u, Some ?new) \<in> set ?profiles'" by force
  moreover have "c \<in> set (doc_payloads (Some ?new))"
    unfolding in_doc_payloads using in_update_self [of "randomUUID E (rng w)" ?entry existing]
    by force
  ultimately have "c \<in> set (profiles_payloads ?profiles')"
    unfolding in_profiles_payloads by blast
  then show ?thesis unfolding p by simp
qed

lemma supabase_fallback_lands:
  "supabase_fallback E u data dt c w = (Inr ident, w') \<Longrightarrow>
   map_of (sb_profiles (sb w)) u = Some doc \<Longrightarrow> c \<in> set (supabase_payloads w')"
  using storeInProfilesTable_lands [of E u data dt c w ident w' doc]
  by (auto simp: supabase_fallback_def split: prod.splits sum.splits)

lemma supabase_fallback_fails:
  "supabase_fallback E u data dt c w = (Inl e, w') \<Longrightarrow> sb w' = sb w"
  by (auto simp: supabase_fallback_def storeInProfilesTable_def Let_def
        split: prod.splits sum.splits option.splits if_splits)

lemma supabase_insert_row:
  assumes "sb_table_error (sb w) = None"
  shows "supabase_insert E u data dt c w
     = (Inr (randomUUID E (rng w)),
        w\<lparr>rng := Suc (rng w),
          sb := (sb w)\<lparr>sb_rows := sb_rows (sb w) @
            [\<lparr>row_id = randomUUID E (rng w), row_user_id = u, row_data_type = dt,
              row_encrypted_content = c, row_storage_location = ''supabase'',
              row_created_at = clock w, row_updated_at = clock w\<rparr>]\<rparr>\<rparr>)"
  using assms by (simp add: supabase_insert_def Let_def)

text \<open>The three ways a store on the hosted store can go once the value is encrypted.\<close>

lemma supabase_store_paths:
  assumes run: "supabase_storeEncryptedData E u data dt key w = (r, w')"
    and c: "encryptData E (rng w) data key = Inr c"
    and user: "sb_session (sb w) = Some user"
  shows "(\<not> inserts_row (sb w)
            \<and> supabase_fallback E u data dt c (w\<lparr>rng := Suc (rng w)\<rparr>) = (r, w'))
       \<or> (inserts_row (sb w)
            \<and> (\<exists>w2. supabase_insert E u data dt c w2 = (r, w')
                  \<and> sb_table_error (sb w2) = None \<and> sb_rows (sb w2) = sb_rows (sb w)
                  \<and> inserts_row (sb w2) \<and> rng w2 = Suc (rng w) \<and> clock w2 = clock w))"
proof (cases "inserts_row (sb w)")
  case False
  then show ?thesis using run c user
    by (auto simp: supabase_storeEncryptedData_def Let_def inserts_row_def
          supabase_insert_def sb_table_error_def split: option.splits if_splits)
next
  case True
  let ?w1 = "w\<lparr>rng := Suc (rng w)\<rparr>"
  let ?w2 = "?w1\<lparr>sb := (sb ?w1)\<lparr>sb_table := True\<rparr>\<rparr>"
  from True have up: "sb_outage (sb w) = None" by (simp add: inserts_row_def)
  show ?thesis
  proof (cases "sb_schema_error (sb w) = None \<and> sb_table (sb w)")
    case True
    then have "supabase_insert E u data dt c ?w1 = (r, w')"
      using run c user up by (simp add: supabase_storeEncryptedData_def Let_def)
    moreover have "sb_table_error (sb ?w1) = None"
      using True up by (simp add: sb_table_error_def)
    moreover have "inserts_row (sb ?w1)" using \<open>inserts_row (sb w)\<close> by simp
    ultimately show ?thesis using \<open>inserts_row (sb w)\<close> by auto
  next
    case False
    then have rpc: "sb_rpc_error (sb w) = None"
      using \<open>inserts_row (sb w)\<close> by (auto simp: inserts_row_def)
    have "supabase_insert E u data dt c ?w2 = (r, w')"
      using run c user up rpc False
      by (auto simp: supabase_storeEncryptedData_def Let_def split: if_splits)
    moreover have "sb_table_error (sb ?w2) = None"
      using up by (simp add: sb_table_error_def)
    moreover have "inserts_row (sb ?w2)" using up rpc by (simp add: inserts_row_def)
    ultimately show ?thesis using \<open>inserts_row (sb w)\<close> by auto
  qed
qed

lemma supabase_store_lands:
  assumes run: "supabase_storeEncryptedData E u data dt key w = (Inr ident, w')"
    and ok: "inserts_row (sb w) \<or> map_of (sb_profiles (sb w)) u \<noteq> None"
  shows "\<exists>c. encryptData E (rng w) data key = Inr c \<and> c \<in> set (supabase_payloads w')"
proof -
  from run obtain user where user: "sb_session (sb w) = Some user"
    by (cases "sb_session (sb w)") (auto simp: supabase_storeEncryptedData_def)
  from run user obtain c where c: "encryptData E (rng w) data key = Inr c"
    by (cases "encryptData E (rng w) data key") (auto simp: supabase_storeEncryptedData_def)
  from supabase_store_paths [OF run c user] have "c \<in> set (supabase_payloads w')"
  proof (elim disjE conjE exE)
    assume no: "\<not> inserts_row (sb w)"
      and fb: "supabase_fallback E u data dt c (w\<lparr>rng := Suc (rng w)\<rparr>) = (Inr ident, w')"
    from no ok obtain doc where "map_of (sb_profiles (sb w)) u = Some doc" by auto
    then show ?thesis using supabase_fallback_lands [OF fb, of doc] by simp
  next
    fix w2
    assume ins: "supabase_insert E u data dt c w2 = (Inr ident, w')"
      and t: "sb_table_error (sb w2) = None"
    from ins show ?thesis unfolding supabase_insert_row [OF t]
      by (auto simp: supabase_payloads_def)
  qed
  with c show ?thesis by blast
qed

lemma supabase_store_fails:
  assumes run: "supabase_storeEncryptedData E u data dt key w = (Inl e, w')"
  shows "sb w' = sb w"
proof (cases "sb_session (sb w)")
  case None
  then show ?thesis using run by (simp add: supabase_storeEncryptedData_def)
next
  case (Some user)
  show ?thesis
  proof (cases "encryptData E (rng w) data key")
    case (Inl e')
    then show ?thesis using run Some by (simp add: supabase_storeEncryptedData_def)
  next
    case (Inr c)
    from supabase_store_paths [OF run Inr Some] show ?thesis
    proof (elim disjE conjE exE)
      assume "supabase_fallback E u data dt c (w\<lparr>rng := Suc (rng w)\<rparr>) = (Inl e, w')"
      from supabase_fallback_fails [OF this] show ?thesis by simp
    next
      fix w2
      assume ins: "supabase_insert E u data dt c w2 = (Inl e, w')"
        and t: "sb_table_error (sb w2) = None"
      from ins show ?thesis unfolding supabase_insert_row [OF t] by simp
    qed
  qed
qed

lemma drive_store_lands:
  assumes run: "drive_storeEncryptedData E tok data dt key w = (Inr ident, w')"
    and ok: "drive_error (drive w) = None"
  shows "\<exists>c. encryptData E (rng w) data key = Inr c \<and> c \<in> set (drive_payloads w')"
proof -
  from run have auth: "\<not> not_authenticated tok"
    by (auto simp: drive_storeEncryptedData_def split: if_splits)
  from run auth obtain c where c: "encryptData E (rng w) data key = Inr c"
    by (cases "encryptData E (rng w) data key") (auto simp: drive_storeEncryptedData_def)
  let ?w1 = "w\<lparr>rng := Suc (rng w)\<rparr>"
  obtain rf w2 where f: "getOrCreateFolder E tok ?w1 = (rf, w2)"
    by (cases "getOrCreateFolder E tok ?w1")
  have fr: "drive_error (drive w2) = None"
    using getOrCreateFolder_frame [OF f] ok by simp
  have "\<exists>fl. drive_files (drive w') = drive_files (drive w2) @ [fl] \<and> file_content fl = c"
    using run auth c f fr
    by (cases rf) (auto simp: drive_storeEncryptedData_def Let_def split: if_splits)
  then have "c \<in> set (drive_payloads w')" by (auto simp: drive_payloads_def)
  with c show ?thesis by blast
qed

lemma drive_store_fails:
  assumes run: "drive_storeEncryptedData E tok data dt key w = (Inl e, w')"
  shows "drive_files (drive w') = drive_files (drive w)"
proof (cases "not_authenticated tok")
  case True
  then show ?thesis using run by (simp add: drive_storeEncryptedData_def)
next
  case False
  show ?thesis
  proof (cases "encryptData E (rng w) data key")
    case (Inl e')
    then show ?thesis using run False by (simp add: drive_storeEncryptedData_def)
  next
    case (Inr c)
    let ?w1 = "w\<lparr>rng := Suc (rng w)\<rparr>"
    obtain rf w2 where f: "getOrCreateFolder E tok ?w1 = (rf, w2)"
      by (cases "getOrCreateFolder E tok ?w1")
    have fr: "drive_files (drive w2) = drive_files (drive w)"
      using getOrCreateFolder_frame [OF f] by simp
    have "w' = w2"
      using run False Inr f
      by (cases rf)
         (auto simp: drive_storeEncryptedData_def Let_def split: if_splits option.splits)
    then show ?thesis using fr by simp
  qed
qed

lemma store_in_lands:
  assumes run: "store_in E M b data dt u = (Inr ident, u')" and ok: "store_lands M b u"
  shows "\<exists>c. encryptData E (rng u) data (encryptionKey (config M)) = Inr c
           \<and> c \<in> set (payloads_of b u')"
proof (cases b)
  case GoogleDrive
  then show ?thesis
    using run ok drive_store_lands [of E "accessToken M" data dt _ u ident u']
    by (simp add: store_lands_def)
next
  case Supabase
  with run obtain i where
    "supabase_storeEncryptedData E (userId (config M)) data dt (encryptionKey (config M)) u
       = (Inr i, u')"
    by (auto simp: returned_Inr)
  from supabase_store_lands [OF this] ok Supabase show ?thesis
    by (simp add: store_lands_def)
next
  case Local
  with run obtain i where
    "local_storeEncryptedData E (userId (config M)) data dt (encryptionKey (config M)) u
       = (Inr i, u')"
    by (auto simp: returned_Inr)
  from local_store_lands [OF this] Local show ?thesis by simp
qed

lemma store_in_fails:
  assumes run: "store_in E M b data dt u = (Inl e, u')" and b: "b \<noteq> Local"
  shows "payloads_of b u' = payloads_of b u"
proof (cases b)
  case GoogleDrive
  then show ?thesis
    using run drive_store_fails [of E "accessToken M" data dt _ u e u']
    by (simp add: drive_payloads_def)
next
  case Supabase
  with run have
    "supabase_storeEncryptedData E (userId (config M)) data dt (encryptionKey (config M)) u
       = (Inl e, u')"
    by (simp add: returned_Inl)
  from supabase_store_fails [OF this] Supabase show ?thesis
    by (simp add: supabase_payloads_def)
next
  case Local
  then show ?thesis using b by simp
qed

section \<open>storeData: fan-out\<close>

lemma storeData_loop_attempts:
  "store_attempts E M data dataType ss w = (attempts, w') \<Longrightarrow>
   storeData_loop E M data dataType ss results errors w
     = (stored_ids results attempts, errors @ failure_lines attempts, w')"
proof (induction ss arbitrary: w results errors attempts)
  case Nil
  then show ?case by simp
next
  case (Cons s ss)
  obtain r w1 where r: "store_in E M s data dataType w = (r, w1)"
    by (cases "store_in E M s data dataType w")
  obtain as where as: "store_attempts E M data dataType ss w1 = (as, w')"
    using Cons.prems r by (auto split: prod.splits)
  have att: "attempts = (s, r) # as" using Cons.prems r as by simp
  show ?case
  proof (cases r)
    case (Inl e)
    show ?thesis using r Inl att Cons.IH [OF as] by simp
  next
    case (Inr ident)
    show ?thesis using r Inr att Cons.IH [OF as] by (simp add: fun_upd_def)
  qed
qed

lemma store_attempts_backends:
  "store_attempts E M data dataType ss w = (attempts, w') \<Longrightarrow> map fst attempts = ss"
proof (induction ss arbitrary: w attempts)
  case Nil
  then show ?case by simp
next
  case (Cons s ss)
  then show ?case by (auto split: prod.splits)
qed

lemma failure_lines_length: "length (failure_lines attempts) \<le> length attempts"
  by (induction attempts rule: failure_lines.induct) auto

lemma failure_lines_all:
  "(length (failure_lines attempts) = length attempts) = every_attempt_failed attempts"
proof (induction attempts rule: failure_lines.induct)
  case 1
  then show ?case by (simp add: every_attempt_failed_def)
next
  case (2 storage e attempts)
  then show ?case by (simp add: every_attempt_failed_def)
next
  case (3 storage ident attempts)
  have "length (failure_lines attempts) \<le> length attempts" by (rule failure_lines_length)
  then show ?case by (simp add: every_attempt_failed_def)
qed

lemma failure_lines_text:
  "every_attempt_failed attempts \<Longrightarrow>
     failure_lines attempts
       = map (\<lambda>a. storage_name (fst a) @ '': '' @ error_toString (projl (snd a))) attempts"
  by (induction attempts rule: failure_lines.induct)
     (simp_all add: every_attempt_failed_def error_line_def)

lemma dom_stored_ids:
  "dom (stored_ids results attempts)
     = dom results \<union> {s. \<exists>ident. (s, Inr ident) \<in> set attempts}"
proof (induction results attempts rule: stored_ids.induct)
  case (1 results)
  then show ?case by simp
next
  case (2 results storage e attempts)
  then show ?case by simp
next
  case (3 results storage ident attempts)
  have "dom (results(storage \<mapsto> ident)) = insert storage (dom results)" by simp
  with 3 show ?case by (simp del: dom_fun_upd fun_upd_apply) blast
qed

lemma stored_ids_other:
  "b \<notin> fst ` set attempts \<Longrightarrow> stored_ids results attempts b = results b"
  by (induction results attempts rule: stored_ids.induct) auto

lemma stored_ids_distinct:
  "distinct (map fst attempts) \<Longrightarrow> (b, Inr ident) \<in> set attempts \<Longrightarrow>
     stored_ids results attempts b = Some ident"
proof (induction results attempts rule: stored_ids.induct)
  case (1 results)
  then show ?case by simp
next
  case (2 results storage e attempts)
  then show ?case by auto
next
  case (3 results storage ident' attempts)
  show ?case
  proof (cases "(b, Inr ident) = (storage, Inr ident')")
    case True
    then have "b \<notin> fst ` set attempts" using "3.prems"(1) by auto
    from stored_ids_other [OF this] True show ?thesis by simp
  next
    case False
    then have "(b, Inr ident) \<in> set attempts" using "3.prems"(2) by auto
    then show ?thesis using "3.IH" "3.prems"(1) by (simp add: fun_upd_def)
  qed
qed

lemma store_attempts_each:
  "store_attempts E M data dt ss w = (attempts, w') \<Longrightarrow> distinct ss \<Longrightarrow>
     (\<forall>b. b \<notin> set ss \<longrightarrow> state_of b w' = state_of b w)
     \<and> (\<forall>b r. (b, r) \<in> set attempts \<longrightarrow>
          (\<exists>u. state_of b u = state_of b w \<and> fst (store_in E M b data dt u) = r
               \<and> state_of b (snd (store_in E M b data dt u)) = state_of b w'))"
proof (induction ss arbitrary: w attempts)
  case Nil
  then show ?case by simp
next
  case (Cons s ss)
  obtain r w1 where r: "store_in E M s data dt w = (r, w1)"
    by (cases "store_in E M s data dt w")
  obtain as where as: "store_attempts E M data dt ss w1 = (as, w')"
    using Cons.prems(1) r by (auto split: prod.splits)
  have att: "attempts = (s, r) # as" using Cons.prems(1) r as by simp
  from Cons.prems(2) have d: "distinct ss" "s \<notin> set ss" by simp_all
  note IH = Cons.IH [OF as d(1)]
  have frame1: "\<And>b'. b' \<noteq> s \<Longrightarrow> state_of b' w1 = state_of b' w"
    using store_in_frame [of _ s E M data dt w] r by simp
  have names: "map fst as = ss" using as by (rule store_attempts_backends)
  show ?case
  proof (intro conjI allI impI)
    fix b
    assume "b \<notin> set (s # ss)"
    then have "b \<noteq> s" "b \<notin> set ss" by simp_all
    then show "state_of b w' = state_of b w" using IH frame1 by simp
  next
    fix b r'
    assume "(b, r') \<in> set attempts"
    then consider "b = s" "r' = r" | "(b, r') \<in> set as" using att by auto
    then show "\<exists>u. state_of b u = state_of b w \<and> fst (store_in E M b data dt u) = r'
               \<and> state_of b (snd (store_in E M b data dt u)) = state_of b w'"
    proof cases
      case 1
      have "state_of s w' = state_of s w1" using IH d(2) by simp
      then have "state_of b w = state_of b w \<and> fst (store_in E M b data dt w) = r'
               \<and> state_of b (snd (store_in E M b data dt w)) = state_of b w'"
        using 1 r by simp
      then show ?thesis by blast
    next
      case 2
      then have "b \<in> set ss" using names by force
      then have "b \<noteq> s" using d(2) by auto
      from IH 2 obtain u where
        "state_of b u = state_of b w1" "fst (store_in E M b data dt u) = r'"
        "state_of b (snd (store_in E M b data dt u)) = state_of b w'"
        by blast
      then show ?thesis using frame1 [OF \<open>b \<noteq> s\<close>] by auto
    qed
  qed
qed

text \<open>
  Claim C2, as the code has it. \<open>storeData\<close> attempts a store on every enabled backend,
  in order and whatever became of the others. It throws exactly when every attempt
  threw, and the error is then the text \<open>All storage options failed: \<close> followed by one
  line for every backend attempted, the name of the backend and the error of its store,
  joined by commas. Otherwise it returns the map of what the stores that returned have
  returned, whose keys are exactly the backends whose store returned; the error lines
  are dropped. When the enabled backends are distinct, a backend in the map on which a
  store lands holds a ciphertext of the value afterwards, and a remote backend that is
  not in the map holds the payloads it held before.
\<close>

theorem storeData_fan_out:
  assumes run: "store_attempts E M data dataType (enabledStorages (config M)) w = (attempts, w')"
  shows "map fst attempts = enabledStorages (config M)
     \<and> storeData E M data dataType w
         = (if every_attempt_failed attempts
            then Inl (Error (''All storage options failed: ''
                               @ join '', '' (failure_lines attempts)))
            else Inr (stored_ids Map.empty attempts), w')
     \<and> (every_attempt_failed attempts \<longrightarrow>
          failure_lines attempts
            = map (\<lambda>a. storage_name (fst a) @ '': '' @ error_toString (projl (snd a)))
                attempts)
     \<and> dom (stored_ids Map.empty attempts) = {b. \<exists>ident. (b, Inr ident) \<in> set attempts}
     \<and> (distinct (enabledStorages (config M)) \<longrightarrow>
          (\<forall>b ident. (stored_ids Map.empty attempts b = Some ident)
                       = ((b, Inr ident) \<in> set attempts))
          \<and> (\<forall>b ident. (b, Inr ident) \<in> set attempts \<and> store_lands M b w \<longrightarrow>
               (\<exists>salt c. encryptData E salt data (encryptionKey (config M)) = Inr c
                          \<and> c \<in> set (payloads_of b w')))
          \<and> (\<forall>b e. (b, Inl e) \<in> set attempts \<and> b \<noteq> Local \<longrightarrow>
               payloads_of b w' = payloads_of b w))"
proof (intro conjI impI allI)
  show m: "map fst attempts = enabledStorages (config M)"
    using run by (rule store_attempts_backends)
  then have len: "length attempts = length (enabledStorages (config M))"
    by (metis length_map)
  have loop: "storeData_loop E M data dataType (enabledStorages (config M)) Map.empty [] w
      = (stored_ids Map.empty attempts, failure_lines attempts, w')"
    using storeData_loop_attempts [OF run, of Map.empty "[]"] by simp
  show "storeData E M data dataType w
         = (if every_attempt_failed attempts
            then Inl (Error (''All storage options failed: ''
                               @ join '', '' (failure_lines attempts)))
            else Inr (stored_ids Map.empty attempts), w')"
    unfolding storeData_def loop all_failed_def
    using failure_lines_all [of attempts] len by simp
  show "dom (stored_ids Map.empty attempts) = {b. \<exists>ident. (b, Inr ident) \<in> set attempts}"
    using dom_stored_ids [of Map.empty attempts] by simp
  {
    assume "every_attempt_failed attempts"
    then show "failure_lines attempts
            = map (\<lambda>a. storage_name (fst a) @ '': '' @ error_toString (projl (snd a)))
                attempts"
      by (rule failure_lines_text)
  }
  {
    assume dist: "distinct (enabledStorages (config M))"
    then have dm: "distinct (map fst attempts)" using m by simp
    note each = store_attempts_each [OF run dist]
    {
      fix b ident
      show "(stored_ids Map.empty attempts b = Some ident) = ((b, Inr ident) \<in> set attempts)"
      proof
        assume "(b, Inr ident) \<in> set attempts"
        then show "stored_ids Map.empty attempts b = Some ident"
          by (rule stored_ids_distinct [OF dm])
      next
        assume some: "stored_ids Map.empty attempts b = Some ident"
        then have "b \<in> dom (stored_ids Map.empty attempts)" by blast
        then obtain ident' where i: "(b, Inr ident') \<in> set attempts"
          using dom_stored_ids [of Map.empty attempts] by auto
        from stored_ids_distinct [OF dm i, of Map.empty] some have "ident' = ident" by simp
        with i show "(b, Inr ident) \<in> set attempts" by simp
      qed
    }
    {
      fix b ident
      assume h: "(b, Inr ident) \<in> set attempts \<and> store_lands M b w"
      with each obtain u where
        u: "state_of b u = state_of b w" "fst (store_in E M b data dataType u) = Inr ident"
           "state_of b (snd (store_in E M b data dataType u)) = state_of b w'"
        by blast
      let ?u' = "snd (store_in E M b data dataType u)"
      have r: "store_in E M b data dataType u = (Inr ident, ?u')"
        using u(2) by (simp add: prod_eq_iff)
      have "store_lands M b u" using h store_lands_state [OF u(1), of M] by simp
      from store_in_lands [OF r this] obtain c where
        c: "encryptData E (rng u) data (encryptionKey (config M)) = Inr c"
           "c \<in> set (payloads_of b ?u')"
        by blast
      from c(2) payloads_of_state [OF u(3)] have "c \<in> set (payloads_of b w')" by simp
      with c(1) show "\<exists>salt c. encryptData E salt data (encryptionKey (config M)) = Inr c
                          \<and> c \<in> set (payloads_of b w')"
        by blast
    }
    {
      fix b e
      assume h: "(b, Inl e) \<in> set attempts \<and> b \<noteq> Local"
      with each obtain u where
        u: "state_of b u = state_of b w" "fst (store_in E M b data dataType u) = Inl e"
           "state_of b (snd (store_in E M b data dataType u)) = state_of b w'"
        by blast
      let ?u' = "snd (store_in E M b data dataType u)"
      have r: "store_in E M b data dataType u = (Inl e, ?u')"
        using u(2) by (simp add: prod_eq_iff)
      from h have "b \<noteq> Local" by simp
      from store_in_fails [OF r this] payloads_of_state [OF u(1)] payloads_of_state [OF u(3)]
      show "payloads_of b w' = payloads_of b w" by simp
    }
  }
qed

text \<open>
  Local store and hosted store enabled. With nobody signed in, the local store takes the
  record and the hosted store throws: the map has the local identifier alone, the local
  store holds the ciphertext and the hosted store holds nothing. With a quota that
  refuses every write as well, both throw.
\<close>

theorem storeData_fan_out_witness:
  "result_entries (fst (storeData demo_env (demo_manager [Local, Supabase]) ''Paracetamol''
       ''medicines'' demo_signed_out)) = Inr [None, None, Some (Id ''id1'')]
   \<and> (\<exists>salt c. encryptData demo_env salt ''Paracetamol'' ''k'' = Inr c
        \<and> c \<in> set (payloads_of Local
                      (snd (storeData demo_env (demo_manager [Local, Supabase]) ''Paracetamol''
                              ''medicines'' demo_signed_out))))
   \<and> payloads_of Supabase
        (snd (storeData demo_env (demo_manager [Local, Supabase]) ''Paracetamol''
                ''medicines'' demo_signed_out)) = []
   \<and> fst (storeData demo_full_env (demo_manager [Local, Supabase]) ''Paracetamol''
       ''medicines'' demo_signed_out)
     = Inl (Error ''All storage options failed: local: Error: Failed to store data locally: QuotaExceededError: The quota has been exceeded., supabase: Error: Failed to store data in Supabase: Error: User not authenticated'')"
proof -
  let ?M = "demo_manager [Local, Supabase]"
  have en: "enabledStorages (config ?M) = [Local, Supabase]"
    by (simp add: demo_manager_def new_StorageManager_def)
  have key: "encryptionKey (config ?M) = ''k''"
    by (simp add: demo_manager_def new_StorageManager_def)
  let ?A = "store_attempts demo_env ?M ''Paracetamol'' ''medicines'' [Local, Supabase]
              demo_signed_out"
  let ?B = "store_attempts demo_full_env ?M ''Paracetamol'' ''medicines'' [Local, Supabase]
              demo_signed_out"
  have a: "store_attempts demo_env ?M ''Paracetamol'' ''medicines''
             (enabledStorages (config ?M)) demo_signed_out = (fst ?A, snd ?A)"
    unfolding en by simp
  have b: "store_attempts demo_full_env ?M ''Paracetamol'' ''medicines''
             (enabledStorages (config ?M)) demo_signed_out = (fst ?B, snd ?B)"
    unfolding en by simp
  have dist: "distinct (enabledStorages (config ?M))" unfolding en by simp
  have a0: "fst ?A = [(Local, Inr (Id ''id1'')),
      (Supabase, Inl (Error ''Failed to store data in Supabase: Error: User not authenticated''))]"
    by code_simp
  have a1: "every_attempt_failed (fst ?A) = False" by code_simp
  have a2: "map (stored_ids Map.empty (fst ?A)) [GoogleDrive, Supabase, Local]
      = [None, None, Some (Id ''id1'')]" by code_simp
  have a3: "store_lands ?M Local demo_signed_out" by (simp add: store_lands_def)
  have a4: "payloads_of Supabase demo_signed_out = []" by code_simp
  have b1: "every_attempt_failed (fst ?B) = True" by code_simp
  have b2: "''All storage options failed: '' @ join '', '' (failure_lines (fst ?B))
      = ''All storage options failed: local: Error: Failed to store data locally: QuotaExceededError: The quota has been exceeded., supabase: Error: Failed to store data in Supabase: Error: User not authenticated''"
    by code_simp
  note ta = storeData_fan_out [OF a]
  note tb = storeData_fan_out [OF b]
  from ta a1 have ra: "storeData demo_env ?M ''Paracetamol'' ''medicines'' demo_signed_out
      = (Inr (stored_ids Map.empty (fst ?A)), snd ?A)" by simp
  from tb b1 b2 have rb: "fst (storeData demo_full_env ?M ''Paracetamol'' ''medicines''
      demo_signed_out)
     = Inl (Error ''All storage options failed: local: Error: Failed to store data locally: QuotaExceededError: The quota has been exceeded., supabase: Error: Failed to store data in Supabase: Error: User not authenticated'')"
    by simp
  have inA: "(Local, Inr (Id ''id1'')) \<in> set (fst ?A)"
    "(Supabase, Inl (Error ''Failed to store data in Supabase: Error: User not authenticated''))
       \<in> set (fst ?A)"
    unfolding a0 by simp_all
  from ta dist inA(1) a3
  have p1: "\<exists>salt c. encryptData demo_env salt ''Paracetamol'' (encryptionKey (config ?M)) = Inr c
        \<and> c \<in> set (payloads_of Local (snd ?A))"
    by blast
  from ta dist inA(2)
  have p2: "payloads_of Supabase (snd ?A) = payloads_of Supabase demo_signed_out"
    by blast
  show ?thesis
    using p1 p2 rb a2 unfolding ra key a4 by (simp add: result_entries_def)
qed

text \<open>
  The claim as stated fails on the failure detail. Whether the hosted store fails because
  nobody is signed in or because the service is down, the caller receives the same
  value, with no entry for the hosted store.
\<close>

theorem storeData_detail_counterexample:
  "result_entries (fst (storeData demo_env (demo_manager [Local, Supabase]) ''Paracetamol''
       ''medicines'' demo_signed_out)) = Inr [None, None, Some (Id ''id1'')]
   \<and> result_entries (fst (storeData demo_env (demo_manager [Local, Supabase]) ''Paracetamol''
       ''medicines'' demo_outage)) = Inr [None, None, Some (Id ''id1'')]
   \<and> failure_lines (fst (store_attempts demo_env (demo_manager [Local, Supabase])
         ''Paracetamol'' ''medicines'' [Local, Supabase] demo_signed_out))
       = [''supabase: Error: Failed to store data in Supabase: Error: User not authenticated'']
   \<and> failure_lines (fst (store_attempts demo_env (demo_manager [Local, Supabase])
         ''Paracetamol'' ''medicines'' [Local, Supabase] demo_outage))
       = [''supabase: Error: Failed to store data in Supabase: [object Object]'']"
  by code_simp

text \<open>
  Where a store does not land, the map names a backend that holds nothing. The hosted
  store without its table, without the remote procedure and without a profile row of the
  user falls back to an update that matches no row; the Drive answers the upload with an
  error, and \<open>file.id\<close> is \<open>undefined\<close>.
\<close>

lemma storeData_key_without_payload:
  "result_entries (fst (storeData demo_env (demo_manager [Supabase]) ''Paracetamol''
       ''medicines'' demo_fallback_world)) = Inr [None, Some (Id ''id1''), None]
   \<and> payloads (snd (storeData demo_env (demo_manager [Supabase]) ''Paracetamol''
                       ''medicines'' demo_fallback_world)) = []
   \<and> result_entries (fst (storeData demo_env (demo_manager [GoogleDrive]) ''Paracetamol''
       ''medicines'' demo_refusing_world)) = Inr [Some Undefined, None, None]
   \<and> payloads (snd (storeData demo_env (demo_manager [GoogleDrive]) ''Paracetamol''
                       ''medicines'' demo_refusing_world)) = []"
  by code_simp

section \<open>update\<close>

text \<open>
  Claim C7, as the code has it. Only two backends have an update operation. The local
  one (which takes the owner and the data type as well) re-encrypts the value; when
  nothing is stored under the key of owner, data type and identifier it fails with
  \<open>Item not found\<close>, and otherwise, if the write is accepted, it overwrites payload and
  update timestamp of that record and leaves every other key as it was. The hosted one
  re-encrypts the value and, when the service reports no error, overwrites payload and
  update timestamp of every row with the identifier and returns normally.
\<close>

theorem update_existing_or_missing:
  "encryptData E (rng w) data key = Inr encrypted \<Longrightarrow>
   (getItem (ls w) (storageKey user dataType ident) = None \<longrightarrow>
      local_updateEncryptedData E user ident dataType data key w
        = (Inl (Error ''Failed to update data in localStorage: Error: Item not found''),
           w\<lparr>rng := Suc (rng w)\<rparr>))
   \<and> (\<forall>x s'. getItem (ls w) (storageKey user dataType ident) = Some (LItem x)
          \<and> setItem E (ls w) (storageKey user dataType ident)
               (LItem (x\<lparr>item_encryptedContent := encrypted, item_updatedAt := clock w\<rparr>))
              = Inr s' \<longrightarrow>
      local_updateEncryptedData E user ident dataType data key w
        = (Inr (), w\<lparr>rng := Suc (rng w), ls := s'\<rparr>)
      \<and> (\<forall>k. getItem s' k =
            (if k = storageKey user dataType ident
             then Some (LItem (x\<lparr>item_encryptedContent := encrypted,
                                  item_updatedAt := clock w\<rparr>))
             else getItem (ls w) k)))
   \<and> (sb_table_error (sb w) = None \<longrightarrow>
      supabase_updateEncryptedData E ident data key w
        = (Inr (),
           w\<lparr>rng := Suc (rng w),
             sb := (sb w)\<lparr>sb_rows :=
                      map (\<lambda>r. if row_id r = ident
                                then r\<lparr>row_encrypted_content := encrypted,
                                       row_updated_at := clock w\<rparr>
                                else r) (sb_rows (sb w))\<rparr>\<rparr>))"
proof (intro conjI impI allI)
  assume e: "encryptData E (rng w) data key = Inr encrypted"
  {
    assume "getItem (ls w) (storageKey user dataType ident) = None"
    then show "local_updateEncryptedData E user ident dataType data key w
        = (Inl (Error ''Failed to update data in localStorage: Error: Item not found''),
           w\<lparr>rng := Suc (rng w)\<rparr>)"
      using e by (simp add: local_updateEncryptedData_def local_update_failed_def)
  }
  {
    fix x s'
    assume h: "getItem (ls w) (storageKey user dataType ident) = Some (LItem x)
          \<and> setItem E (ls w) (storageKey user dataType ident)
               (LItem (x\<lparr>item_encryptedContent := encrypted, item_updatedAt := clock w\<rparr>))
              = Inr s'"
    then show "local_updateEncryptedData E user ident dataType data key w
        = (Inr (), w\<lparr>rng := Suc (rng w), ls := s'\<rparr>)"
      using e by (simp add: local_updateEncryptedData_def)
    fix k
    from h have "s' = AList.update (storageKey user dataType ident)
        (LItem (x\<lparr>item_encryptedContent := encrypted, item_updatedAt := clock w\<rparr>)) (ls w)"
      by (auto simp: setItem_def Let_def split: if_splits)
    then show "getItem s' k =
            (if k = storageKey user dataType ident
             then Some (LItem (x\<lparr>item_encryptedContent := encrypted,
                                  item_updatedAt := clock w\<rparr>))
             else getItem (ls w) k)"
      by (simp add: getItem_update)
  }
  {
    assume "sb_table_error (sb w) = None"
    then show "supabase_updateEncryptedData E ident data key w
        = (Inr (),
           w\<lparr>rng := Suc (rng w),
             sb := (sb w)\<lparr>sb_rows :=
                      map (\<lambda>r. if row_id r = ident
                                then r\<lparr>row_encrypted_content := encrypted,
                                       row_updated_at := clock w\<rparr>
                                else r) (sb_rows (sb w))\<rparr>\<rparr>)"
      using e by (simp add: supabase_updateEncryptedData_def Let_def)
  }
qed

theorem update_existing_or_missing_witness:
  "fst (local_updateEncryptedData demo_env ''u1'' ''id2'' ''medicines'' ''Ibuprofen'' ''k''
          demo_later_world)
     = Inl (Error ''Failed to update data in localStorage: Error: Item not found'')
   \<and> fst (local_updateEncryptedData demo_env ''u1'' ''id1'' ''medicines'' ''Ibuprofen'' ''k''
          demo_later_world) = Inr ()
   \<and> getItem (ls (snd (local_updateEncryptedData demo_env ''u1'' ''id1'' ''medicines''
                          ''Ibuprofen'' ''k'' demo_later_world)))
        ''pharmacare_encrypted_u1_medicines_id1''
     = Some (LItem \<lparr>item_id = ''id1'', item_userId = ''u1'', item_dataType = ''medicines'',
                     item_encryptedContent = ''kneforpubIj'',
                     item_storageLocation = ''local'',
                     item_createdAt = 1000, item_updatedAt = 2000\<rparr>)
   \<and> sb_rows (sb (snd (supabase_updateEncryptedData demo_env ''id3'' ''Ibuprofen'' ''k''
                          demo_hosted_world)))
     = [\<lparr>row_id = ''id3'', row_user_id = ''u1'', row_data_type = ''medicines'',
         row_encrypted_content = ''kneforpubIj'', row_storage_location = ''supabase'',
         row_created_at = 1000, row_updated_at = 2000\<rparr>]"
proof -
  let ?x = "\<lparr>item_id = ''id1'', item_userId = ''u1'', item_dataType = ''medicines'',
             item_encryptedContent = ''klomatecaraPj'', item_storageLocation = ''local'',
             item_createdAt = 1000, item_updatedAt = 1000\<rparr>"
  let ?x' = "?x\<lparr>item_encryptedContent := ''kneforpubIj'', item_updatedAt := clock demo_later_world\<rparr>"
  let ?s' = "AList.update (storageKey ''u1'' ''medicines'' ''id1'') (LItem ?x') (ls demo_later_world)"
  have e1: "encryptData demo_env (rng demo_later_world) ''Ibuprofen'' ''k'' = Inr ''kneforpubIj''"
    by code_simp
  have e2: "encryptData demo_env (rng demo_hosted_world) ''Ibuprofen'' ''k'' = Inr ''kneforpubIj''"
    by code_simp
  have missing: "getItem (ls demo_later_world) (storageKey ''u1'' ''medicines'' ''id2'') = None"
    by code_simp
  have existing: "getItem (ls demo_later_world) (storageKey ''u1'' ''medicines'' ''id1'')
      = Some (LItem ?x)"
    by code_simp
  have written: "setItem demo_env (ls demo_later_world) (storageKey ''u1'' ''medicines'' ''id1'')
      (LItem ?x') = Inr ?s'"
    by (simp add: setItem_def demo_env_def)
  have up: "sb_table_error (sb demo_hosted_world) = None"
    by code_simp
  have key: "storageKey ''u1'' ''medicines'' ''id1'' = ''pharmacare_encrypted_u1_medicines_id1''"
    by code_simp
  have cl: "clock demo_later_world = 2000"
    by (simp add: demo_later_world_def)
  have rows: "map (\<lambda>r. if row_id r = ''id3''
                        then r\<lparr>row_encrypted_content := ''kneforpubIj'',
                               row_updated_at := clock demo_hosted_world\<rparr>
                        else r) (sb_rows (sb demo_hosted_world))
     = [\<lparr>row_id = ''id3'', row_user_id = ''u1'', row_data_type = ''medicines'',
         row_encrypted_content = ''kneforpubIj'', row_storage_location = ''supabase'',
         row_created_at = 1000, row_updated_at = 2000\<rparr>]"
    by (simp add: demo_hosted_world_def)
  note t1 = update_existing_or_missing
    [OF e1, where user = "''u1''" and dataType = "''medicines''" and ident = "''id2''"]
  note t2 = update_existing_or_missing
    [OF e1, where user = "''u1''" and dataType = "''medicines''" and ident = "''id1''"]
  note t3 = update_existing_or_missing
    [OF e2, where user = "''u1''" and dataType = "''medicines''" and ident = "''id3''"]
  have r1: "fst (local_updateEncryptedData demo_env ''u1'' ''id2'' ''medicines'' ''Ibuprofen'' ''k''
          demo_later_world)
     = Inl (Error ''Failed to update data in localStorage: Error: Item not found'')"
    using t1 missing by simp
  from t2 existing written have both:
    "local_updateEncryptedData demo_env ''u1'' ''id1'' ''medicines'' ''Ibuprofen'' ''k''
          demo_later_world
       = (Inr (), demo_later_world\<lparr>rng := Suc (rng demo_later_world), ls := ?s'\<rparr>)
     \<and> (\<forall>k. getItem ?s' k =
            (if k = storageKey ''u1'' ''medicines'' ''id1'' then Some (LItem ?x')
             else getItem (ls demo_later_world) k))"
    by blast
  then have
    r2: "local_updateEncryptedData demo_env ''u1'' ''id1'' ''medicines'' ''Ibuprofen'' ''k''
          demo_later_world
       = (Inr (), demo_later_world\<lparr>rng := Suc (rng demo_later_world), ls := ?s'\<rparr>)"
    and g: "getItem ?s' (storageKey ''u1'' ''medicines'' ''id1'') = Some (LItem ?x')"
    by simp_all
  have r3: "supabase_updateEncryptedData demo_env ''id3'' ''Ibuprofen'' ''k'' demo_hosted_world
      = (Inr (), demo_hosted_world\<lparr>rng := Suc (rng demo_hosted_world),
           sb := (sb demo_hosted_world)\<lparr>sb_rows :=
                      map (\<lambda>r. if row_id r = ''id3''
                                then r\<lparr>row_encrypted_content := ''kneforpubIj'',
                                       row_updated_at := clock demo_hosted_world\<rparr>
                                else r) (sb_rows (sb demo_hosted_world))\<rparr>\<rparr>)"
    using t3 up by blast
  show ?thesis
    using r1 g unfolding r2 r3 rows key cl by simp
qed

text \<open>
  The claim as stated fails for the hosted store: updating an identifier that no row has
  is not an error.
\<close>

theorem supabase_update_missing_counterexample:
  "sb_rows (sb demo_world) = []
   \<and> fst (supabase_updateEncryptedData demo_env ''no-such-id'' ''Ibuprofen'' ''k'' demo_world)
       = Inr ()"
  by code_simp

section \<open>The local index\<close>

text \<open>
  Claim C9 fails on the code. First, a store into a \<open>localStorage\<close> that accepts the
  record but refuses the index written after it: the call throws, the record stays and
  the index has no entry for it. Second, a store followed by a delete that names another
  data type: the record's key is not the one removed, but its identifier is filtered out
  of the index. Both end with one record and an empty index.
\<close>

theorem local_index_inconsistent:
  "fst (local_storeEncryptedData demo_tight_env ''u1'' ''Paracetamol'' ''medicines'' ''k''
          demo_world)
     = Inl (Error ''Failed to store data locally: QuotaExceededError: The quota has been exceeded.'')
   \<and> stored_records ''u1''
        (snd (local_storeEncryptedData demo_tight_env ''u1'' ''Paracetamol'' ''medicines'' ''k''
                demo_world)) = 1
   \<and> index_entries ''u1''
        (snd (local_storeEncryptedData demo_tight_env ''u1'' ''Paracetamol'' ''medicines'' ''k''
                demo_world)) = 0
   \<and> fst (local_storeEncryptedData demo_env ''u1'' ''Paracetamol'' ''medicines'' ''k''
            demo_world) = Inr ''id1''
   \<and> fst (local_deleteEncryptedData demo_env ''u1'' ''id1'' ''sales''
            (snd (local_storeEncryptedData demo_env ''u1'' ''Paracetamol'' ''medicines'' ''k''
                    demo_world))) = Inr ()
   \<and> stored_records ''u1''
        (snd (local_deleteEncryptedData demo_env ''u1'' ''id1'' ''sales''
            (snd (local_storeEncryptedData demo_env ''u1'' ''Paracetamol'' ''medicines'' ''k''
                    demo_world)))) = 1
   \<and> index_entries ''u1''
        (snd (local_deleteEncryptedData demo_env ''u1'' ''id1'' ''sales''
            (snd (local_storeEncryptedData demo_env ''u1'' ''Paracetamol'' ''medicines'' ''k''
                    demo_world)))) = 0"
  by code_simp

section \<open>syncData twice\<close>

lemma drive_store_appends:
  assumes run: "drive_storeEncryptedData E tok item dt key w = (Inr ident, w')"
    and ok: "drive_error (drive w) = None"
  shows "length (filter (\<lambda>f. prefix dt (file_name f)) (drive_files (drive w')))
       = Suc (length (filter (\<lambda>f. prefix dt (file_name f)) (drive_files (drive w))))
     \<and> drive_error (drive w') = None"
proof -
  from run have auth: "\<not> not_authenticated tok"
    by (auto simp: drive_storeEncryptedData_def split: if_splits)
  from run auth obtain c where c: "encryptData E (rng w) item key = Inr c"
    by (cases "encryptData E (rng w) item key") (auto simp: drive_storeEncryptedData_def)
  let ?w1 = "w\<lparr>rng := Suc (rng w)\<rparr>"
  obtain rf w2 where f: "getOrCreateFolder E tok ?w1 = (rf, w2)"
    by (cases "getOrCreateFolder E tok ?w1")
  have fr: "drive_files (drive w2) = drive_files (drive w)" "drive_error (drive w2) = None"
    using getOrCreateFolder_frame [OF f] ok by simp_all
  let ?file = "\<lparr>file_id = randomUUID E (rng w2),
                file_name = dt @ ''_'' @ show_nat (clock ?w1) @ ''.encrypted'',
                file_parent = projr rf, file_content = c\<rparr>"
  have "w' = w2\<lparr>rng := Suc (rng w2),
             drive := (drive w2)\<lparr>drive_files := drive_files (drive w2) @ [?file]\<rparr>\<rparr>"
    using run auth c f fr(2)
    by (cases rf) (auto simp: drive_storeEncryptedData_def Let_def split: if_splits)
  then show ?thesis using fr by simp
qed

lemma supabase_store_appends:
  assumes run: "supabase_storeEncryptedData E u item dt key w = (Inr ident, w')"
    and ok: "inserts_row (sb w)"
  shows "(\<exists>c. sb_rows (sb w') = sb_rows (sb w) @
           [\<lparr>row_id = ident, row_user_id = u, row_data_type = dt,
             row_encrypted_content = c, row_storage_location = ''supabase'',
             row_created_at = clock w, row_updated_at = clock w\<rparr>])
         \<and> inserts_row (sb w')"
proof -
  from run obtain user where user: "sb_session (sb w) = Some user"
    by (cases "sb_session (sb w)") (auto simp: supabase_storeEncryptedData_def)
  from run user obtain c where c: "encryptData E (rng w) item key = Inr c"
    by (cases "encryptData E (rng w) item key") (auto simp: supabase_storeEncryptedData_def)
  from supabase_store_paths [OF run c user] ok obtain w2 where
    ins: "supabase_insert E u item dt c w2 = (Inr ident, w')"
    and t: "sb_table_error (sb w2) = None"
    and w2: "sb_rows (sb w2) = sb_rows (sb w)" "inserts_row (sb w2)" "clock w2 = clock w"
    by blast
  from ins have "ident = randomUUID E (rng w2)"
    and "sb w' = (sb w2)\<lparr>sb_rows := sb_rows (sb w2) @
            [\<lparr>row_id = randomUUID E (rng w2), row_user_id = u, row_data_type = dt,
              row_encrypted_content = c, row_storage_location = ''supabase'',
              row_created_at = clock w2, row_updated_at = clock w2\<rparr>]\<rparr>"
    unfolding supabase_insert_row [OF t] by auto
  then show ?thesis using w2 by (auto simp: inserts_row_def)
qed

lemma local_store_appends:
  assumes run: "local_storeEncryptedData E u item dt key w = (Inr ident, w')"
    and quota: "\<forall>s. quota_ok E s"
  shows "\<exists>index e. getIndex (ls w) u = Inr index \<and> getIndex (ls w') u = Inr (index @ [e])
           \<and> entry_dataType e = dt"
proof -
  have set_ok: "\<And>s k v. setItem E s k v = Inr (AList.update k v s)"
    using quota by (simp add: setItem_def)
  from run have sup: "storage_supported E"
    by (auto simp: local_storeEncryptedData_def split: if_splits)
  from run sup obtain c where c: "encryptData E (rng w) item key = Inr c"
    by (cases "encryptData E (rng w) item key") (auto simp: local_storeEncryptedData_def)
  let ?ident = "randomUUID E (Suc (rng w))"
  let ?w1 = "w\<lparr>rng := Suc (Suc (rng w))\<rparr>"
  let ?key = "storageKey u dt ?ident"
  let ?item = "\<lparr>item_id = ?ident, item_userId = u, item_dataType = dt,
                item_encryptedContent = c, item_storageLocation = ''local'',
                item_createdAt = clock w, item_updatedAt = clock w\<rparr>"
  let ?s1 = "AList.update ?key (LItem ?item) (ls w)"
  let ?w3 = "?w1\<lparr>ls := ?s1\<rparr>"
  obtain r4 w4 where ui: "updateIndex E u ?ident dt ?w3 = (r4, w4)"
    by (cases "updateIndex E u ?ident dt ?w3")
  have res: "(case r4 of Inl e \<Rightarrow> (Inl (local_store_failed e), w4)
                        | Inr u' \<Rightarrow> (Inr ?ident, w4)) = (Inr ident, w')"
    using run sup c ui by (simp add: local_storeEncryptedData_def Let_def set_ok)
  then have r4: "r4 = Inr ()" and w4: "w4 = w'" by (cases r4; simp)+
  from ui r4 obtain index where
    gi: "getIndex ?s1 u = Inr index"
    and w4': "w4 = ?w3\<lparr>ls := AList.update (indexKey u)
        (LIndex (index @ [\<lparr>entry_id = ?ident, entry_dataType = dt,
                            entry_createdAt = clock ?w3\<rparr>])) ?s1\<rparr>"
    by (cases "getIndex ?s1 u") (auto simp: updateIndex_def set_ok)
  have ne: "indexKey u \<noteq> ?key"
  proof
    assume "indexKey u = ?key"
    then have "getIndex ?s1 u = Inl (NamedError ''TypeError'' ''index is not an array'')"
      by (simp add: getIndex_def getItem_update)
    with gi show False by simp
  qed
  have g0: "getIndex (ls w) u = Inr index"
    using gi ne by (simp add: getIndex_def getItem_update)
  have "ls w' = AList.update (indexKey u)
        (LIndex (index @ [\<lparr>entry_id = ?ident, entry_dataType = dt,
                            entry_createdAt = clock ?w3\<rparr>])) ?s1"
    by (subst w4' [unfolded w4]) simp
  then have g1: "getIndex (ls w') u = Inr (index @ [\<lparr>entry_id = ?ident, entry_dataType = dt,
                            entry_createdAt = clock ?w3\<rparr>])"
    by (simp add: getIndex_def getItem_update)
  from g0 g1 show ?thesis by auto
qed

lemma store_in_appends:
  assumes run: "store_in E M q item dt w = (Inr ident, w')"
    and ok: "service_takes q w"
    and quota: "q = Local \<Longrightarrow> \<forall>s. quota_ok E s"
  shows "held M q dt w' = Suc (held M q dt w) \<and> service_takes q w'"
proof (cases q)
  case GoogleDrive
  then show ?thesis
    using run ok drive_store_appends [of E "accessToken M" item dt _ w ident w']
    by simp
next
  case Supabase
  with run obtain i where
    "supabase_storeEncryptedData E (userId (config M)) item dt (encryptionKey (config M)) w
       = (Inr i, w')"
    by (auto simp: returned_Inr)
  from supabase_store_appends [OF this] ok Supabase show ?thesis by auto
next
  case Local
  with run obtain i where
    "local_storeEncryptedData E (userId (config M)) item dt (encryptionKey (config M)) w
       = (Inr i, w')"
    by (auto simp: returned_Inr)
  from local_store_appends [OF this quota [OF Local]] show ?thesis using Local by auto
qed

lemma storeDataInSpecificStorage_frame:
  "b' \<noteq> b \<Longrightarrow>
     state_of b' (snd (storeDataInSpecificStorage E M items dt b w)) = state_of b' w"
proof (induction items arbitrary: w)
  case Nil
  then show ?case by simp
next
  case (Cons item items)
  obtain r w1 where s: "store_in E M b item dt w = (r, w1)"
    by (cases "store_in E M b item dt w")
  have f: "state_of b' w1 = state_of b' w"
    using store_in_frame [OF Cons.prems, of E M item dt w] s by simp
  show ?case
  proof (cases r)
    case (Inl e)
    then show ?thesis using s f by simp
  next
    case (Inr ident)
    then show ?thesis using s f Cons.IH [OF Cons.prems, of w1] by simp
  qed
qed

lemma storeDataInSpecificStorage_appends:
  "storeDataInSpecificStorage E M items dt b w = (Inr (), w') \<Longrightarrow> service_takes b w \<Longrightarrow>
   (b = Local \<Longrightarrow> \<forall>s. quota_ok E s) \<Longrightarrow>
     held M b dt w' = held M b dt w + length items \<and> service_takes b w'"
proof (induction items arbitrary: w)
  case Nil
  then show ?case by simp
next
  case (Cons item items)
  obtain r w1 where s: "store_in E M b item dt w = (r, w1)"
    by (cases "store_in E M b item dt w")
  from Cons.prems(1) s obtain ident where r: "r = Inr ident"
    by (cases r) auto
  from Cons.prems(1) s r have rest: "storeDataInSpecificStorage E M items dt b w1 = (Inr (), w')"
    by simp
  from store_in_appends [OF s [unfolded r] Cons.prems(2) Cons.prems(3)]
  have one: "held M b dt w1 = Suc (held M b dt w)" "service_takes b w1" by simp_all
  from Cons.IH [OF rest one(2) Cons.prems(3)] one(1) show ?case by simp
qed

lemma syncData_loop_appends:
  "syncData_loop E M items dt rest w = (Inr (), w') \<Longrightarrow> distinct rest \<Longrightarrow>
     (\<forall>b'. b' \<notin> set rest \<longrightarrow> state_of b' w' = state_of b' w)
     \<and> (\<forall>q \<in> set rest. service_takes q w \<and> (q = Local \<longrightarrow> (\<forall>s. quota_ok E s)) \<longrightarrow>
           held M q dt w' = held M q dt w + length items \<and> service_takes q w')"
proof (induction rest arbitrary: w)
  case Nil
  then show ?case by simp
next
  case (Cons b rest)
  obtain r w1 where s: "storeDataInSpecificStorage E M items dt b w = (r, w1)"
    by (cases "storeDataInSpecificStorage E M items dt b w")
  from Cons.prems(1) s have r: "r = Inr ()" by (cases r) auto
  from Cons.prems(1) s r have loop: "syncData_loop E M items dt rest w1 = (Inr (), w')"
    by simp
  from Cons.prems(2) have d: "distinct rest" "b \<notin> set rest" by simp_all
  note IH = Cons.IH [OF loop d(1)]
  have frame1: "\<And>b'. b' \<noteq> b \<Longrightarrow> state_of b' w1 = state_of b' w"
    using storeDataInSpecificStorage_frame [of _ b E M items dt w] s by simp
  show ?case
  proof (intro conjI allI ballI impI)
    fix b'
    assume "b' \<notin> set (b # rest)"
    then have "b' \<noteq> b" "b' \<notin> set rest" by simp_all
    then show "state_of b' w' = state_of b' w" using IH frame1 by simp
  next
    fix q
    assume q: "q \<in> set (b # rest)"
      and ok: "service_takes q w \<and> (q = Local \<longrightarrow> (\<forall>s. quota_ok E s))"
    have both: "held M q dt w' = held M q dt w + length items \<and> service_takes q w'"
    proof (cases "q = b")
      case True
      from storeDataInSpecificStorage_appends [OF s [unfolded r]] ok True
      have one: "held M q dt w1 = held M q dt w + length items" "service_takes q w1"
        by simp_all
      have "state_of q w' = state_of q w1" using IH d(2) True by simp
      then show ?thesis
        using one held_state [of q w' w1 M dt] service_takes_state [of q w' w1] by simp
    next
      case False
      then have "q \<in> set rest" using q by simp
      moreover have "service_takes q w1"
        using ok frame1 [OF False] service_takes_state [of q w1 w] by simp
      ultimately have "held M q dt w' = held M q dt w1 + length items \<and> service_takes q w'"
        using IH ok by blast
      then show ?thesis using frame1 [OF False] held_state [of q w1 w M dt] by simp
    qed
    from both show "held M q dt w' = held M q dt w + length items" ..
    from both show "service_takes q w'" ..
  qed
qed

lemma syncData_success:
  assumes en: "enabledStorages (config M) = p # rest" and p: "p \<noteq> GoogleDrive"
    and run: "syncData E M dt w = (Inr (), w')"
  shows "\<exists>items. fst (retrieve_from E M p dt w) = Inr items
           \<and> syncData_loop E M items dt rest w = (Inr (), w')"
proof -
  let ?primary = "fst (retrieve_from E M p dt w)"
  have dr: "drop 1 (enabledStorages (config M)) = rest" using en by simp
  have sd: "syncData E M dt w =
      (case ?primary of
         Inl e \<Rightarrow> (Inl (sync_failed e), w)
       | Inr items \<Rightarrow>
           (case syncData_loop E M items dt rest w of
              (Inl e, w') \<Rightarrow> (Inl (sync_failed e), w')
            | (Inr u, w') \<Rightarrow> (Inr (), w')))"
    unfolding syncData_def dr using en p by (cases p) simp_all
  from run sd obtain items where items: "?primary = Inr items"
    by (cases ?primary) auto
  obtain r w1 where l: "syncData_loop E M items dt rest w = (r, w1)"
    by (cases "syncData_loop E M items dt rest w")
  from run sd items l have "r = Inr ()" "w1 = w'" by (cases r; simp)+
  with items l show ?thesis by blast
qed

lemma syncData_twice_core:
  assumes en: "enabledStorages (config M) = p # rest"
    and dist: "distinct (p # rest)"
    and p: "p \<noteq> GoogleDrive"
    and q: "q \<in> set rest"
    and ok: "service_takes q w"
    and quota: "q = Local \<longrightarrow> (\<forall>s. quota_ok E s)"
    and primary: "fst (retrieve_from E M p dt w) = Inr items"
    and first: "syncData E M dt w = (Inr (), w1)"
    and second: "syncData E M dt w1 = (Inr (), w2)"
  shows "held M q dt w1 = held M q dt w + length items
       \<and> held M q dt w2 = held M q dt w + 2 * length items
       \<and> fst (retrieve_from E M p dt w2) = Inr items"
proof -
  from dist have d: "distinct rest" "p \<notin> set rest" by simp_all
  from syncData_success [OF en p first] primary
  have l1: "syncData_loop E M items dt rest w = (Inr (), w1)" by auto
  note a1 = syncData_loop_appends [OF l1 d(1)]
  from a1 q ok quota have h1: "held M q dt w1 = held M q dt w + length items"
    and ok1: "service_takes q w1" by blast+
  from a1 d(2) have "state_of p w1 = state_of p w" by blast
  from retrieve_state [OF p this, of E M dt] primary
  have primary1: "fst (retrieve_from E M p dt w1) = Inr items" by simp
  from syncData_success [OF en p second] primary1
  have l2: "syncData_loop E M items dt rest w1 = (Inr (), w2)" by auto
  note a2 = syncData_loop_appends [OF l2 d(1)]
  from a2 q ok1 quota have h2: "held M q dt w2 = held M q dt w1 + length items" by blast
  from a2 d(2) have "state_of p w2 = state_of p w1" by blast
  from retrieve_state [OF p this, of E M dt] primary1
  have primary2: "fst (retrieve_from E M p dt w2) = Inr items" by simp
  from h1 h2 primary2 show ?thesis by simp
qed

lemma decryptData_unlimited: "decryptData (unlimited E) = decryptData E"
proof (intro ext)
  fix c key
  have a: "aes_decrypt_utf8 (unlimited E) = aes_decrypt_utf8 E"
    and j: "json_parse (unlimited E) = json_parse E"
    by (simp_all add: unlimited_def)
  show "decryptData (unlimited E) c key = decryptData E c key"
    unfolding decryptData_def a j ..
qed

lemma not_null_unlimited: "not_null (unlimited E) = not_null E"
proof (intro ext)
  fix v
  show "not_null (unlimited E) v = not_null E v"
    by (cases v) (simp_all add: unlimited_def)
qed

lemma retrieve_unlimited:
  assumes "p \<noteq> GoogleDrive"
  shows "fst (retrieve_from (unlimited E) M p dt w) = fst (retrieve_from E M p dt w)"
proof (cases p)
  case GoogleDrive
  then show ?thesis using assms by simp
next
  case Supabase
  show ?thesis
    unfolding Supabase retrieve_from.simps fst_conv supabase_retrieveEncryptedData_def
      decryptData_unlimited ..
next
  case Local
  have item: "local_retrieve_item (unlimited E) = local_retrieve_item E"
    by (intro ext) (unfold local_retrieve_item_def decryptData_unlimited, rule refl)
  show ?thesis
    unfolding Local retrieve_from.simps fst_conv local_retrieveEncryptedData_def
      not_null_unlimited item ..
qed

subsection \<open>A quota that is not reached\<close>

lemma unlimited_fields [simp]:
  "json_stringify (unlimited E) = json_stringify E"
  "json_parse (unlimited E) = json_parse E"
  "json_is_null (unlimited E) = json_is_null E"
  "aes_encrypt (unlimited E) = aes_encrypt E"
  "aes_decrypt_utf8 (unlimited E) = aes_decrypt_utf8 E"
  "randomUUID (unlimited E) = randomUUID E"
  "storage_supported (unlimited E) = storage_supported E"
  "quota_ok (unlimited E) s"
  by (simp_all add: unlimited_def)

lemma encryptData_unlimited: "encryptData (unlimited E) = encryptData E"
  by (intro ext) (unfold encryptData_def unlimited_fields, rule refl)

lemma createEncryptedFolder_unlimited:
  "createEncryptedFolder (unlimited E) = createEncryptedFolder E"
  by (intro ext) (unfold createEncryptedFolder_def unlimited_fields, rule refl)

lemma getOrCreateFolder_unlimited: "getOrCreateFolder (unlimited E) = getOrCreateFolder E"
  by (intro ext) (unfold getOrCreateFolder_def createEncryptedFolder_unlimited, rule refl)

lemma drive_store_unlimited:
  "drive_storeEncryptedData (unlimited E) = drive_storeEncryptedData E"
  by (intro ext)
     (unfold drive_storeEncryptedData_def encryptData_unlimited getOrCreateFolder_unlimited
        unlimited_fields, rule refl)

lemma storeInProfilesTable_unlimited:
  "storeInProfilesTable (unlimited E) = storeInProfilesTable E"
  by (intro ext) (unfold storeInProfilesTable_def unlimited_fields, rule refl)

lemma supabase_fallback_unlimited: "supabase_fallback (unlimited E) = supabase_fallback E"
  by (intro ext) (unfold supabase_fallback_def storeInProfilesTable_unlimited, rule refl)

lemma supabase_insert_unlimited: "supabase_insert (unlimited E) = supabase_insert E"
  by (intro ext)
     (unfold supabase_insert_def supabase_fallback_unlimited unlimited_fields, rule refl)

lemma supabase_store_unlimited:
  "supabase_storeEncryptedData (unlimited E) = supabase_storeEncryptedData E"
  by (intro ext)
     (unfold supabase_storeEncryptedData_def encryptData_unlimited supabase_fallback_unlimited
        supabase_insert_unlimited, rule refl)

lemma store_in_unlimited:
  "b \<noteq> Local \<Longrightarrow> store_in (unlimited E) M b item dt w = store_in E M b item dt w"
  by (cases b) (simp_all add: drive_store_unlimited supabase_store_unlimited)

lemma storeDataInSpecificStorage_unlimited:
  "b \<noteq> Local \<Longrightarrow>
     storeDataInSpecificStorage (unlimited E) M items dt b w
       = storeDataInSpecificStorage E M items dt b w"
proof (induction items arbitrary: w)
  case Nil
  then show ?case by simp
next
  case (Cons item items)
  obtain r w1 where s: "store_in E M b item dt w = (r, w1)"
    by (cases "store_in E M b item dt w")
  show ?case
    using s store_in_unlimited [OF Cons.prems, of E M item dt w] Cons.IH [OF Cons.prems, of w1]
    by (cases r) simp_all
qed

lemma syncData_loop_unlimited:
  "Local \<notin> set rest \<Longrightarrow>
     syncData_loop (unlimited E) M items dt rest w = syncData_loop E M items dt rest w"
proof (induction rest arbitrary: w)
  case Nil
  then show ?case by simp
next
  case (Cons b rest)
  then have b: "b \<noteq> Local" and r: "Local \<notin> set rest" by auto
  obtain r1 w1 where s: "storeDataInSpecificStorage E M items dt b w = (r1, w1)"
    by (cases "storeDataInSpecificStorage E M items dt b w")
  show ?case
    using s storeDataInSpecificStorage_unlimited [OF b, of E M items dt w] Cons.IH [OF r, of w1]
    by (cases r1) simp_all
qed

lemma length_update:
  "length (AList.update k v s) = (if k \<in> fst ` set s then length s else Suc (length s))"
  by (induction s) auto

lemma length_update_le: "length (AList.update k v s) \<le> Suc (length s)"
  by (simp add: length_update)

lemma length_update_index:
  "length (AList.update (indexKey u) v s) \<le> entries_with_index u s"
proof -
  show ?thesis
    unfolding length_update entries_with_index_def getItem_def map_of_eq_None_iff by simp
qed

lemma entries_with_index_update:
  "entries_with_index u (AList.update k v s) \<le> Suc (entries_with_index u s)"
proof -
  have d: "fst ` set (AList.update k v s) = insert k (fst ` set s)"
    by (simp add: dom_update)
  show ?thesis
    unfolding entries_with_index_def length_update getItem_def map_of_eq_None_iff d
    by auto
qed

lemma entries_with_index_present:
  "entries_with_index u (AList.update (indexKey u) v s) = length (AList.update (indexKey u) v s)"
  by (simp add: entries_with_index_def getItem_update)

text \<open>
  A store on the local store whose two writes fit runs as it does with no quota, and
  leaves at most one entry more, the index counted from the start.
\<close>

lemma local_store_room:
  assumes room: "\<forall>s. length s \<le> Suc (entries_with_index u (ls w)) \<longrightarrow> quota_ok E s"
  shows "local_storeEncryptedData (unlimited E) u item dt key w
           = local_storeEncryptedData E u item dt key w
       \<and> (\<forall>ident w'. local_storeEncryptedData E u item dt key w = (Inr ident, w') \<longrightarrow>
             entries_with_index u (ls w') \<le> Suc (entries_with_index u (ls w)))"
proof (cases "storage_supported E")
  case False
  then show ?thesis by (simp add: local_storeEncryptedData_def)
next
  case True
  note sup = this
  show ?thesis
  proof (cases "encryptData E (rng w) item key")
    case (Inl e)
    then show ?thesis using sup
      by (simp add: local_storeEncryptedData_def encryptData_unlimited)
  next
    case (Inr c)
    let ?ident = "randomUUID E (Suc (rng w))"
    let ?w1 = "w\<lparr>rng := Suc (Suc (rng w))\<rparr>"
    let ?key = "storageKey u dt ?ident"
    let ?item = "\<lparr>item_id = ?ident, item_userId = u, item_dataType = dt,
                  item_encryptedContent = c, item_storageLocation = ''local'',
                  item_createdAt = clock w, item_updatedAt = clock w\<rparr>"
    let ?s1 = "AList.update ?key (LItem ?item) (ls w)"
    let ?w3 = "?w1\<lparr>ls := ?s1\<rparr>"
    have "length ?s1 \<le> Suc (entries_with_index u (ls w))"
      using length_update_le [of ?key "LItem ?item" "ls w"]
      by (simp add: entries_with_index_def)
    then have q1: "quota_ok E ?s1" using room by blast
    have set1: "setItem E (ls ?w1) ?key (LItem ?item) = Inr ?s1"
      "setItem (unlimited E) (ls ?w1) ?key (LItem ?item) = Inr ?s1"
      using q1 by (simp_all add: setItem_def)
    have ui: "updateIndex (unlimited E) u ?ident dt ?w3 = updateIndex E u ?ident dt ?w3
        \<and> (\<forall>w'. updateIndex E u ?ident dt ?w3 = (Inr (), w') \<longrightarrow>
              entries_with_index u (ls w') \<le> Suc (entries_with_index u (ls w)))"
    proof (cases "getIndex ?s1 u")
      case (Inl e)
      then show ?thesis by (simp add: updateIndex_def)
    next
      case (Inr index)
      let ?v = "LIndex (index @ [\<lparr>entry_id = ?ident, entry_dataType = dt,
                                   entry_createdAt = clock ?w3\<rparr>])"
      let ?s2 = "AList.update (indexKey u) ?v ?s1"
      have le: "length ?s2 \<le> Suc (entries_with_index u (ls w))"
        using length_update_index [of u ?v ?s1]
          entries_with_index_update [of u ?key "LItem ?item" "ls w"]
        by simp
      then have q2: "quota_ok E ?s2" using room by blast
      have "updateIndex E u ?ident dt ?w3 = (Inr (), ?w3\<lparr>ls := ?s2\<rparr>)"
        "updateIndex (unlimited E) u ?ident dt ?w3 = (Inr (), ?w3\<lparr>ls := ?s2\<rparr>)"
        using Inr q2 by (simp_all add: updateIndex_def setItem_def)
      then show ?thesis using le entries_with_index_present [of u ?v ?s1] by simp
    qed
    have run: "local_storeEncryptedData E u item dt key w
        = (case updateIndex E u ?ident dt ?w3 of
             (Inl e, w4) \<Rightarrow> (Inl (local_store_failed e), w4)
           | (Inr u', w4) \<Rightarrow> (Inr ?ident, w4))"
      using sup Inr set1(1) by (simp add: local_storeEncryptedData_def Let_def)
    have run': "local_storeEncryptedData (unlimited E) u item dt key w
        = (case updateIndex (unlimited E) u ?ident dt ?w3 of
             (Inl e, w4) \<Rightarrow> (Inl (local_store_failed e), w4)
           | (Inr u', w4) \<Rightarrow> (Inr ?ident, w4))"
      using sup Inr set1(2)
      by (simp add: local_storeEncryptedData_def Let_def encryptData_unlimited)
    show ?thesis
    proof (intro conjI allI impI)
      show "local_storeEncryptedData (unlimited E) u item dt key w
           = local_storeEncryptedData E u item dt key w"
        unfolding run run' using ui by simp
    next
      fix ident w'
      assume "local_storeEncryptedData E u item dt key w = (Inr ident, w')"
      then have "updateIndex E u ?ident dt ?w3 = (Inr (), w')"
        unfolding run by (auto split: prod.splits sum.splits)
      with ui show "entries_with_index u (ls w') \<le> Suc (entries_with_index u (ls w))"
        by blast
    qed
  qed
qed

lemma storeDataInSpecificStorage_room:
  "\<forall>s. length s \<le> entries_with_index (userId (config M)) (ls w) + length items
        \<longrightarrow> quota_ok E s \<Longrightarrow>
     storeDataInSpecificStorage (unlimited E) M items dt Local w
       = storeDataInSpecificStorage E M items dt Local w"
proof (induction items arbitrary: w)
  case Nil
  then show ?case by simp
next
  case (Cons item items)
  let ?u = "userId (config M)" and ?k = "encryptionKey (config M)"
  have one: "\<forall>s. length s \<le> Suc (entries_with_index ?u (ls w)) \<longrightarrow> quota_ok E s"
    using Cons.prems by simp
  note st = local_store_room [OF one, of item dt ?k]
  obtain r w1 where s: "local_storeEncryptedData E ?u item dt ?k w = (r, w1)"
    by (cases "local_storeEncryptedData E ?u item dt ?k w")
  show ?case
  proof (cases r)
    case (Inl e)
    then show ?thesis using s st by simp
  next
    case (Inr ident)
    with s st have "entries_with_index ?u (ls w1) \<le> Suc (entries_with_index ?u (ls w))"
      by blast
    then have "\<forall>s. length s \<le> entries_with_index ?u (ls w1) + length items \<longrightarrow> quota_ok E s"
      using Cons.prems by simp
    from Cons.IH [OF this] show ?thesis using s st Inr by simp
  qed
qed

lemma syncData_loop_room:
  "distinct rest \<Longrightarrow>
   \<forall>s. length s \<le> entries_with_index (userId (config M)) (ls w) + length items
        \<longrightarrow> quota_ok E s \<Longrightarrow>
     syncData_loop (unlimited E) M items dt rest w = syncData_loop E M items dt rest w"
proof (induction rest arbitrary: w)
  case Nil
  then show ?case by simp
next
  case (Cons b rest)
  from Cons.prems(1) have d: "distinct rest" "b \<notin> set rest" by simp_all
  obtain r1 w1 where s: "storeDataInSpecificStorage E M items dt b w = (r1, w1)"
    by (cases "storeDataInSpecificStorage E M items dt b w")
  show ?case
  proof (cases "b = Local")
    case True
    have first: "storeDataInSpecificStorage (unlimited E) M items dt b w = (r1, w1)"
      using storeDataInSpecificStorage_room [OF Cons.prems(2), of dt] s True by simp
    have "Local \<notin> set rest" using d(2) True by simp
    from syncData_loop_unlimited [OF this, of E M items dt w1] show ?thesis
      using s first by (cases r1) simp_all
  next
    case False
    have first: "storeDataInSpecificStorage (unlimited E) M items dt b w = (r1, w1)"
      using storeDataInSpecificStorage_unlimited [OF False, of E M items dt w] s by simp
    have "state_of Local w1 = state_of Local w"
      using storeDataInSpecificStorage_frame [of Local b E M items dt w] False s by simp
    then have "ls w1 = ls w" by simp
    then have "\<forall>s. length s \<le> entries_with_index (userId (config M)) (ls w1) + length items
        \<longrightarrow> quota_ok E s"
      using Cons.prems(2) by simp
    from Cons.IH [OF d(1) this] show ?thesis
      using s first by (cases r1) simp_all
  qed
qed

text \<open>
  The quota is spared when \<open>localStorage\<close> has room for the records of the first backend
  and for the index: no call of \<open>syncData\<close> writes more.
\<close>

lemma quota_spared_room:
  assumes en: "enabledStorages (config M) = p # rest"
    and dist: "distinct (p # rest)"
    and p: "p \<noteq> GoogleDrive"
    and primary: "fst (retrieve_from E M p dt w) = Inr items"
    and room: "\<forall>s. length s \<le> length (ls w) + length items + 1 \<longrightarrow> quota_ok E s"
  shows "quota_spared E M dt w"
proof -
  have dr: "drop 1 (enabledStorages (config M)) = rest" using en by simp
  have sd: "\<And>E. syncData E M dt w =
      (case fst (retrieve_from E M p dt w) of
         Inl e \<Rightarrow> (Inl (sync_failed e), w)
       | Inr items \<Rightarrow>
           (case syncData_loop E M items dt rest w of
              (Inl e, w') \<Rightarrow> (Inl (sync_failed e), w')
            | (Inr u, w') \<Rightarrow> (Inr (), w')))"
    unfolding syncData_def dr using en p by (cases p) simp_all
  have "entries_with_index (userId (config M)) (ls w) \<le> length (ls w) + 1"
    by (simp add: entries_with_index_def)
  then have "\<forall>s. length s \<le> entries_with_index (userId (config M)) (ls w) + length items
        \<longrightarrow> quota_ok E s"
    using room by simp
  from syncData_loop_room [OF _ this, of rest dt] dist
  have "syncData_loop (unlimited E) M items dt rest w = syncData_loop E M items dt rest w"
    by simp
  then show ?thesis
    unfolding quota_spared_def sd [of E] sd [of "unlimited E"]
      retrieve_unlimited [OF p] primary
    by simp
qed

subsection \<open>The claim\<close>

text \<open>
  Claim C4, as the code has it. The enabled backends are distinct and the first one, the
  local or the hosted store, holds the records \<open>items\<close> of the data type. A call of
  \<open>syncData\<close> that returns normally has stored every one of them once more on each other
  backend, whatever that backend held, and has left the first backend as it was. So on a
  backend whose service takes what is stored, and for the local store when no write of
  the two calls is refused by the quota, the count grows by the number of items with each
  call and by twice that number with two calls: nothing identifies a record stored before.
\<close>

theorem syncData_twice_appends:
  assumes en: "enabledStorages (config M) = p # rest"
    and dist: "distinct (p # rest)"
    and p: "p \<noteq> GoogleDrive"
    and q: "q \<in> set rest"
    and takes: "service_takes q w"
    and spared: "q = Local \<Longrightarrow> quota_spared E M dt w \<and> quota_spared E M dt w1"
    and primary: "fst (retrieve_from E M p dt w) = Inr items"
    and first: "syncData E M dt w = (Inr (), w1)"
    and second: "syncData E M dt w1 = (Inr (), w2)"
  shows "held M q dt w1 = held M q dt w + length items
       \<and> held M q dt w2 = held M q dt w + 2 * length items
       \<and> fst (retrieve_from E M p dt w2) = Inr items"
proof (cases "q = Local")
  case False
  then have "q = Local \<longrightarrow> (\<forall>s. quota_ok E s)" by simp
  from syncData_twice_core [OF en dist p q takes this primary first second]
  show ?thesis .
next
  case True
  let ?U = "unlimited E"
  have quota: "q = Local \<longrightarrow> (\<forall>s. quota_ok ?U s)" by (simp add: unlimited_def)
  from spared [OF True] first second
  have first': "syncData ?U M dt w = (Inr (), w1)"
    and second': "syncData ?U M dt w1 = (Inr (), w2)"
    by (simp_all add: quota_spared_def)
  have primary': "fst (retrieve_from ?U M p dt w) = Inr items"
    using primary retrieve_unlimited [OF p, of E M dt w] by simp
  from syncData_twice_core [OF en dist p q takes quota primary' first' second']
    retrieve_unlimited [OF p, of E M dt w2]
  show ?thesis by simp
qed

text \<open>
  Hosted store then local store enabled, two rows in the hosted store, and a local store,
  empty, with room for a hundred entries: no write is refused, and after two calls the
  local store holds four records.
\<close>

theorem syncData_twice_appends_witness:
  "fst (retrieve_from demo_roomy_env (demo_manager [Supabase, Local]) Supabase ''medicines''
          demo_two_rows_world) = Inr [''Paracetamol'', ''Ibuprofen'']
   \<and> held (demo_manager [Supabase, Local]) Local ''medicines'' demo_two_rows_world = 0
   \<and> fst (syncData demo_roomy_env (demo_manager [Supabase, Local]) ''medicines''
          demo_two_rows_world) = Inr ()
   \<and> fst (syncData demo_roomy_env (demo_manager [Supabase, Local]) ''medicines''
          (snd (syncData demo_roomy_env (demo_manager [Supabase, Local]) ''medicines''
                  demo_two_rows_world))) = Inr ()
   \<and> held (demo_manager [Supabase, Local]) Local ''medicines''
         (snd (syncData demo_roomy_env (demo_manager [Supabase, Local]) ''medicines''
           (snd (syncData demo_roomy_env (demo_manager [Supabase, Local]) ''medicines''
                  demo_two_rows_world)))) = 4"
proof -
  let ?E = demo_roomy_env
  let ?M = "demo_manager [Supabase, Local]"
  let ?w1 = "snd (syncData ?E ?M ''medicines'' demo_two_rows_world)"
  let ?w2 = "snd (syncData ?E ?M ''medicines'' ?w1)"
  have en: "enabledStorages (config ?M) = Supabase # [Local]"
    by (simp add: demo_manager_def new_StorageManager_def)
  have dist: "distinct (Supabase # [Local])" by simp
  have p: "Supabase \<noteq> GoogleDrive" by simp
  have q: "Local \<in> set [Local]" by simp
  have takes: "service_takes Local demo_two_rows_world" by simp
  have s1: "quota_spared ?E ?M ''medicines'' demo_two_rows_world" by code_simp
  have s2: "quota_spared ?E ?M ''medicines'' ?w1" by code_simp
  have spared: "Local = Local \<Longrightarrow>
      quota_spared ?E ?M ''medicines'' demo_two_rows_world
      \<and> quota_spared ?E ?M ''medicines'' ?w1"
    using s1 s2 by simp
  have primary: "fst (retrieve_from ?E ?M Supabase ''medicines'' demo_two_rows_world)
      = Inr [''Paracetamol'', ''Ibuprofen'']" by code_simp
  have h0: "held ?M Local ''medicines'' demo_two_rows_world = 0" by code_simp
  have f1: "fst (syncData ?E ?M ''medicines'' demo_two_rows_world) = Inr ()" by code_simp
  have f2: "fst (syncData ?E ?M ''medicines'' ?w1) = Inr ()" by code_simp
  have first: "syncData ?E ?M ''medicines'' demo_two_rows_world = (Inr (), ?w1)"
    using f1 by (simp add: prod_eq_iff)
  have second: "syncData ?E ?M ''medicines'' ?w1 = (Inr (), ?w2)"
    using f2 by (simp add: prod_eq_iff)
  from syncData_twice_appends [OF en dist p q takes spared primary first second] h0
  have "held ?M Local ''medicines'' ?w2 = 4" by simp
  with primary h0 f1 f2 show ?thesis by simp
qed

text \<open>
  The claim as stated fails where a store does not append. The hosted store holds two
  records and the local store, empty, has room for three entries. Both calls of
  \<open>syncData\<close> return normally; during the second, each store reaches the quota and evicts
  the oldest record. The local store ends with two records, not four.
\<close>

theorem syncData_twice_eviction_counterexample:
  "fst (retrieveData demo_three_env (demo_manager [Supabase, Local]) ''medicines''
          demo_two_rows_world) = Inr [''Paracetamol'', ''Ibuprofen'']
   \<and> ls demo_two_rows_world = []
   \<and> fst (syncData demo_three_env (demo_manager [Supabase, Local]) ''medicines''
            demo_two_rows_world) = Inr ()
   \<and> syncData demo_three_env (demo_manager [Supabase, Local]) ''medicines''
        (snd (syncData demo_three_env (demo_manager [Supabase, Local]) ''medicines''
                demo_two_rows_world)) = (Inr (), demo_evicted_world)
   \<and> held (demo_manager [Supabase, Local]) Local ''medicines'' demo_evicted_world = 2
   \<and> stored_records ''u1'' demo_evicted_world = 2"
  by code_simp

text \<open>
  With the Drive as primary storage nothing is copied at all: one record in the Drive, an
  empty local store, and still none there after two calls.
\<close>

lemma syncData_twice_drive_primary:
  "fst (retrieveData demo_env (demo_manager [GoogleDrive, Local]) ''medicines''
          demo_drive_world) = Inr [''Paracetamol'']
   \<and> fst (retrieveData demo_env (demo_manager [Local]) ''medicines'' demo_drive_world) = Inr []
   \<and> fst (retrieveData demo_env (demo_manager [Local]) ''medicines''
        (snd (syncData demo_env (demo_manager [GoogleDrive, Local]) ''medicines''
           (snd (syncData demo_env (demo_manager [GoogleDrive, Local]) ''medicines''
              demo_drive_world))))) = Inr []"
  by code_simp

end
